(* ===== verification/Prelude.thy ===== *)
theory Prelude
  imports Complex_Main "HOL-Library.Multiset"
begin

text \<open>
  Shared vocabulary of the development: Go's 64-bit integers, its truncating division, its
  float64 arithmetic, the stable slice sort of the standard library, and the generic lemmas on
  lists and maps that the component theories use.

  An \<open>int64\<close> (and Go's \<open>int\<close>, 64 bits wide on the platforms the server is built for) is
  an \<open>int\<close>; every arithmetic operation of the source that could leave the range goes through
  \<open>wrap64\<close>, so wrap-around is part of the model. A \<open>time.Time\<close> is its distance in
  nanoseconds from a fixed instant, a \<open>time.Duration\<close> a number of nanoseconds.
\<close>

named_theorems go_arith \<open>64-bit operations that stay in range\<close>
named_theorems book_simps \<open>order book selectors after an update\<close>
named_theorems frame_simps \<open>what an operation leaves alone\<close>

type_synonym int64 = int
type_synonym time = int
type_synonym duration = int
type_synonym addr = nat

section \<open>64-bit integers\<close>

definition in64 :: "int \<Rightarrow> bool" where
  "in64 x \<longleftrightarrow> - (2 ^ 63) \<le> x \<and> x < 2 ^ 63"

definition wrap64 :: "int \<Rightarrow> int64" where
  "wrap64 x = (x + 2 ^ 63) mod 2 ^ 64 - 2 ^ 63"

definition add64 :: "int64 \<Rightarrow> int64 \<Rightarrow> int64" where
  "add64 a b = wrap64 (a + b)"

definition sub64 :: "int64 \<Rightarrow> int64 \<Rightarrow> int64" where
  "sub64 a b = wrap64 (a - b)"

definition mul64 :: "int64 \<Rightarrow> int64 \<Rightarrow> int64" where
  "mul64 a b = wrap64 (a * b)"

text \<open>Go's integer division truncates towards zero; every use in the source has a nonzero divisor.\<close>

definition quot64 :: "int64 \<Rightarrow> int64 \<Rightarrow> int64" where
  "quot64 a b = wrap64 (sgn a * sgn b * (\<bar>a\<bar> div \<bar>b\<bar>))"

lemma wrap64_in64: "in64 (wrap64 x)"
proof -
  have "0 \<le> (x + 2 ^ 63) mod 2 ^ 64 \<and> (x + 2 ^ 63) mod 2 ^ 64 < (2::int) ^ 64"
    by simp
  then show ?thesis by (simp add: in64_def wrap64_def)
qed

lemma wrap64_id [go_arith]: "in64 x \<Longrightarrow> wrap64 x = x"
  by (simp add: in64_def wrap64_def)

lemma wrap64_0 [simp]: "wrap64 0 = 0"
  by (simp add: wrap64_def)

lemma wrap64_le: "0 \<le> x \<Longrightarrow> wrap64 x \<le> x"
proof (cases "x < 2 ^ 63")
  case True
  moreover assume "0 \<le> x"
  ultimately show ?thesis by (simp add: wrap64_id in64_def)
next
  case False
  then show ?thesis using wrap64_in64 [of x] by (simp add: in64_def)
qed

lemma wrap64_idem [simp]: "wrap64 (wrap64 x) = wrap64 x"
  by (simp add: wrap64_id wrap64_in64)

lemma wrap64_add_left: "wrap64 (wrap64 a + b) = wrap64 (a + b)"
  by (simp add: wrap64_def algebra_simps mod_simps)

lemma in64_between: "in64 a \<Longrightarrow> in64 c \<Longrightarrow> a \<le> b \<Longrightarrow> b \<le> c \<Longrightarrow> in64 b"
  by (simp add: in64_def)

lemma in64_0 [simp]: "in64 0"
  by (simp add: in64_def)

lemma in64_nonneg: "0 \<le> x \<Longrightarrow> x \<le> y \<Longrightarrow> in64 y \<Longrightarrow> in64 x"
  by (simp add: in64_def)

lemma add64_id [go_arith]: "in64 (a + b) \<Longrightarrow> add64 a b = a + b"
  by (simp add: add64_def wrap64_id)

lemma sub64_id [go_arith]: "in64 (a - b) \<Longrightarrow> sub64 a b = a - b"
  by (simp add: sub64_def wrap64_id)

lemma mul64_id [go_arith]: "in64 (a * b) \<Longrightarrow> mul64 a b = a * b"
  by (simp add: mul64_def wrap64_id)

lemma sub64_same [simp]: "sub64 a a = 0"
  by (simp add: sub64_def)

lemma quot64_nonneg [go_arith]:
  assumes "0 \<le> a" and "0 < b" and "in64 a"
  shows "quot64 a b = a div b"
proof -
  have nn: "0 \<le> a div b"
    using assms(1,2) by (rule pos_imp_zdiv_nonneg_iff [THEN iffD2, rotated])
  have "a div b \<le> a div 1"
    using assms(1,2) by (intro zdiv_mono2) auto
  then have le: "a div b \<le> a" by simp
  have "sgn a * sgn b * (\<bar>a\<bar> div \<bar>b\<bar>) = a div b"
    using assms(1,2) by (cases "a = 0") (auto simp: sgn_if)
  then show ?thesis
    using in64_nonneg [OF nn le assms(3)] by (simp add: quot64_def wrap64_id)
qed

section \<open>The standard library's stable slice sort\<close>

text \<open>
  \<open>sort.SliceStable(xs, less)\<close> leaves the elements in an order in which no element is \<open>less\<close>
  than an earlier one, elements that compare equal keeping their order. It is modelled by
  insertion sort from the right, as the library's result is unique for a strict weak order.
\<close>

fun insert_stable :: "('a \<Rightarrow> 'a \<Rightarrow> bool) \<Rightarrow> 'a \<Rightarrow> 'a list \<Rightarrow> 'a list" where
  "insert_stable lt x [] = [x]"
| "insert_stable lt x (y # ys) =
     (if lt y x then y # insert_stable lt x ys else x # y # ys)"

definition SliceStable :: "('a \<Rightarrow> 'a \<Rightarrow> bool) \<Rightarrow> 'a list \<Rightarrow> 'a list" where
  "SliceStable lt xs = foldr (insert_stable lt) xs []"

lemma insert_stable_insort_key:
  fixes f :: "'a \<Rightarrow> int"
  shows "insert_stable (\<lambda>x y. f x < f y) x ys = insort_key f x ys"
  by (induction ys) auto

lemma SliceStable_sort_key:
  fixes f :: "'a \<Rightarrow> int"
  shows "SliceStable (\<lambda>x y. f x < f y) xs = sort_key f xs"
  by (induction xs) (simp_all add: SliceStable_def sort_key_def insert_stable_insort_key)

lemma foldr_insort_key_append:
  fixes f :: "'a \<Rightarrow> int"
  shows "sorted (map f xs) \<Longrightarrow>
    foldr (insort_key f) xs [e] = takeWhile (\<lambda>x. f x \<le> f e) xs @ e # dropWhile (\<lambda>x. f x \<le> f e) xs"
proof (induction xs)
  case Nil
  then show ?case by simp
next
  case (Cons a xs)
  then have IH: "foldr (insort_key f) xs [e] =
      takeWhile (\<lambda>x. f x \<le> f e) xs @ e # dropWhile (\<lambda>x. f x \<le> f e) xs"
    and le: "\<forall>x\<in>set xs. f a \<le> f x" by auto
  show ?case
  proof (cases "f a \<le> f e")
    case True
    have "\<forall>x \<in> set (takeWhile (\<lambda>x. f x \<le> f e) xs). f a \<le> f x"
      using le by (meson set_takeWhileD)
    then have "insort_key f a (takeWhile (\<lambda>x. f x \<le> f e) xs @ e # ys) =
        a # takeWhile (\<lambda>x. f x \<le> f e) xs @ e # ys" for ys
      using True by (cases "takeWhile (\<lambda>x. f x \<le> f e) xs") auto
    with True IH show ?thesis by simp
  next
    case False
    then have gt: "\<forall>x\<in>set xs. \<not> f x \<le> f e" using le by force
    then have "takeWhile (\<lambda>x. f x \<le> f e) xs = []" "dropWhile (\<lambda>x. f x \<le> f e) xs = xs"
      by (cases xs; simp)+
    moreover have "insort_key f a xs = a # xs"
      using le by (cases xs) auto
    ultimately show ?thesis using False IH by simp
  qed
qed

text \<open>
  Sorting a sorted slice with one element appended puts that element behind every element of
  its own key: first in, first out among equals.
\<close>

lemma SliceStable_snoc:
  fixes f :: "'a \<Rightarrow> int"
  assumes "sorted (map f xs)"
  shows "SliceStable (\<lambda>x y. f x < f y) (xs @ [e]) =
    takeWhile (\<lambda>x. f x \<le> f e) xs @ e # dropWhile (\<lambda>x. f x \<le> f e) xs"
  using foldr_insort_key_append [OF assms]
  by (simp add: SliceStable_def insert_stable_insort_key [abs_def])

section \<open>Panics and slices\<close>

text \<open>The outcome of code that can panic, and the slice expression \<open>xs[i:j]\<close>, which panics out of range.\<close>

datatype 'a outcome = Return 'a | Panic

definition slice :: "'a list \<Rightarrow> int64 \<Rightarrow> int64 \<Rightarrow> 'a list outcome" where
  "slice xs i j =
     (if 0 \<le> i \<and> i \<le> j \<and> j \<le> int (length xs) then Return (take (nat (j - i)) (drop (nat i) xs))
      else Panic)"

text \<open>A buffered channel: what is queued in it, and whether it has been closed.\<close>

record 'a channel =
  chQueue :: "'a list"
  chClosed :: bool

datatype send_result = Sent | Full | SendPanic

text \<open>
  The non-blocking send \<open>select { case ch <- x: ... default: ... }\<close>. Sending on a closed channel
  panics, whether or not there is room.
\<close>

definition try_send :: "nat \<Rightarrow> 'a channel \<Rightarrow> 'a \<Rightarrow> send_result \<times> 'a channel" where
  "try_send capacity ch x =
     (if chClosed ch then (SendPanic, ch)
      else if length (chQueue ch) < capacity then (Sent, ch\<lparr>chQueue := chQueue ch @ [x]\<rparr>)
      else (Full, ch))"

definition new_channel :: "'a channel" where
  "new_channel = \<lparr>chQueue = [], chClosed = False\<rparr>"

lemma try_send_queue:
  "try_send n ch x = (r, ch') \<Longrightarrow>
   chQueue ch' = (if r = Sent then chQueue ch @ [x] else chQueue ch) \<and> chClosed ch' = chClosed ch \<and>
   (r = SendPanic) = chClosed ch \<and> (length (chQueue ch) \<le> n \<longrightarrow> length (chQueue ch') \<le> n)"
  by (auto simp: try_send_def split: if_splits)

end
