(* ===== verification/Float64.thy ===== *)
theory Float64
  imports Prelude
begin

text \<open>
  Go's float64 arithmetic as the server uses it (percentage change of a ticker, the simulator's
  random walk). A finite double is the rational number it stands for, and each operation rounds
  the exact result to 53 significant bits, ties to even, as IEEE 754 prescribes. The exponent is
  unbounded: the operands here are 64-bit integers, small constants and numbers in [0,1), so no
  intermediate result overflows, and one too small for the normal range truncates to 0 anyway.
\<close>

type_synonym float64 = rat

text \<open>The number of binary digits of a nonnegative integer.\<close>

function blen :: "int \<Rightarrow> int" where
  "blen n = (if n \<le> 0 then 0 else 1 + blen (n div 2))"
  by pat_completeness auto
termination
  by (relation "measure nat") auto

declare blen.simps [simp del]

definition round_half_even :: "rat \<Rightarrow> int" where
  "round_half_even y =
     (let f = \<lfloor>y\<rfloor>; d = y - of_int f in
      if d < 1 / 2 then f else if d > 1 / 2 then f + 1 else if even f then f else f + 1)"

text \<open>The binary exponent: the largest \<open>e\<close> with \<open>2 ^ e \<le> x\<close>, for positive \<open>x\<close>.\<close>

definition exponent2 :: "rat \<Rightarrow> int" where
  "exponent2 x =
     (let (p, q) = quotient_of x; e = blen p - blen q in
      if x < 2 powi e then e - 1 else e)"

definition round53 :: "rat \<Rightarrow> float64" where
  "round53 x =
     (if x = 0 then 0
      else let u = 2 powi (exponent2 \<bar>x\<bar> - 52)
           in sgn x * of_int (round_half_even (\<bar>x\<bar> / u)) * u)"

definition float_of_int64 :: "int64 \<Rightarrow> float64" where
  "float_of_int64 n = round53 (of_int n)"

definition fadd :: "float64 \<Rightarrow> float64 \<Rightarrow> float64" where
  "fadd x y = round53 (x + y)"

definition fsub :: "float64 \<Rightarrow> float64 \<Rightarrow> float64" where
  "fsub x y = round53 (x - y)"

definition fmul :: "float64 \<Rightarrow> float64 \<Rightarrow> float64" where
  "fmul x y = round53 (x * y)"

definition fdiv :: "float64 \<Rightarrow> float64 \<Rightarrow> float64" where
  "fdiv x y = round53 (x / y)"

text \<open>
  The conversion \<open>int64(f)\<close> drops the fraction; out of range the result depends on the machine,
  on amd64 it is the smallest integer.
\<close>

definition int64_of_float :: "float64 \<Rightarrow> int64" where
  "int64_of_float x =
     (let t = (if 0 \<le> x then \<lfloor>x\<rfloor> else - \<lfloor>- x\<rfloor>) in if in64 t then t else - (2 ^ 63))"

text \<open>\<open>math.Round\<close>: half away from zero.\<close>

definition Round :: "float64 \<Rightarrow> float64" where
  "Round x = sgn x * of_int \<lfloor>\<bar>x\<bar> + 1 / 2\<rfloor>"

section \<open>Rounding never passes a power of two\<close>

lemma round_half_even_le:
  assumes "y \<le> of_int n"
  shows "round_half_even y \<le> n"
proof (cases "\<lfloor>y\<rfloor> = n")
  case True
  then have "y = of_int n" using assms by linarith
  then show ?thesis by (simp add: round_half_even_def)
next
  case False
  then have "\<lfloor>y\<rfloor> + 1 \<le> n" using assms by linarith
  then show ?thesis by (auto simp: round_half_even_def Let_def)
qed

lemma round_half_even_ge:
  assumes "of_int n \<le> y"
  shows "n \<le> round_half_even y"
proof -
  have "n \<le> \<lfloor>y\<rfloor>" using assms by linarith
  then show ?thesis by (auto simp: round_half_even_def Let_def)
qed

lemma round_half_even_of_int [simp]: "round_half_even (of_int n) = n"
  by (simp add: round_half_even_def)

section \<open>Bounds on rounded values\<close>

lemma blen_nonneg: "0 \<le> blen n"
  by (induction n rule: blen.induct) (subst blen.simps, simp)

lemma blen_bounds:
  "0 < n \<Longrightarrow> 2 ^ nat (blen n - 1) \<le> n \<and> n < 2 ^ nat (blen n)"
proof (induction n rule: blen.induct)
  case (1 n)
  show ?case
  proof (cases "n = 1")
    case True
    have "blen 1 = 1" by (simp add: blen.simps)
    then show ?thesis using True by simp
  next
    case False
    then have pos: "0 < n div 2" using "1.prems" by linarith
    have IH: "2 ^ nat (blen (n div 2) - 1) \<le> n div 2" "n div 2 < 2 ^ nat (blen (n div 2))"
      using "1.IH" [OF _ pos] "1.prems" by auto
    have eq: "blen n = 1 + blen (n div 2)" using "1.prems" by (simp add: blen.simps [of n])
    have "1 \<le> blen (n div 2)" using pos blen_nonneg [of "n div 2 div 2"] by (simp add: blen.simps [of "n div 2"])
    then have e: "nat (blen n - 1) = Suc (nat (blen (n div 2) - 1))" "nat (blen n) = Suc (nat (blen (n div 2)))"
      by (simp_all add: eq)
    show ?thesis unfolding e using IH by (simp only: power_Suc) linarith
  qed
qed

lemma exponent2_le:
  assumes "0 < x"
  shows "2 powi exponent2 x \<le> x"
proof -
  obtain p q where pq: "quotient_of x = (p, q)" by fastforce
  define e where "e = blen p - blen q"
  have q: "0 < q" using quotient_of_denom_pos [OF pq] .
  have x: "x = of_int p / of_int q" using quotient_of_div [OF pq] .
  then have p: "0 < p" using assms q by (simp add: zero_less_divide_iff)
  have "2 powi (e - 1) \<le> x"
  proof -
    have bp: "1 \<le> blen p" using p blen_nonneg [of "p div 2"] by (simp add: blen.simps [of p])
    have "(2::rat) powi (blen p - 1) = of_int (2 ^ nat (blen p - 1))" using bp by (simp add: power_int_def)
    also have "\<dots> \<le> of_int p" using blen_bounds [OF p] by (simp only: of_int_le_iff)
    finally have 1: "(2::rat) powi (blen p - 1) \<le> of_int p" .
    have "(of_int q :: rat) \<le> of_int (2 ^ nat (blen q))" using blen_bounds [OF q] by (subst of_int_le_iff) simp
    also have "\<dots> = 2 powi blen q" using blen_nonneg [of q] by (simp add: power_int_def)
    finally have 2: "(of_int q :: rat) \<le> 2 powi blen q" .
    have "(2::rat) powi (e - 1) = 2 powi (blen p - 1) / 2 powi blen q"
      by (simp add: e_def algebra_simps flip: power_int_diff)
    also have "\<dots> \<le> of_int p / of_int q" using 1 2 p q by (intro frac_le) simp_all
    finally show ?thesis by (simp add: x)
  qed
  then show ?thesis by (auto simp: exponent2_def pq Let_def e_def [symmetric])
qed

text \<open>
  Rounding does not pass a number with at most 53 significant bits: a bound \<open>m * 2 ^ k\<close> with
  \<open>m < 2 ^ 53\<close> on the exact result is a bound on the rounded one.
\<close>

lemma round53_le_pos:
  assumes "0 < x" and "x \<le> of_int m * 2 powi k" and "m < 2 ^ 53"
  shows "round53 x \<le> of_int m * 2 powi k"
proof -
  define e where "e = exponent2 x"
  define u :: rat where "u = 2 powi (e - 52)"
  have u: "0 < u" by (simp add: u_def)
  have "(2::rat) powi e \<le> of_int m * 2 powi k" using exponent2_le [OF assms(1)] assms(2) by (simp add: e_def)
  also have "\<dots> < of_int (2 ^ 53) * 2 powi k" using assms(3) by (intro mult_strict_right_mono) (simp_all only: of_int_less_iff, simp)
  also have "\<dots> = 2 powi (53 + k)" by (simp add: power_int_add)
  finally have "(2::rat) powi e < 2 powi (53 + k)" .
  then have "e < 53 + k" using power_int_increasing [of "53 + k" e "2::rat"] by (cases "e < 53 + k") auto
  then have "of_int m * 2 powi k / u = of_int (m * 2 ^ nat (k - e + 52))"
    by (auto simp add: u_def power_int_def field_simps nat_diff_distrib simp flip: power_add power_int_add power_int_diff)
  moreover have "x / u \<le> of_int m * 2 powi k / u" using assms(2) u by (simp add: divide_right_mono)
  ultimately have "round_half_even (x / u) \<le> m * 2 ^ nat (k - e + 52)" by (intro round_half_even_le) simp
  then have "of_int (round_half_even (x / u)) \<le> of_int m * 2 powi k / u"
    using \<open>of_int m * 2 powi k / u = of_int (m * 2 ^ nat (k - e + 52))\<close> by (simp only: of_int_le_iff)
  then have "of_int (round_half_even (x / u)) * u \<le> of_int m * 2 powi k" using u by (simp add: pos_le_divide_eq)
  then show ?thesis using assms(1) by (simp add: round53_def Let_def e_def [symmetric] u_def [symmetric])
qed

text \<open>Nor from above.\<close>

lemma round53_ge_pos:
  assumes "of_int m * 2 powi k \<le> x" and "0 < m" and "m < 2 ^ 53"
  shows "of_int m * 2 powi k \<le> round53 x"
proof -
  define e where "e = exponent2 x"
  define u :: rat where "u = 2 powi (e - 52)"
  have pos: "0 < of_int m * (2::rat) powi k" using assms(2) by simp
  then have x: "0 < x" using assms(1) by linarith
  have u: "0 < u" by (simp add: u_def)
  have r: "round53 x = of_int (round_half_even (x / u)) * u"
    using x by (simp add: round53_def Let_def e_def [symmetric] u_def [symmetric])
  show ?thesis
  proof (cases "(2::rat) powi e \<le> of_int m * 2 powi k")
    case True
    note True
    also have "of_int m * (2::rat) powi k < of_int (2 ^ 53) * 2 powi k" using assms(3) by (intro mult_strict_right_mono) (simp_all only: of_int_less_iff, simp)
    also have "\<dots> = 2 powi (53 + k)" by (simp add: power_int_add)
    finally have "(2::rat) powi e < 2 powi (53 + k)" .
    then have "e < 53 + k" using power_int_increasing [of "53 + k" e "2::rat"] by (cases "e < 53 + k") auto
    then have b: "of_int m * 2 powi k / u = of_int (m * 2 ^ nat (k - e + 52))"
      by (auto simp add: u_def power_int_def field_simps nat_diff_distrib simp flip: power_add power_int_add power_int_diff)
    moreover have "of_int m * 2 powi k / u \<le> x / u" using assms(1) u by (simp add: divide_right_mono)
    ultimately have "m * 2 ^ nat (k - e + 52) \<le> round_half_even (x / u)" by (intro round_half_even_ge) simp
    then have "of_int m * 2 powi k / u \<le> of_int (round_half_even (x / u))" unfolding b by (simp only: of_int_le_iff)
    then show ?thesis using u unfolding r by (simp add: pos_divide_le_eq)
  next
    case False
    have "2 powi e \<le> x" unfolding e_def by (rule exponent2_le [OF x])
    moreover have "(2::rat) powi e / u = of_int (2 ^ 52)" by (simp add: u_def flip: power_int_diff)
    ultimately have "of_int (2 ^ 52) \<le> x / u" using u by (metis divide_right_mono less_imp_le)
    then have "2 ^ 52 \<le> round_half_even (x / u)" by (rule round_half_even_ge)
    then have "(2::rat) powi e / u \<le> of_int (round_half_even (x / u))"
      unfolding \<open>(2::rat) powi e / u = of_int (2 ^ 52)\<close> by (simp only: of_int_le_iff)
    then have "2 powi e \<le> round53 x" using u unfolding r by (simp add: pos_divide_le_eq)
    then show ?thesis using False by linarith
  qed
qed

lemma round53_minus: "round53 (- x) = - round53 x"
  by (simp add: round53_def Let_def)

lemma round53_sign: "0 < x \<Longrightarrow> 0 \<le> round53 x"
proof -
  assume x: "0 < x"
  have "0 \<le> round_half_even (x / 2 powi (exponent2 x - 52))"
    using x by (intro round_half_even_ge) simp
  then show ?thesis using x by (simp add: round53_def Let_def)
qed

lemma round53_le:
  assumes "x \<le> of_int m * 2 powi k" and "0 \<le> m" and "m < 2 ^ 53"
  shows "round53 x \<le> of_int m * 2 powi k"
proof (cases "0 < x")
  case True
  then show ?thesis using round53_le_pos assms by blast
next
  case False
  then have "round53 x \<le> 0"
    using round53_sign [of "- x"] by (cases "x = 0") (simp_all add: round53_minus round53_def [of 0])
  also have "0 \<le> of_int m * (2::rat) powi k" using assms(2) by simp
  finally show ?thesis .
qed

lemma round53_ge:
  assumes "- (of_int m * 2 powi k) \<le> x" and "0 \<le> m" and "m < 2 ^ 53"
  shows "- (of_int m * 2 powi k) \<le> round53 x"
  using round53_le [of "- x" m k] assms by (simp add: round53_minus)

lemma round53_le_int: "x \<le> of_int m \<Longrightarrow> 0 \<le> m \<Longrightarrow> m < 2 ^ 53 \<Longrightarrow> round53 x \<le> of_int m"
  using round53_le [of x m 0] by simp

lemma round53_ge_int: "- of_int m \<le> x \<Longrightarrow> 0 \<le> m \<Longrightarrow> m < 2 ^ 53 \<Longrightarrow> - of_int m \<le> round53 x"
  using round53_ge [of m 0 x] by simp

lemma int64_of_float_le:
  assumes "x \<le> of_int n" and "- of_int n \<le> x" and "in64 n" and "0 \<le> n"
  shows "int64_of_float x \<le> n" and "- n \<le> int64_of_float x"
proof -
  define t where "t = (if 0 \<le> x then \<lfloor>x\<rfloor> else - \<lfloor>- x\<rfloor>)"
  have "t \<le> n \<and> - n \<le> t" using assms(1,2,4) unfolding t_def by (auto simp: floor_le_iff le_floor_iff) linarith+
  moreover from this have "in64 t" using assms(3,4) by (simp add: in64_def)
  ultimately show "int64_of_float x \<le> n" "- n \<le> int64_of_float x" by (simp_all add: int64_of_float_def t_def [symmetric])
qed

end
