(* ===== verification/Entities.thy ===== *)
theory Entities
  imports Float64
begin

text \<open>
  The domain layer (src/internal/domain): orders, trades, tickers, order book snapshots, the
  stock registry, users, the event envelope and the repository errors, with the methods the
  entities carry. A \<open>Side\<close> and an \<open>OrderStatus\<close> are strings in the source and stay
  strings here: nothing in the type rules out another value, only the validator does.

  Methods that call \<open>time.Now()\<close> take the instant as an argument; the caller reads the clock.
\<close>

section \<open>Orders\<close>

type_synonym Side = string
type_synonym OrderStatus = string

definition SideBuy :: Side where "SideBuy = ''BUY''"

definition SideSell :: Side where "SideSell = ''SELL''"

definition Side_IsValid :: "Side \<Rightarrow> bool" where
  "Side_IsValid s \<longleftrightarrow> s = SideBuy \<or> s = SideSell"

definition OrderStatusOpen :: OrderStatus where "OrderStatusOpen = ''OPEN''"

definition OrderStatusPartial :: OrderStatus where "OrderStatusPartial = ''PARTIAL''"

definition OrderStatusFilled :: OrderStatus where "OrderStatusFilled = ''FILLED''"

definition OrderStatusCancelled :: OrderStatus where "OrderStatusCancelled = ''CANCELLED''"

definition OrderStatus_IsValid :: "OrderStatus \<Rightarrow> bool" where
  "OrderStatus_IsValid s \<longleftrightarrow>
     s = OrderStatusOpen \<or> s = OrderStatusPartial \<or> s = OrderStatusFilled \<or> s = OrderStatusCancelled"

record Order =
  oID :: string
  oUserID :: string
  oStockCode :: string
  oSide :: Side
  oPrice :: int64
  oQuantity :: int64
  oFilledQuantity :: int64
  oStatus :: OrderStatus
  oCreatedAt :: time
  oUpdatedAt :: time

definition RemainingQuantity :: "Order \<Rightarrow> int64" where
  "RemainingQuantity o1 = sub64 (oQuantity o1) (oFilledQuantity o1)"

definition IsActive :: "Order \<Rightarrow> bool" where
  "IsActive o1 \<longleftrightarrow> oStatus o1 = OrderStatusOpen \<or> oStatus o1 = OrderStatusPartial"

definition Fill :: "time \<Rightarrow> Order \<Rightarrow> int64 \<Rightarrow> Order" where
  "Fill now o0 qty =
     (let o1 = o0\<lparr>oFilledQuantity := add64 (oFilledQuantity o0) qty, oUpdatedAt := now\<rparr>
      in if oQuantity o1 \<le> oFilledQuantity o1 then o1\<lparr>oStatus := OrderStatusFilled\<rparr>
         else o1\<lparr>oStatus := OrderStatusPartial\<rparr>)"

record OrderFilter =
  ofStockCode :: string
  ofStatus :: OrderStatus
  ofUserID :: string
  ofPage :: int64
  ofPerPage :: int64

section \<open>Trades, order book snapshots, tickers, users\<close>

record Trade =
  tID :: string
  tStockCode :: string
  tBuyOrderID :: string
  tSellOrderID :: string
  tPrice :: int64
  tQuantity :: int64
  tBuyerUserID :: string
  tSellerUserID :: string
  tExecutedAt :: time

record TradeFilter =
  tfStockCode :: string
  tfUserID :: string
  tfPage :: int64
  tfPerPage :: int64

record PriceLevel =
  plPrice :: int64
  plQuantity :: int64
  plCount :: int64

record OrderBook =
  obStockCode :: string
  obBids :: "PriceLevel list"
  obAsks :: "PriceLevel list"
  obUpdatedAt :: time

definition BestBid :: "OrderBook \<Rightarrow> PriceLevel option" where
  "BestBid ob = (if length (obBids ob) = 0 then None else Some (obBids ob ! 0))"

definition BestAsk :: "OrderBook \<Rightarrow> PriceLevel option" where
  "BestAsk ob = (if length (obAsks ob) = 0 then None else Some (obAsks ob ! 0))"

record Ticker =
  tkStockCode :: string
  tkLastPrice :: int64
  tkPrevClose :: int64
  tkChange :: int64
  tkChangePct :: float64
  tkHigh :: int64
  tkLow :: int64
  tkVolume :: int64
  tkUpdatedAt :: time

definition UpdateFromTrade :: "time \<Rightarrow> Ticker \<Rightarrow> int64 \<Rightarrow> int64 \<Rightarrow> Ticker" where
  "UpdateFromTrade now t price qty =
     (let t = t\<lparr>tkLastPrice := price, tkVolume := add64 (tkVolume t) qty\<rparr>;
          t = (if tkHigh t < price then t\<lparr>tkHigh := price\<rparr> else t);
          t = (if price < tkLow t \<or> tkLow t = 0 then t\<lparr>tkLow := price\<rparr> else t);
          t = (if 0 < tkPrevClose t
               then let ch = sub64 (tkLastPrice t) (tkPrevClose t)
                    in t\<lparr>tkChange := ch,
                         tkChangePct := fmul (fdiv (float_of_int64 ch)
                                                   (float_of_int64 (tkPrevClose t))) 100\<rparr>
               else t)
      in t\<lparr>tkUpdatedAt := now\<rparr>)"

record User =
  uID :: string
  uUsername :: string
  uPasswordHash :: string
  uCreatedAt :: time

section \<open>The stock registry\<close>

record Stock =
  sCode :: string
  sName :: string
  sBasePrice :: int64
  sTickSize :: int64

definition defaultStocks :: "Stock list" where
  "defaultStocks =
     [\<lparr>sCode = ''BBCA'', sName = ''Bank BCA'', sBasePrice = 9500, sTickSize = 25\<rparr>,
      \<lparr>sCode = ''BBRI'', sName = ''Bank BRI'', sBasePrice = 5000, sTickSize = 25\<rparr>,
      \<lparr>sCode = ''TLKM'', sName = ''Telkom Indonesia'', sBasePrice = 3500, sTickSize = 25\<rparr>,
      \<lparr>sCode = ''ASII'', sName = ''Astra International'', sBasePrice = 6000, sTickSize = 25\<rparr>,
      \<lparr>sCode = ''GOTO'', sName = ''GoTo Group'', sBasePrice = 100, sTickSize = 1\<rparr>]"

definition binanceStocks :: "Stock list" where
  "binanceStocks =
     [\<lparr>sCode = ''BTCUSDT'', sName = ''Bitcoin / USDT'', sBasePrice = 60000, sTickSize = 1\<rparr>,
      \<lparr>sCode = ''ETHUSDT'', sName = ''Ethereum / USDT'', sBasePrice = 3000, sTickSize = 1\<rparr>,
      \<lparr>sCode = ''BNBUSDT'', sName = ''Binance Coin / USDT'', sBasePrice = 600, sTickSize = 1\<rparr>,
      \<lparr>sCode = ''SOLUSDT'', sName = ''Solana / USDT'', sBasePrice = 150, sTickSize = 1\<rparr>,
      \<lparr>sCode = ''ADAUSDT'', sName = ''Cardano / USDT'', sBasePrice = 1, sTickSize = 1\<rparr>]"

definition DefaultStocks :: "Stock list" where
  "DefaultStocks = defaultStocks"

definition BinanceStocks :: "Stock list" where
  "BinanceStocks = binanceStocks"

definition AllStocks :: "Stock list" where
  "AllStocks = defaultStocks @ binanceStocks"

text \<open>The map that \<open>init\<close> builds: one assignment per stock, in the order of the two slices.\<close>

definition stockIndex :: "string \<rightharpoonup> Stock" where
  "stockIndex =
     fold (\<lambda>s m. m(sCode s \<mapsto> s)) binanceStocks
       (fold (\<lambda>s m. m(sCode s \<mapsto> s)) defaultStocks Map.empty)"

definition FindStock :: "string \<Rightarrow> Stock option" where
  "FindStock code = stockIndex code"

definition IsValidStockCode :: "string \<Rightarrow> bool" where
  "IsValidStockCode code \<longleftrightarrow> stockIndex code \<noteq> None"

definition RoundToTick :: "int64 \<Rightarrow> int64 \<Rightarrow> int64" where
  "RoundToTick price tickSize =
     (if tickSize \<le> 0 then price else mul64 (quot64 price tickSize) tickSize)"

section \<open>Errors and events\<close>

datatype repo_error = ErrNotFound | ErrDuplicate | ErrOther string

datatype event_type = OrderCreated | OrderUpdated | TradeExecuted | TickerUpdated | OrderBookUpdated

text \<open>
  An event carries a pointer. Trades, tickers and snapshots are never written again after they
  are published, so their pointer is the value; an order pointer is shared with the matching
  engine and is kept as an address of the order heap, so that a late reader sees later fills.
\<close>

datatype payload = POrder addr | PTrade Trade | PTicker Ticker | PBook OrderBook

record Event =
  evType :: event_type
  evStockCode :: string
  evUserID :: string
  evPayload :: payload
  evTimestamp :: time

section \<open>Laws of the entities\<close>

lemma side_neq [simp]: "SideBuy \<noteq> SideSell" "SideSell \<noteq> SideBuy"
  by (simp_all add: SideBuy_def SideSell_def)

lemma status_neq [simp]:
  "OrderStatusOpen \<noteq> OrderStatusPartial" "OrderStatusOpen \<noteq> OrderStatusFilled"
  "OrderStatusPartial \<noteq> OrderStatusFilled" "OrderStatusPartial \<noteq> OrderStatusOpen"
  "OrderStatusFilled \<noteq> OrderStatusOpen" "OrderStatusFilled \<noteq> OrderStatusPartial"
  by (simp_all add: OrderStatusOpen_def OrderStatusPartial_def OrderStatusFilled_def)

text \<open>The fields of an order that no operation of the engine writes.\<close>

definition same_identity :: "Order \<Rightarrow> Order \<Rightarrow> bool" where
  "same_identity a b \<longleftrightarrow>
     oID a = oID b \<and> oUserID a = oUserID b \<and> oStockCode a = oStockCode b \<and> oSide a = oSide b \<and>
     oPrice a = oPrice b \<and> oQuantity a = oQuantity b \<and> oCreatedAt a = oCreatedAt b"

lemma same_identity_refl [simp]: "same_identity a a"
  by (simp add: same_identity_def)

lemma same_identity_trans: "same_identity a b \<Longrightarrow> same_identity b c \<Longrightarrow> same_identity a c"
  by (simp add: same_identity_def)

lemma Fill_identity [simp]: "same_identity o1 (Fill now o1 qty)"
  by (simp add: Fill_def Let_def same_identity_def)

lemma Fill_fields [simp]:
  "oID (Fill now o1 qty) = oID o1" "oPrice (Fill now o1 qty) = oPrice o1"
  "oSide (Fill now o1 qty) = oSide o1" "oQuantity (Fill now o1 qty) = oQuantity o1"
  "oUserID (Fill now o1 qty) = oUserID o1" "oStockCode (Fill now o1 qty) = oStockCode o1"
  "oCreatedAt (Fill now o1 qty) = oCreatedAt o1"
  by (simp_all add: Fill_def Let_def)

text \<open>
  A well-formed order: quantities in range, the fill between nothing and everything, and the
  status that \<open>Fill\<close> would have set.
\<close>

definition order_wf :: "Order \<Rightarrow> bool" where
  "order_wf o1 \<longleftrightarrow>
     0 < oQuantity o1 \<and> in64 (oQuantity o1) \<and> in64 (oPrice o1) \<and>
     0 \<le> oFilledQuantity o1 \<and> oFilledQuantity o1 \<le> oQuantity o1 \<and>
     oStatus o1 = (if oFilledQuantity o1 = 0 then OrderStatusOpen
                   else if oFilledQuantity o1 < oQuantity o1 then OrderStatusPartial
                   else OrderStatusFilled)"

lemma RemainingQuantity_wf [go_arith]:
  "order_wf o1 \<Longrightarrow> RemainingQuantity o1 = oQuantity o1 - oFilledQuantity o1"
  by (simp add: order_wf_def RemainingQuantity_def sub64_id in64_def)

lemma order_wf_active: "order_wf o1 \<Longrightarrow> IsActive o1 \<longleftrightarrow> 0 < RemainingQuantity o1"
  by (auto simp: RemainingQuantity_wf order_wf_def IsActive_def split: if_splits)

lemma Fill_wf:
  assumes "order_wf o1" and "0 < qty" and "qty \<le> RemainingQuantity o1"
  shows "order_wf (Fill now o1 qty)"
    and "oFilledQuantity (Fill now o1 qty) = oFilledQuantity o1 + qty"
    and "RemainingQuantity (Fill now o1 qty) = RemainingQuantity o1 - qty"
proof -
  have le: "oFilledQuantity o1 + qty \<le> oQuantity o1"
    using assms(1,3) by (simp add: RemainingQuantity_wf)
  have "0 \<le> oFilledQuantity o1" and q64: "in64 (oQuantity o1)"
    using assms(1) by (simp_all add: order_wf_def)
  then have "in64 (oFilledQuantity o1 + qty)"
    using assms(2) le by (intro in64_nonneg [OF _ le q64]) simp
  then have eq: "add64 (oFilledQuantity o1) qty = oFilledQuantity o1 + qty"
    by (rule add64_id)
  show wf: "order_wf (Fill now o1 qty)"
    using assms(1,2) le eq by (auto simp: order_wf_def Fill_def Let_def)
  show fq: "oFilledQuantity (Fill now o1 qty) = oFilledQuantity o1 + qty"
    using eq by (simp add: Fill_def Let_def)
  show "RemainingQuantity (Fill now o1 qty) = RemainingQuantity o1 - qty"
    using wf fq assms(1) by (simp add: RemainingQuantity_wf)
qed

end
