(* ===== verification/Engine_Book.thy ===== *)
theory Engine_Book
  imports Entities
begin

text \<open>
  The per-stock order book of src/internal/engine/orderbook.go. Its entries point to orders
  that live in a heap shared with the services and with published events; \<open>heap\<close> gives the
  order at each address, and the operations that read an order through its pointer take it as
  an argument.
\<close>

type_synonym order_heap = "addr \<Rightarrow> Order"

record orderEntry =
  eOrder :: addr
  eRemaining :: int64

record orderBook =
  bookStockCode :: string
  bids :: "orderEntry list"
  asks :: "orderEntry list"
  index :: "string set"

definition newOrderBook :: "string \<Rightarrow> orderBook" where
  "newOrderBook stockCode = \<lparr>bookStockCode = stockCode, bids = [], asks = [], index = {}\<rparr>"

definition entry_price :: "order_heap \<Rightarrow> orderEntry \<Rightarrow> int64" where
  "entry_price h e = oPrice (h (eOrder e))"

definition entry_id :: "order_heap \<Rightarrow> orderEntry \<Rightarrow> string" where
  "entry_id h e = oID (h (eOrder e))"

definition addOrder :: "order_heap \<Rightarrow> orderBook \<Rightarrow> addr \<Rightarrow> orderBook" where
  "addOrder h ob a =
     (if oID (h a) \<in> index ob then ob
      else let ob = ob\<lparr>index := insert (oID (h a)) (index ob)\<rparr>;
               entry = \<lparr>eOrder = a, eRemaining = RemainingQuantity (h a)\<rparr>
           in if oSide (h a) = SideBuy then
                ob\<lparr>bids := SliceStable (\<lambda>x y. entry_price h x > entry_price h y) (bids ob @ [entry])\<rparr>
              else if oSide (h a) = SideSell then
                ob\<lparr>asks := SliceStable (\<lambda>x y. entry_price h x < entry_price h y) (asks ob @ [entry])\<rparr>
              else ob)"

fun removeEntry :: "order_heap \<Rightarrow> orderEntry list \<Rightarrow> string \<Rightarrow> orderEntry list" where
  "removeEntry h [] i = []"
| "removeEntry h (e # es) i = (if entry_id h e = i then es else e # removeEntry h es i)"

definition removeOrder :: "order_heap \<Rightarrow> orderBook \<Rightarrow> string \<Rightarrow> orderBook" where
  "removeOrder h ob orderID =
     ob\<lparr>index := index ob - {orderID},
        bids := removeEntry h (bids ob) orderID,
        asks := removeEntry h (asks ob) orderID\<rparr>"

definition bestBid :: "orderBook \<Rightarrow> orderEntry option" where
  "bestBid ob = (if length (bids ob) = 0 then None else Some (bids ob ! 0))"

definition bestAsk :: "orderBook \<Rightarrow> orderEntry option" where
  "bestAsk ob = (if length (asks ob) = 0 then None else Some (asks ob ! 0))"

text \<open>The loop of \<open>aggregateLevels\<close>: the levels built so far are the last argument.\<close>

fun aggregate_loop ::
  "order_heap \<Rightarrow> int64 \<Rightarrow> orderEntry list \<Rightarrow> PriceLevel list \<Rightarrow> PriceLevel list" where
  "aggregate_loop h maxLevels [] levels = levels"
| "aggregate_loop h maxLevels (e # es) levels =
     (if eRemaining e \<le> 0 then aggregate_loop h maxLevels es levels
      else if 0 < length levels \<and> plPrice (last levels) = entry_price h e then
        aggregate_loop h maxLevels es
          (butlast levels @
           [(last levels)\<lparr>plQuantity := add64 (plQuantity (last levels)) (eRemaining e),
                          plCount := add64 (plCount (last levels)) 1\<rparr>])
      else if 0 < maxLevels \<and> maxLevels \<le> int (length levels) then levels
      else aggregate_loop h maxLevels es
             (levels @ [\<lparr>plPrice = entry_price h e, plQuantity = eRemaining e, plCount = 1\<rparr>]))"

definition aggregateLevels :: "order_heap \<Rightarrow> orderEntry list \<Rightarrow> int64 \<Rightarrow> PriceLevel list" where
  "aggregateLevels h entries maxLevels = aggregate_loop h maxLevels entries []"

text \<open>\<open>getDepth\<close> leaves the time stamp of the snapshot at Go's zero time.\<close>

definition getDepth :: "order_heap \<Rightarrow> orderBook \<Rightarrow> int64 \<Rightarrow> OrderBook" where
  "getDepth h ob levels =
     \<lparr>obStockCode = bookStockCode ob,
      obBids = aggregateLevels h (bids ob) levels,
      obAsks = aggregateLevels h (asks ob) levels,
      obUpdatedAt = 0\<rparr>"

section \<open>The book's invariant\<close>

text \<open>
  Structural well-formedness: both sides sorted best price first, every entry on the side its
  order names, with something left to match, and the index the set of the identifiers of the
  resting orders, each of them once.
\<close>

definition book_entries :: "orderBook \<Rightarrow> orderEntry list" where
  "book_entries ob = bids ob @ asks ob"

definition book_wf :: "order_heap \<Rightarrow> orderBook \<Rightarrow> bool" where
  "book_wf h ob \<longleftrightarrow>
     sorted (map (\<lambda>e. - entry_price h e) (bids ob)) \<and>
     sorted (map (entry_price h) (asks ob)) \<and>
     distinct (map (entry_id h) (book_entries ob)) \<and>
     index ob = entry_id h ` set (book_entries ob) \<and>
     (\<forall>e\<in>set (bids ob). oSide (h (eOrder e)) = SideBuy) \<and>
     (\<forall>e\<in>set (asks ob). oSide (h (eOrder e)) = SideSell) \<and>
     (\<forall>e\<in>set (book_entries ob). 0 < eRemaining e \<and> in64 (eRemaining e))"

text \<open>No bid meets an ask: whatever could trade has traded.\<close>

definition uncrossed :: "order_heap \<Rightarrow> orderBook \<Rightarrow> bool" where
  "uncrossed h ob \<longleftrightarrow>
     (\<forall>b\<in>set (bids ob). \<forall>a\<in>set (asks ob). entry_price h b < entry_price h a)"

text \<open>
  How the remaining quantity of an entry relates to what its order has left: \<open>book_exact\<close> is
  equality; \<open>book_backed\<close> only says that the book never offers more than the order has.
\<close>

definition book_rel :: "(int \<Rightarrow> int \<Rightarrow> bool) \<Rightarrow> order_heap \<Rightarrow> orderBook \<Rightarrow> bool" where
  "book_rel R h ob \<longleftrightarrow>
     (\<forall>e\<in>set (book_entries ob). order_wf (h (eOrder e)) \<and>
        R (eRemaining e) (RemainingQuantity (h (eOrder e))))"

definition book_exact :: "order_heap \<Rightarrow> orderBook \<Rightarrow> bool" where
  "book_exact h ob \<longleftrightarrow> book_rel (=) h ob"

definition book_backed :: "order_heap \<Rightarrow> orderBook \<Rightarrow> bool" where
  "book_backed h ob \<longleftrightarrow> book_rel (\<le>) h ob"

section \<open>Selectors\<close>

lemma bestAsk_Cons [book_simps]: "asks ob = e # es \<Longrightarrow> bestAsk ob = Some e"
  by (simp add: bestAsk_def)

lemma bestAsk_None [book_simps]: "bestAsk ob = None \<longleftrightarrow> asks ob = []"
  by (simp add: bestAsk_def)

lemma bestAsk_Some: "bestAsk ob = Some e \<longleftrightarrow> (\<exists>es. asks ob = e # es)"
  by (cases "asks ob") (auto simp: bestAsk_def)

lemma bestBid_Cons [book_simps]: "bids ob = e # es \<Longrightarrow> bestBid ob = Some e"
  by (simp add: bestBid_def)

lemma bestBid_None [book_simps]: "bestBid ob = None \<longleftrightarrow> bids ob = []"
  by (simp add: bestBid_def)

lemma bestBid_Some: "bestBid ob = Some e \<longleftrightarrow> (\<exists>es. bids ob = e # es)"
  by (cases "bids ob") (auto simp: bestBid_def)

lemma removeEntry_notin: "i \<notin> entry_id h ` set es \<Longrightarrow> removeEntry h es i = es"
  by (induction es) auto

lemma removeEntry_filter:
  "distinct (map (entry_id h) es) \<Longrightarrow> removeEntry h es i = filter (\<lambda>e. entry_id h e \<noteq> i) es"
proof (induction es)
  case Nil
  then show ?case by simp
next
  case (Cons e es)
  then show ?case
    by (auto simp: image_iff intro!: filter_True [symmetric])
qed

text \<open>Only the identities of the orders matter to the structure of the book.\<close>

definition heap_frame :: "order_heap \<Rightarrow> order_heap \<Rightarrow> bool" where
  "heap_frame h h' \<longleftrightarrow> (\<forall>a. same_identity (h a) (h' a))"

lemma heap_frame_refl [simp]: "heap_frame h h"
  by (simp add: heap_frame_def)

lemma heap_frame_trans: "heap_frame h h1 \<Longrightarrow> heap_frame h1 h2 \<Longrightarrow> heap_frame h h2"
  unfolding heap_frame_def by (blast intro: same_identity_trans)

lemma heap_frame_upd: "same_identity (h a) o1 \<Longrightarrow> heap_frame h (h(a := o1))"
  by (simp add: heap_frame_def)

lemma heap_frame_entries:
  assumes "heap_frame h h'"
  shows "entry_price h' = entry_price h" and "entry_id h' = entry_id h"
    and "oSide (h' a) = oSide (h a)" and "oPrice (h' a) = oPrice (h a)" and "oID (h' a) = oID (h a)"
    and "oQuantity (h' a) = oQuantity (h a)" and "oUserID (h' a) = oUserID (h a)"
    and "oStockCode (h' a) = oStockCode (h a)"
  using assms by (auto simp: heap_frame_def same_identity_def entry_price_def entry_id_def)

lemma heap_frame_removeEntry:
  "heap_frame h h' \<Longrightarrow> removeEntry h' es i = removeEntry h es i"
  by (induction es) (simp_all add: heap_frame_entries)

lemma heap_frame_removeOrder:
  "heap_frame h h' \<Longrightarrow> removeOrder h' ob i = removeOrder h ob i"
  by (simp add: removeOrder_def heap_frame_removeEntry)

lemma book_wf_frame: "heap_frame h h' \<Longrightarrow> book_wf h' ob = book_wf h ob"
  unfolding book_wf_def by (simp add: heap_frame_entries)

lemma uncrossed_frame: "heap_frame h h' \<Longrightarrow> uncrossed h' ob = uncrossed h ob"
  unfolding uncrossed_def by (simp add: heap_frame_entries)

section \<open>Adding and removing orders keeps the invariant\<close>

lemma newOrderBook_wf: "book_wf h (newOrderBook s)"
  by (simp add: book_wf_def newOrderBook_def book_entries_def)

lemma sorted_insert_middle:
  fixes f :: "'a \<Rightarrow> int"
  assumes "sorted (map f xs)"
  shows "sorted (map f (takeWhile (\<lambda>x. f x \<le> f e) xs @ e # dropWhile (\<lambda>x. f x \<le> f e) xs))"
proof -
  have "takeWhile (\<lambda>x. f x \<le> f e) xs @ e # dropWhile (\<lambda>x. f x \<le> f e) xs = sort_key f (xs @ [e])"
    using SliceStable_snoc [OF assms, of e] by (simp add: SliceStable_sort_key)
  then show ?thesis by simp
qed

lemma mset_takeWhile_dropWhile [simp]: "mset (takeWhile P xs) + mset (dropWhile P xs) = mset xs"
  by (metis mset_append takeWhile_dropWhile_id)

lemma distinct_map_mset: "mset xs = mset ys \<Longrightarrow> distinct (map g xs) = distinct (map g ys)"
  by (metis mset_eq_imp_distinct_iff mset_map)

text \<open>Where a new order goes: behind everything at its own price or better.\<close>

lemma addOrder_buy:
  assumes "sorted (map (\<lambda>e. - entry_price h e) (bids ob))"
    and "oID (h a) \<notin> index ob" and "oSide (h a) = SideBuy"
  shows "addOrder h ob a =
    ob\<lparr>index := insert (oID (h a)) (index ob),
       bids := takeWhile (\<lambda>e. entry_price h e \<ge> oPrice (h a)) (bids ob) @
               \<lparr>eOrder = a, eRemaining = RemainingQuantity (h a)\<rparr> #
               dropWhile (\<lambda>e. entry_price h e \<ge> oPrice (h a)) (bids ob)\<rparr>"
  using assms SliceStable_snoc [OF assms(1), of "\<lparr>eOrder = a, eRemaining = RemainingQuantity (h a)\<rparr>"]
  by (simp add: addOrder_def Let_def entry_price_def)

lemma addOrder_sell:
  assumes "sorted (map (entry_price h) (asks ob))"
    and "oID (h a) \<notin> index ob" and "oSide (h a) = SideSell"
  shows "addOrder h ob a =
    ob\<lparr>index := insert (oID (h a)) (index ob),
       asks := takeWhile (\<lambda>e. entry_price h e \<le> oPrice (h a)) (asks ob) @
               \<lparr>eOrder = a, eRemaining = RemainingQuantity (h a)\<rparr> #
               dropWhile (\<lambda>e. entry_price h e \<le> oPrice (h a)) (asks ob)\<rparr>"
  using assms SliceStable_snoc [OF assms(1), of "\<lparr>eOrder = a, eRemaining = RemainingQuantity (h a)\<rparr>"]
  by (simp add: addOrder_def Let_def entry_price_def)

lemma addOrder_duplicate: "oID (h a) \<in> index ob \<Longrightarrow> addOrder h ob a = ob"
  by (simp add: addOrder_def)

lemma book_wf_insert:
  assumes wf: "book_wf h ob" and new: "entry_id h e \<notin> index ob"
    and ms: "mset (bs @ as) = mset (e # book_entries ob)"
    and srt: "sorted (map (\<lambda>e. - entry_price h e) bs)" "sorted (map (entry_price h) as)"
    and side: "\<forall>e\<in>set bs. oSide (h (eOrder e)) = SideBuy" "\<forall>e\<in>set as. oSide (h (eOrder e)) = SideSell"
    and rem: "0 < eRemaining e" "in64 (eRemaining e)"
  shows "book_wf h (ob\<lparr>index := insert (entry_id h e) (index ob), bids := bs, asks := as\<rparr>)"
proof -
  have st: "set bs \<union> set as = insert e (set (book_entries ob))"
    using ms by (metis set_append set_mset_mset list.simps(15))
  have "distinct (map (entry_id h) (e # book_entries ob))"
    using wf new by (auto simp: book_wf_def)
  then have "distinct (map (entry_id h) (bs @ as))"
    using distinct_map_mset [OF ms] by blast
  then show ?thesis
    using wf srt side rem st by (simp add: book_wf_def book_entries_def)
qed

lemma in64_RemainingQuantity [simp]: "in64 (RemainingQuantity o1)"
  by (simp add: RemainingQuantity_def sub64_def wrap64_in64)

lemma addOrder_wf:
  assumes wf: "book_wf h ob" and new: "oID (h a) \<notin> index ob" and side: "Side_IsValid (oSide (h a))"
    and pos: "0 < RemainingQuantity (h a)"
  shows "book_wf h (addOrder h ob a)"
proof -
  let ?e = "\<lparr>eOrder = a, eRemaining = RemainingQuantity (h a)\<rparr>"
  have srt: "sorted (map (\<lambda>e. - entry_price h e) (bids ob))" "sorted (map (entry_price h) (asks ob))"
    and sides: "\<forall>e\<in>set (bids ob). oSide (h (eOrder e)) = SideBuy"
      "\<forall>e\<in>set (asks ob). oSide (h (eOrder e)) = SideSell"
    using wf by (simp_all add: book_wf_def)
  have e: "entry_id h ?e = oID (h a)" "entry_price h ?e = oPrice (h a)"
    by (simp_all add: entry_id_def entry_price_def)
  have new': "entry_id h ?e \<notin> index ob" using new by (simp add: e)
  consider "oSide (h a) = SideBuy" | "oSide (h a) = SideSell"
    using side by (auto simp: Side_IsValid_def)
  then show ?thesis
  proof cases
    case 1
    let ?P = "\<lambda>e. entry_price h e \<ge> oPrice (h a)"
    let ?bs = "takeWhile ?P (bids ob) @ ?e # dropWhile ?P (bids ob)"
    have "book_wf h (ob\<lparr>index := insert (entry_id h ?e) (index ob), bids := ?bs, asks := asks ob\<rparr>)"
      using sorted_insert_middle [OF srt(1), of ?e] 1 pos sides
      by (intro book_wf_insert [OF wf new']) (auto simp: e srt(2) book_entries_def
            dest: set_takeWhileD set_dropWhileD)
    then show ?thesis by (simp add: addOrder_buy [OF srt(1) new 1] e)
  next
    case 2
    let ?P = "\<lambda>e. entry_price h e \<le> oPrice (h a)"
    let ?as = "takeWhile ?P (asks ob) @ ?e # dropWhile ?P (asks ob)"
    have "book_wf h (ob\<lparr>index := insert (entry_id h ?e) (index ob), bids := bids ob, asks := ?as\<rparr>)"
      using sorted_insert_middle [OF srt(2), of ?e] 2 pos sides
      by (intro book_wf_insert [OF wf new']) (auto simp: e srt(1) book_entries_def
            dest: set_takeWhileD set_dropWhileD)
    then show ?thesis by (simp add: addOrder_sell [OF srt(2) new 2] e)
  qed
qed

section \<open>Consuming the best entry of a side\<close>

lemma book_wf_asks_shrink:
  assumes "book_wf h ob" and "asks ob = e # es" and "0 < r" and "in64 r"
  shows "book_wf h (ob\<lparr>asks := e\<lparr>eRemaining := r\<rparr> # es\<rparr>)"
  using assms by (auto simp: book_wf_def book_entries_def entry_price_def entry_id_def)

lemma book_wf_bids_shrink:
  assumes "book_wf h ob" and "bids ob = e # es" and "0 < r" and "in64 r"
  shows "book_wf h (ob\<lparr>bids := e\<lparr>eRemaining := r\<rparr> # es\<rparr>)"
  using assms by (auto simp: book_wf_def book_entries_def entry_price_def entry_id_def)

lemma removeOrder_best_ask:
  assumes "book_wf h ob" and "asks ob = e # es"
  shows "removeOrder h (ob\<lparr>asks := e\<lparr>eRemaining := r\<rparr> # es\<rparr>) (entry_id h e) =
      ob\<lparr>index := index ob - {entry_id h e}, asks := es\<rparr>"
    and "book_wf h (ob\<lparr>index := index ob - {entry_id h e}, asks := es\<rparr>)"
proof -
  have "entry_id h e \<notin> entry_id h ` set (bids ob)"
    using assms by (auto simp: book_wf_def book_entries_def)
  then show "removeOrder h (ob\<lparr>asks := e\<lparr>eRemaining := r\<rparr> # es\<rparr>) (entry_id h e) =
      ob\<lparr>index := index ob - {entry_id h e}, asks := es\<rparr>"
    by (simp add: removeOrder_def removeEntry_notin entry_id_def)
  have "entry_id h e \<notin> entry_id h ` (set (book_entries (ob\<lparr>asks := es\<rparr>)))"
    using assms by (auto simp: book_wf_def book_entries_def)
  then have "index ob - {entry_id h e} = entry_id h ` set (book_entries (ob\<lparr>asks := es\<rparr>))"
    using assms by (simp add: book_wf_def book_entries_def insert_Diff_if)
  then show "book_wf h (ob\<lparr>index := index ob - {entry_id h e}, asks := es\<rparr>)"
    using assms by (simp add: book_wf_def book_entries_def)
qed

lemma removeOrder_best_bid:
  assumes "book_wf h ob" and "bids ob = e # es"
  shows "removeOrder h (ob\<lparr>bids := e\<lparr>eRemaining := r\<rparr> # es\<rparr>) (entry_id h e) =
      ob\<lparr>index := index ob - {entry_id h e}, bids := es\<rparr>"
    and "book_wf h (ob\<lparr>index := index ob - {entry_id h e}, bids := es\<rparr>)"
proof -
  have "entry_id h e \<notin> entry_id h ` set (asks ob)"
    using assms by (auto simp: book_wf_def book_entries_def)
  then show "removeOrder h (ob\<lparr>bids := e\<lparr>eRemaining := r\<rparr> # es\<rparr>) (entry_id h e) =
      ob\<lparr>index := index ob - {entry_id h e}, bids := es\<rparr>"
    by (simp add: removeOrder_def removeEntry_notin entry_id_def)
  have "entry_id h e \<notin> entry_id h ` (set (book_entries (ob\<lparr>bids := es\<rparr>)))"
    using assms by (auto simp: book_wf_def book_entries_def)
  then have "index ob - {entry_id h e} = entry_id h ` set (book_entries (ob\<lparr>bids := es\<rparr>))"
    using assms by (simp add: book_wf_def book_entries_def insert_Diff_if)
  then show "book_wf h (ob\<lparr>index := index ob - {entry_id h e}, bids := es\<rparr>)"
    using assms by (simp add: book_wf_def book_entries_def)
qed

end
