(* ===== verification/Engine_Matcher.thy ===== *)
theory Engine_Matcher
  imports Engine_Book
begin

text \<open>
  The matching of one order (src/internal/engine/matcher.go). A matcher reaches the rest of the
  system through interfaces: the trade, order and market repositories, the event bus, the clock
  and the UUID generator. A Go interface value is modelled by a record of functions over an
  abstract world \<open>'w\<close>; theorems that quantify over the record hold for every implementation,
  failing ones included, and whatever other goroutines do to the world between two calls.
\<close>

record 'w deps =
  NewString :: "'w \<Rightarrow> string \<times> 'w"
  Now :: "'w \<Rightarrow> time \<times> 'w"
  tradeRepoSave :: "'w \<Rightarrow> Trade \<Rightarrow> repo_error option \<times> 'w"
  orderRepoUpdate :: "'w \<Rightarrow> Order \<Rightarrow> repo_error option \<times> 'w"
  marketUpdateTickerFromTrade :: "'w \<Rightarrow> string \<Rightarrow> int64 \<Rightarrow> int64 \<Rightarrow> (repo_error + Ticker) \<times> 'w"
  marketUpdateOrderBook :: "'w \<Rightarrow> OrderBook \<Rightarrow> repo_error option \<times> 'w"
  busPublish :: "'w \<Rightarrow> Event \<Rightarrow> 'w"

text \<open>What one matcher goroutine works on: its book, the order heap and the world.\<close>

record 'w mstate =
  stockCode :: string
  book :: orderBook
  heap :: order_heap
  world :: 'w

definition depthLevels :: int64 where "depthLevels = 10"

definition min64 :: "int64 \<Rightarrow> int64 \<Rightarrow> int64" where
  "min64 a b = (if a < b then a else b)"

definition updateTicker :: "'w deps \<Rightarrow> 'w mstate \<Rightarrow> int64 \<Rightarrow> int64 \<Rightarrow> 'w mstate" where
  "updateTicker d m price qty =
     (case marketUpdateTickerFromTrade d (world m) (stockCode m) price qty of
        (Inl err, w) \<Rightarrow> m\<lparr>world := w\<rparr>
      | (Inr ticker, w) \<Rightarrow>
          m\<lparr>world := busPublish d w
               \<lparr>evType = TickerUpdated, evStockCode = stockCode m, evUserID = [],
                evPayload = PTicker ticker, evTimestamp = tkUpdatedAt ticker\<rparr>\<rparr>)"

text \<open>
  \<open>executeTrade\<close>: an error of \<open>tradeRepo.Save\<close> returns before any order is filled; errors of
  \<open>orderRepo.Update\<close> are only logged. \<open>Fill\<close> reads the clock once for each order.
\<close>

definition executeTrade :: "'w deps \<Rightarrow> 'w mstate \<Rightarrow> addr \<Rightarrow> addr \<Rightarrow> int64 \<Rightarrow> int64 \<Rightarrow> 'w mstate" where
  "executeTrade d m buy sell qty price =
     (let (uid, w) = NewString d (world m);
          (t, w) = Now d w;
          trade = \<lparr>tID = uid, tStockCode = stockCode m,
                   tBuyOrderID = oID (heap m buy), tSellOrderID = oID (heap m sell),
                   tPrice = price, tQuantity = qty,
                   tBuyerUserID = oUserID (heap m buy), tSellerUserID = oUserID (heap m sell),
                   tExecutedAt = t\<rparr>;
          (err, w) = tradeRepoSave d w trade
      in case err of
           Some _ \<Rightarrow> m\<lparr>world := w\<rparr>
         | None \<Rightarrow>
             (let (t1, w) = Now d w;
                  h = (heap m)(buy := Fill t1 (heap m buy) qty);
                  (t2, w) = Now d w;
                  h = h(sell := Fill t2 (h sell) qty);
                  (err1, w) = orderRepoUpdate d w (h buy);
                  (err2, w) = orderRepoUpdate d w (h sell);
                  m = updateTicker d (m\<lparr>heap := h, world := w\<rparr>) price qty;
                  w = busPublish d (world m)
                        \<lparr>evType = TradeExecuted, evStockCode = stockCode m, evUserID = [],
                         evPayload = PTrade trade, evTimestamp = tExecutedAt trade\<rparr>;
                  w = busPublish d w
                        \<lparr>evType = OrderUpdated, evStockCode = stockCode m,
                         evUserID = oUserID (heap m buy),
                         evPayload = POrder buy, evTimestamp = tExecutedAt trade\<rparr>;
                  w = busPublish d w
                        \<lparr>evType = OrderUpdated, evStockCode = stockCode m,
                         evUserID = oUserID (heap m sell),
                         evPayload = POrder sell, evTimestamp = tExecutedAt trade\<rparr>
              in m\<lparr>world := w\<rparr>))"

text \<open>
  One iteration of the loops of \<open>matchBuy\<close> and \<open>matchSell\<close>, after their break conditions. The
  entry \<open>best\<close> is the first of its side; writing its \<open>remaining\<close> field through the pointer
  replaces the head of the slice.
\<close>

definition matchBuy_iteration :: "'w deps \<Rightarrow> 'w mstate \<Rightarrow> addr \<Rightarrow> orderEntry \<Rightarrow> 'w mstate" where
  "matchBuy_iteration d m buy best =
     (let qty = min64 (RemainingQuantity (heap m buy)) (eRemaining best);
          tradePrice = entry_price (heap m) best;
          m = executeTrade d m buy (eOrder best) qty tradePrice;
          best = best\<lparr>eRemaining := sub64 (eRemaining best) qty\<rparr>;
          m = m\<lparr>book := (book m)\<lparr>asks := (asks (book m))[0 := best]\<rparr>\<rparr>
      in if eRemaining best \<le> 0
         then m\<lparr>book := removeOrder (heap m) (book m) (entry_id (heap m) best)\<rparr>
         else m)"

definition matchSell_iteration :: "'w deps \<Rightarrow> 'w mstate \<Rightarrow> addr \<Rightarrow> orderEntry \<Rightarrow> 'w mstate" where
  "matchSell_iteration d m sell best =
     (let qty = min64 (RemainingQuantity (heap m sell)) (eRemaining best);
          tradePrice = entry_price (heap m) best;
          m = executeTrade d m (eOrder best) sell qty tradePrice;
          best = best\<lparr>eRemaining := sub64 (eRemaining best) qty\<rparr>;
          m = m\<lparr>book := (book m)\<lparr>bids := (bids (book m))[0 := best]\<rparr>\<rparr>
      in if eRemaining best \<le> 0
         then m\<lparr>book := removeOrder (heap m) (book m) (entry_id (heap m) best)\<rparr>
         else m)"

section \<open>What an executed trade touches\<close>

lemma updateTicker_frame [simp]:
  "stockCode (updateTicker d m p q) = stockCode m" "book (updateTicker d m p q) = book m"
  "heap (updateTicker d m p q) = heap m"
  by (simp_all add: updateTicker_def split: prod.splits sum.splits)

lemma executeTrade_frame [simp]:
  "stockCode (executeTrade d m b s q p) = stockCode m" "book (executeTrade d m b s q p) = book m"
  by (simp_all add: executeTrade_def Let_def split: prod.splits option.splits)

lemma updateTicker_book [simp]:
  "updateTicker d (m\<lparr>book := x, heap := h, world := w\<rparr>) p q =
   (updateTicker d (m\<lparr>heap := h, world := w\<rparr>) p q)\<lparr>book := x\<rparr>"
  by (simp add: updateTicker_def split: prod.split sum.split)

lemma executeTrade_book [simp]:
  "executeTrade d (m\<lparr>book := x\<rparr>) b s q p = (executeTrade d m b s q p)\<lparr>book := x\<rparr>"
  by (simp add: executeTrade_def Let_def split: prod.split option.split)

lemma executeTrade_heap:
  "heap (executeTrade d m b s q p) = heap m \<or>
   (\<exists>t1 t2. heap (executeTrade d m b s q p) =
      (let h = (heap m)(b := Fill t1 (heap m b) q) in h(s := Fill t2 (h s) q)))"
  by (auto simp: executeTrade_def Let_def split: prod.splits option.splits)

lemma executeTrade_heap_frame: "heap_frame (heap m) (heap (executeTrade d m b s q p))"
  using executeTrade_heap [of d m b s q p]
  by (auto simp: Let_def heap_frame_def same_identity_def)

section \<open>The loops\<close>

lemma min64_eq_min: "min64 a b = min a b"
  by (simp add: min64_def min_def)

lemma consume_decreases:
  assumes "0 < rem" and "0 < sub64 r (min64 rem r)"
  shows "nat (sub64 r (min64 rem r)) < nat r"
proof (cases "r \<le> rem")
  case True
  then have "min64 rem r = r" by (simp add: min64_def)
  then show ?thesis using assms(2) by simp
next
  case False
  then have "sub64 r (min64 rem r) \<le> r - rem"
    by (simp add: min64_def sub64_def wrap64_le)
  then show ?thesis using assms False by simp
qed

definition side_size :: "orderEntry list \<Rightarrow> nat \<times> nat" where
  "side_size es = (length es, case es of [] \<Rightarrow> 0 | e # _ \<Rightarrow> nat (eRemaining e))"

lemma matchBuy_iteration_asks:
  "asks (book m) = e # es \<Longrightarrow>
   asks (book (matchBuy_iteration d m b e)) =
     (let r = sub64 (eRemaining e) (min64 (RemainingQuantity (heap m b)) (eRemaining e))
      in if r \<le> 0 then es else e\<lparr>eRemaining := r\<rparr> # es)"
  by (simp add: matchBuy_iteration_def Let_def removeOrder_def entry_id_def)

lemma matchSell_iteration_bids:
  "bids (book m) = e # es \<Longrightarrow>
   bids (book (matchSell_iteration d m s e)) =
     (let r = sub64 (eRemaining e) (min64 (RemainingQuantity (heap m s)) (eRemaining e))
      in if r \<le> 0 then es else e\<lparr>eRemaining := r\<rparr> # es)"
  by (simp add: matchSell_iteration_def Let_def removeOrder_def entry_id_def)

function (sequential) matchBuy :: "'w deps \<Rightarrow> 'w mstate \<Rightarrow> addr \<Rightarrow> 'w mstate" where
  "matchBuy d m buy =
     (case bestAsk (book m) of
        None \<Rightarrow> m
      | Some best \<Rightarrow>
          if entry_price (heap m) best > oPrice (heap m buy) then m
          else if RemainingQuantity (heap m buy) \<le> 0 then m
          else matchBuy d (matchBuy_iteration d m buy best) buy)"
  by pat_completeness auto
termination
proof (relation "inv_image (less_than <*lex*> less_than) (\<lambda>(d, m, b). side_size (asks (book m)))")
  fix d :: "'w deps" and m :: "'w mstate" and b best
  assume best: "bestAsk (book m) = Some best" and rem: "\<not> RemainingQuantity (heap m b) \<le> 0"
  then obtain es where es: "asks (book m) = best # es" by (auto simp: bestAsk_Some)
  show "((d, matchBuy_iteration d m b best, b), d, m, b)
      \<in> inv_image (less_than <*lex*> less_than) (\<lambda>(d, m, b). side_size (asks (book m)))"
    using rem consume_decreases [of "RemainingQuantity (heap m b)" "eRemaining best"]
    by (auto simp: matchBuy_iteration_asks [OF es] es side_size_def Let_def)
qed (simp add: wf_lex_prod)

function (sequential) matchSell :: "'w deps \<Rightarrow> 'w mstate \<Rightarrow> addr \<Rightarrow> 'w mstate" where
  "matchSell d m sell =
     (case bestBid (book m) of
        None \<Rightarrow> m
      | Some best \<Rightarrow>
          if entry_price (heap m) best < oPrice (heap m sell) then m
          else if RemainingQuantity (heap m sell) \<le> 0 then m
          else matchSell d (matchSell_iteration d m sell best) sell)"
  by pat_completeness auto
termination
proof (relation "inv_image (less_than <*lex*> less_than) (\<lambda>(d, m, s). side_size (bids (book m)))")
  fix d :: "'w deps" and m :: "'w mstate" and s best
  assume best: "bestBid (book m) = Some best" and rem: "\<not> RemainingQuantity (heap m s) \<le> 0"
  then obtain es where es: "bids (book m) = best # es" by (auto simp: bestBid_Some)
  show "((d, matchSell_iteration d m s best, s), d, m, s)
      \<in> inv_image (less_than <*lex*> less_than) (\<lambda>(d, m, s). side_size (bids (book m)))"
    using rem consume_decreases [of "RemainingQuantity (heap m s)" "eRemaining best"]
    by (auto simp: matchSell_iteration_bids [OF es] es side_size_def Let_def)
qed (simp add: wf_lex_prod)

declare matchBuy.simps [simp del] matchSell.simps [simp del]

definition publishOrderBook :: "'w deps \<Rightarrow> 'w mstate \<Rightarrow> 'w mstate" where
  "publishOrderBook d m =
     (let snapshot = getDepth (heap m) (book m) depthLevels;
          (t, w) = Now d (world m);
          snapshot = snapshot\<lparr>obUpdatedAt := t\<rparr>;
          (err, w) = marketUpdateOrderBook d w snapshot
      in m\<lparr>world := busPublish d w
             \<lparr>evType = OrderBookUpdated, evStockCode = stockCode m, evUserID = [],
              evPayload = PBook snapshot, evTimestamp = obUpdatedAt snapshot\<rparr>\<rparr>)"

definition matchOrder :: "'w deps \<Rightarrow> 'w mstate \<Rightarrow> addr \<Rightarrow> 'w mstate" where
  "matchOrder d m incoming =
     (let m = (if oSide (heap m incoming) = SideBuy then matchBuy d m incoming
               else if oSide (heap m incoming) = SideSell then matchSell d m incoming
               else m);
          m = (if IsActive (heap m incoming) \<and> RemainingQuantity (heap m incoming) > 0
               then m\<lparr>book := addOrder (heap m) (book m) incoming\<rparr>
               else m)
      in publishOrderBook d m)"

end
