(* ===== verification/Engine_Sides.thy ===== *)
theory Engine_Sides
  imports Engine_Matcher
begin

text \<open>
  \<open>matchBuy\<close> and \<open>matchSell\<close> are the same loop over opposite sides of the book. The locale
  \<open>resting_side\<close> states what the loop relies on (how the side is read and written, when the
  price stops matching, what an executed trade touches); its lemmas are proved once and reach
  both functions through the two interpretations at the end.
\<close>

section \<open>The specification of a match\<close>

text \<open>
  Price-time priority on a side that is already in priority order: serve the entries from the
  front while their price is acceptable and something is left to trade. The result lists the
  entries served with the quantity each one trades, and the side that remains.
\<close>

fun match_spec ::
  "(orderEntry \<Rightarrow> bool) \<Rightarrow> int \<Rightarrow> orderEntry list \<Rightarrow> (orderEntry \<times> int) list \<times> orderEntry list" where
  "match_spec ok q [] = ([], [])"
| "match_spec ok q (e # es) =
     (if q \<le> 0 \<or> \<not> ok e then ([], e # es)
      else if eRemaining e \<le> q then
        (let (fs, rest) = match_spec ok (q - eRemaining e) es in ((e, eRemaining e) # fs, rest))
      else ([(e, q)], e\<lparr>eRemaining := eRemaining e - q\<rparr> # es))"

abbreviation fills :: "(orderEntry \<Rightarrow> bool) \<Rightarrow> int \<Rightarrow> orderEntry list \<Rightarrow> (orderEntry \<times> int) list" where
  "fills ok q es \<equiv> fst (match_spec ok q es)"

abbreviation rest_of :: "(orderEntry \<Rightarrow> bool) \<Rightarrow> int \<Rightarrow> orderEntry list \<Rightarrow> orderEntry list" where
  "rest_of ok q es \<equiv> snd (match_spec ok q es)"

lemma match_spec_done [simp]: "q \<le> 0 \<Longrightarrow> match_spec ok q es = ([], es)"
  by (cases es) auto

lemma fills_prefix: "map fst (fills ok q es) = take (length (fills ok q es)) es"
  by (induction ok q es rule: match_spec.induct) (auto split: prod.splits)

lemma fills_pos:
  "\<forall>e\<in>set es. 0 < eRemaining e \<Longrightarrow> (e, x) \<in> set (fills ok q es) \<Longrightarrow>
   ok e \<and> e \<in> set es \<and> 0 < x \<and> x \<le> eRemaining e"
  by (induction ok q es rule: match_spec.induct) (auto split: prod.splits if_splits)

text \<open>Time priority: an entry is served only when everything before it is served in full.\<close>

lemma fills_butlast_full:
  "(e, x) \<in> set (butlast (fills ok q es)) \<Longrightarrow> x = eRemaining e"
  by (induction ok q es rule: match_spec.induct) (auto split: prod.splits if_splits)

text \<open>The total traded is all that is wanted or all that is acceptable, whichever is less.\<close>

lemma fills_total:
  "0 \<le> q \<Longrightarrow> \<forall>e\<in>set es. 0 < eRemaining e \<Longrightarrow>
   sum_list (map snd (fills ok q es)) = min q (sum_list (map eRemaining (takeWhile ok es)))"
proof (induction ok q es rule: match_spec.induct)
  case (2 ok q e es)
  have nn: "0 \<le> sum_list (map eRemaining (takeWhile ok es))"
    using "2.prems"(2) by (intro sum_list_nonneg) (auto dest!: set_takeWhileD intro: order.strict_implies_order)
  consider "q \<le> 0 \<or> \<not> ok e" | "0 < q" "ok e" "eRemaining e \<le> q" | "0 < q" "ok e" "q < eRemaining e"
    by linarith
  then show ?case
  proof cases
    case 1
    then show ?thesis using "2.prems" nn by auto
  next
    case 2
    then show ?thesis using "2.IH" "2.prems" by (auto split: prod.splits)
  next
    case 3
    then show ?thesis using nn by auto
  qed
qed simp

text \<open>
  What a sequence of fills does to the orders: the incoming one is filled by the total, each
  resting one by what it traded, and no other order changes.
\<close>

definition filled_by :: "order_heap \<Rightarrow> addr \<Rightarrow> (orderEntry \<times> int) list \<Rightarrow> order_heap \<Rightarrow> bool" where
  "filled_by h a fs h' \<longleftrightarrow>
     order_wf (h' a) \<and> oFilledQuantity (h' a) = oFilledQuantity (h a) + sum_list (map snd fs) \<and>
     (\<forall>(e, q)\<in>set fs. order_wf (h' (eOrder e)) \<and>
        oFilledQuantity (h' (eOrder e)) = oFilledQuantity (h (eOrder e)) + q) \<and>
     (\<forall>x. x \<noteq> a \<longrightarrow> x \<notin> (eOrder \<circ> fst) ` set fs \<longrightarrow> h' x = h x)"

text \<open>The identifiers of the entries that are served in full and leave the book.\<close>

definition served :: "order_heap \<Rightarrow> (orderEntry \<times> int) list \<Rightarrow> string set" where
  "served h fs = entry_id h ` {e. (e, eRemaining e) \<in> set fs}"

section \<open>The loop over one side\<close>

locale resting_side =
  fixes entries :: "orderBook \<Rightarrow> orderEntry list"
    and other :: "orderBook \<Rightarrow> orderEntry list"
    and put :: "orderEntry list \<Rightarrow> orderBook \<Rightarrow> orderBook"
    and beyond :: "int64 \<Rightarrow> int64 \<Rightarrow> bool"
    and exec :: "'w mstate \<Rightarrow> addr \<Rightarrow> addr \<Rightarrow> int64 \<Rightarrow> int64 \<Rightarrow> 'w mstate"
    and iteration :: "'w mstate \<Rightarrow> addr \<Rightarrow> orderEntry \<Rightarrow> 'w mstate"
    and loop :: "'w mstate \<Rightarrow> addr \<Rightarrow> 'w mstate"
  assumes loop_eq: "loop m a =
      (case entries (book m) of
         [] \<Rightarrow> m
       | e # es \<Rightarrow>
           if beyond (entry_price (heap m) e) (oPrice (heap m a)) \<or> RemainingQuantity (heap m a) \<le> 0
           then m else loop (iteration m a e) a)"
    and iteration_eq: "entries (book m) = e # es \<Longrightarrow> iteration m a e =
      (let q = min64 (RemainingQuantity (heap m a)) (eRemaining e);
           m1 = exec m a (eOrder e) q (entry_price (heap m) e);
           r = sub64 (eRemaining e) q;
           ob = put (e\<lparr>eRemaining := r\<rparr> # es) (book m)
       in m1\<lparr>book := if r \<le> 0 then removeOrder (heap m) ob (entry_id (heap m) e) else ob\<rparr>)"
    and exec_book: "book (exec m a s q p) = book m"
    and exec_upd_book: "exec (m\<lparr>book := ob\<rparr>) a s q p = (exec m a s q p)\<lparr>book := ob\<rparr>"
    and exec_stock: "stockCode (exec m a s q p) = stockCode m"
    and exec_frame: "heap_frame (heap m) (heap (exec m a s q p))"
    and exec_heap: "a \<noteq> s \<Longrightarrow> heap (exec m a s q p) = heap m \<or>
      (\<exists>t1 t2. heap (exec m a s q p) = (heap m)(a := Fill t1 (heap m a) q, s := Fill t2 (heap m s) q))"
    and entries_put: "entries (put xs ob) = xs"
    and other_put: "other (put xs ob) = other ob"
    and index_put: "index (put xs ob) = index ob"
    and code_put: "bookStockCode (put xs ob) = bookStockCode ob"
    and put_put: "put xs (put ys ob) = put xs ob"
    and put_same: "put (entries ob) ob = ob"
    and put_index: "(put xs ob)\<lparr>index := I\<rparr> = put xs (ob\<lparr>index := I\<rparr>)"
    and entries_index: "entries (ob\<lparr>index := I\<rparr>) = entries ob"
    and other_index: "other (ob\<lparr>index := I\<rparr>) = other ob"
    and set_book_entries: "set (book_entries ob) = set (entries ob) \<union> set (other ob)"
    and distinct_sides: "book_wf h ob \<Longrightarrow> distinct (map (entry_id h) (entries ob @ other ob))"
    and wf_shrink: "book_wf h ob \<Longrightarrow> entries ob = e # es \<Longrightarrow> 0 < r \<Longrightarrow> in64 r \<Longrightarrow>
      book_wf h (put (e\<lparr>eRemaining := r\<rparr> # es) ob)"
    and remove_best: "book_wf h ob \<Longrightarrow> entries ob = e # es \<Longrightarrow>
      removeOrder h (put (e\<lparr>eRemaining := r\<rparr> # es) ob) (entry_id h e) =
        put es (ob\<lparr>index := index ob - {entry_id h e}\<rparr>)"
    and wf_remove: "book_wf h ob \<Longrightarrow> entries ob = e # es \<Longrightarrow>
      book_wf h (put es (ob\<lparr>index := index ob - {entry_id h e}\<rparr>))"
    and entries_remove: "entries ob = e # es \<Longrightarrow> entries (removeOrder h ob (entry_id h e)) = es"
begin

lemma entries_iteration:
  assumes "entries (book m) = e # es"
  shows "entries (book (iteration m a e)) =
    (let r = sub64 (eRemaining e) (min64 (RemainingQuantity (heap m a)) (eRemaining e))
     in if r \<le> 0 then es else e\<lparr>eRemaining := r\<rparr> # es)"
proof -
  have "entry_id h e = entry_id h (e\<lparr>eRemaining := r\<rparr>)" for h r
    by (simp add: entry_id_def)
  then show ?thesis
    using assms entries_remove [OF entries_put]
    by (simp add: iteration_eq Let_def entries_put) metis
qed

lemma loop_stop:
  "entries (book m) = [] \<Longrightarrow> loop m a = m"
  "entries (book m) = e # es \<Longrightarrow>
   beyond (entry_price (heap m) e) (oPrice (heap m a)) \<or> RemainingQuantity (heap m a) \<le> 0 \<Longrightarrow>
   loop m a = m"
  by (simp_all add: loop_eq [of m a])

lemma loop_step:
  "entries (book m) = e # es \<Longrightarrow> \<not> beyond (entry_price (heap m) e) (oPrice (heap m a)) \<Longrightarrow>
   0 < RemainingQuantity (heap m a) \<Longrightarrow> loop m a = loop (iteration m a e) a"
  by (simp add: loop_eq [of m a])

text \<open>Induction over the iterations of the loop.\<close>

lemma loop_induct [case_names stop step]:
  assumes stop: "\<And>m. loop m a = m \<Longrightarrow>
      entries (book m) = [] \<or> RemainingQuantity (heap m a) \<le> 0 \<or>
      beyond (entry_price (heap m) (hd (entries (book m)))) (oPrice (heap m a)) \<Longrightarrow> P m"
    and step: "\<And>m e es. entries (book m) = e # es \<Longrightarrow>
      \<not> beyond (entry_price (heap m) e) (oPrice (heap m a)) \<Longrightarrow> 0 < RemainingQuantity (heap m a) \<Longrightarrow>
      loop m a = loop (iteration m a e) a \<Longrightarrow> P (iteration m a e) \<Longrightarrow> P m"
  shows "P m"
proof (induction "side_size (entries (book m))" arbitrary: m
    rule: wf_induct_rule [OF wf_lex_prod [OF wf_less_than wf_less_than]])
  case less: (1 m)
  show ?case
  proof (cases "entries (book m)")
    case Nil
    then show ?thesis by (intro stop) (simp_all add: loop_stop)
  next
    case es: (Cons e es)
    show ?thesis
    proof (cases "beyond (entry_price (heap m) e) (oPrice (heap m a)) \<or> RemainingQuantity (heap m a) \<le> 0")
      case True
      then show ?thesis using es by (intro stop) (auto simp: loop_stop(2) [OF es])
    next
      case False
      then have "(side_size (entries (book (iteration m a e))), side_size (entries (book m)))
          \<in> less_than <*lex*> less_than"
        using consume_decreases [of "RemainingQuantity (heap m a)" "eRemaining e"]
        by (auto simp: entries_iteration [OF es] es side_size_def Let_def)
      then have "P (iteration m a e)" by (rule less)
      then show ?thesis using False by (intro step [OF es _ _ loop_step [OF es]]) auto
    qed
  qed
qed

text \<open>When the loop stops: the side is exhausted, its best price is out of reach, or the order is filled.\<close>

lemma loop_exit:
  "entries (book (loop m a)) = [] \<or> RemainingQuantity (heap (loop m a) a) \<le> 0 \<or>
   beyond (entry_price (heap (loop m a)) (hd (entries (book (loop m a))))) (oPrice (heap (loop m a) a))"
proof (induction m rule: loop_induct [where a = a])
  case (stop m)
  then show ?case by (simp only:)
next
  case (step m e es)
  then show ?case by (simp only:)
qed

text \<open>
  What the loop keeps, whether or not trades can be saved: the book stays well formed, the
  incoming order stays out of it, the other side and all identities are untouched, and entries
  only disappear or shrink.
\<close>

definition loop_inv :: "'w mstate \<Rightarrow> addr \<Rightarrow> 'w mstate \<Rightarrow> bool" where
  "loop_inv m0 a m \<longleftrightarrow>
     book_wf (heap m) (book m) \<and> oID (heap m a) \<notin> index (book m) \<and>
     heap_frame (heap m0) (heap m) \<and> stockCode m = stockCode m0 \<and>
     bookStockCode (book m) = bookStockCode (book m0) \<and>
     index (book m) \<subseteq> index (book m0) \<and> other (book m) = other (book m0) \<and>
     eOrder ` set (entries (book m)) \<subseteq> eOrder ` set (entries (book m0))"

lemma iteration_book:
  fixes a :: addr
  assumes wf: "book_wf (heap m) (book m)" and es: "entries (book m) = e # es"
  defines "q \<equiv> min64 (RemainingQuantity (heap m a)) (eRemaining e)"
  defines "r \<equiv> sub64 (eRemaining e) q"
  shows "iteration m a e =
    (exec m a (eOrder e) q (entry_price (heap m) e))\<lparr>book :=
       if r \<le> 0 then put es ((book m)\<lparr>index := index (book m) - {entry_id (heap m) e}\<rparr>)
       else put (e\<lparr>eRemaining := r\<rparr> # es) (book m)\<rparr>"
  using iteration_eq [OF es] remove_best [OF wf es] by (simp add: Let_def q_def r_def)

lemma iteration_inv:
  assumes inv: "loop_inv m0 a m" and es: "entries (book m) = e # es"
  shows "loop_inv m0 a (iteration m a e)"
proof -
  define q where "q = min64 (RemainingQuantity (heap m a)) (eRemaining e)"
  define r where "r = sub64 (eRemaining e) q"
  define m1 where "m1 = exec m a (eOrder e) q (entry_price (heap m) e)"
  define ob where "ob =
    (if r \<le> 0 then put es ((book m)\<lparr>index := index (book m) - {entry_id (heap m) e}\<rparr>)
     else put (e\<lparr>eRemaining := r\<rparr> # es) (book m))"
  have wf: "book_wf (heap m) (book m)" using inv by (simp add: loop_inv_def)
  have it: "iteration m a e = m1\<lparr>book := ob\<rparr>"
    unfolding iteration_book [OF wf es] m1_def ob_def r_def q_def ..
  have fr: "heap_frame (heap m) (heap m1)" unfolding m1_def by (rule exec_frame)
  have "book_wf (heap m) ob"
    using wf_remove [OF wf es] wf_shrink [OF wf es, of r]
    by (auto simp: ob_def r_def sub64_def wrap64_in64)
  then have wf': "book_wf (heap m1) ob" by (simp add: book_wf_frame [OF fr])
  have idx: "index ob \<subseteq> index (book m)" and oth: "other ob = other (book m)"
    and code: "bookStockCode ob = bookStockCode (book m)"
    and ents: "eOrder ` set (entries ob) \<subseteq> eOrder ` set (entries (book m))"
    by (auto simp: ob_def index_put other_put entries_put code_put other_index es)
  have stock: "stockCode m1 = stockCode m" by (simp add: m1_def exec_stock)
  have fr0: "heap_frame (heap m0) (heap m1)"
    using inv fr unfolding loop_inv_def by (blast intro: heap_frame_trans)
  have "oID (heap m1 a) \<notin> index ob"
    using inv idx by (auto simp: loop_inv_def heap_frame_entries(5) [OF fr])
  moreover have "index ob \<subseteq> index (book m0)" "eOrder ` set (entries ob) \<subseteq> eOrder ` set (entries (book m0))"
    using inv idx ents unfolding loop_inv_def by blast+
  ultimately show ?thesis
    using inv wf' fr0 by (simp add: it loop_inv_def oth code stock)
qed

lemma loop_keeps_inv: "loop_inv m0 a m \<Longrightarrow> loop_inv m0 a (loop m a)"
proof (induction m rule: loop_induct [where a = a])
  case (stop m)
  then show ?case by simp
next
  case (step m e es)
  then show ?case using iteration_inv [OF step.prems step.hyps(1)] by simp
qed

lemma loop_inv_start:
  "book_wf (heap m) (book m) \<Longrightarrow> oID (heap m a) \<notin> index (book m) \<Longrightarrow> loop_inv m a m"
  by (simp add: loop_inv_def)

lemmas loop_inv_loop = loop_keeps_inv [OF loop_inv_start]

text \<open>The quantity of one trade, for a well-formed book and incoming order.\<close>

lemma trade_quantity:
  assumes "book_wf (heap m) (book m)" and "entries (book m) = e # es"
    and "0 < RemainingQuantity (heap m a)"
  defines "q \<equiv> min64 (RemainingQuantity (heap m a)) (eRemaining e)"
  shows "0 < q" and "q \<le> RemainingQuantity (heap m a)" and "q \<le> eRemaining e"
    and "sub64 (eRemaining e) q = eRemaining e - q"
proof -
  have "0 < eRemaining e" and r64: "in64 (eRemaining e)"
    using assms(1,2) set_book_entries [of "book m"] by (auto simp: book_wf_def)
  then show q: "0 < q" "q \<le> RemainingQuantity (heap m a)" and qe: "q \<le> eRemaining e"
    using assms(3) by (auto simp: q_def min64_def)
  show "sub64 (eRemaining e) q = eRemaining e - q"
    using q qe r64 by (intro sub64_id in64_nonneg [OF _ _ r64]) auto
qed

lemma fresh_address:
  assumes "book_wf (heap m) (book m)" and "oID (heap m a) \<notin> index (book m)"
    and "x \<in> set (book_entries (book m))"
  shows "eOrder x \<noteq> a"
  using assms by (auto simp: book_wf_def entry_id_def)

lemma distinct_addresses:
  assumes "book_wf h ob" and "entries ob = e # es" and "x \<in> set es \<union> set (other ob)"
  shows "eOrder x \<noteq> eOrder e"
proof
  assume "eOrder x = eOrder e"
  then have "entry_id h e \<in> entry_id h ` (set es \<union> set (other ob))"
    using assms(3) by (intro image_eqI [of _ _ x]) (simp_all add: entry_id_def)
  then show False using distinct_sides [OF assms(1)] assms(2) by auto
qed

text \<open>
  No order is filled beyond its quantity, and the book never promises more than its orders
  have left; with equality where the trade was saved.
\<close>

lemma iteration_rel:
  assumes wf: "book_wf (heap m) (book m)" and new: "oID (heap m a) \<notin> index (book m)"
    and owf: "order_wf (heap m a)" and rel: "book_rel R (heap m) (book m)"
    and es: "entries (book m) = e # es" and rem: "0 < RemainingQuantity (heap m a)"
    and Rsub: "\<And>x y q. R x y \<Longrightarrow> R (x - q) (y - q)"
    and Rfail: "\<And>x y q. heap (iteration m a e) = heap m \<Longrightarrow> 0 < q \<Longrightarrow> R x y \<Longrightarrow> R (x - q) y"
    and Rle: "\<And>x y. R x y \<Longrightarrow> x \<le> y"
  shows "order_wf (heap (iteration m a e) a) \<and>
    book_rel R (heap (iteration m a e)) (book (iteration m a e))"
proof -
  define q where "q = min64 (RemainingQuantity (heap m a)) (eRemaining e)"
  define h' where "h' = heap (iteration m a e)"
  note q = trade_quantity [OF wf es rem, folded q_def]
  have it: "h' = heap (exec m a (eOrder e) q (entry_price (heap m) e))"
    by (simp add: h'_def iteration_book [OF wf es] q_def)
  have e_in: "e \<in> set (book_entries (book m))" by (simp add: set_book_entries es)
  have ae: "a \<noteq> eOrder e" using fresh_address [OF wf new e_in] by simp
  have oe: "order_wf (heap m (eOrder e))" and Re: "R (eRemaining e) (RemainingQuantity (heap m (eOrder e)))"
    using rel e_in by (auto simp: book_rel_def)
  have q_le: "q \<le> RemainingQuantity (heap m (eOrder e))" using q(3) Rle [OF Re] by simp
  have others: "eOrder x \<noteq> a \<and> eOrder x \<noteq> eOrder e" if "x \<in> set es \<union> set (other (book m))" for x
    using that fresh_address [OF wf new, of x] distinct_addresses [OF wf es that]
    by (auto simp: set_book_entries es)
  have "order_wf (h' a) \<and> order_wf (h' (eOrder e)) \<and> R (eRemaining e - q) (RemainingQuantity (h' (eOrder e))) \<and>
      (\<forall>x. x \<noteq> a \<longrightarrow> x \<noteq> eOrder e \<longrightarrow> h' x = heap m x)"
  proof (cases "h' = heap m")
    case True
    then show ?thesis using owf oe Rfail [OF _ q(1) Re] by (simp add: h'_def)
  next
    case False
    then obtain t1 t2 where "h' =
        (heap m)(a := Fill t1 (heap m a) q, eOrder e := Fill t2 (heap m (eOrder e)) q)"
      using exec_heap [OF ae] it by metis
    then show ?thesis
      using Fill_wf [OF owf q(1,2)] Fill_wf [OF oe q(1) q_le] ae Rsub [OF Re] by auto
  qed
  moreover have "set (book_entries (book (iteration m a e))) \<subseteq>
      insert (e\<lparr>eRemaining := eRemaining e - q\<rparr>) (set es \<union> set (other (book m)))"
    by (auto simp: iteration_book [OF wf es] q(4) set_book_entries entries_put other_put other_index
        q_def [symmetric] split: if_splits)
  ultimately show ?thesis
    using rel others unfolding book_rel_def h'_def [symmetric]
    by (fastforce simp: set_book_entries es)
qed

lemma loop_rel:
  assumes "book_wf (heap m) (book m)" and "oID (heap m a) \<notin> index (book m)"
    and "order_wf (heap m a)" and "book_backed (heap m) (book m)"
  shows "order_wf (heap (loop m a) a) \<and> book_backed (heap (loop m a)) (book (loop m a))"
  using assms
proof (induction m rule: loop_induct [where a = a])
  case (stop m)
  then show ?case by simp
next
  case (step m e es)
  have "loop_inv m a (iteration m a e)"
    using iteration_inv [OF loop_inv_start step.hyps(1)] step.prems by simp
  moreover have "order_wf (heap (iteration m a e) a) \<and>
      book_rel (\<le>) (heap (iteration m a e)) (book (iteration m a e))"
    using step.prems step.hyps by (intro iteration_rel) (auto simp: book_backed_def)
  ultimately show ?case
    using step.IH by (simp add: step.hyps(4) loop_inv_def book_backed_def)
qed

section \<open>Refinement of the specification\<close>

text \<open>The trades of a match, executed one after the other.\<close>

definition exec_fills :: "'w mstate \<Rightarrow> addr \<Rightarrow> (orderEntry \<times> int) list \<Rightarrow> 'w mstate" where
  "exec_fills m a fs = foldl (\<lambda>m (e, q). exec m a (eOrder e) q (entry_price (heap m) e)) m fs"

lemma exec_fills_simps [simp]:
  "exec_fills m a [] = m"
  "exec_fills m a ((e, q) # fs) = exec_fills (exec m a (eOrder e) q (entry_price (heap m) e)) a fs"
  by (simp_all add: exec_fills_def)

lemma exec_fills_book:
  "exec_fills (m\<lparr>book := ob\<rparr>) a fs = (exec_fills m a fs)\<lparr>book := ob\<rparr>"
  by (induction fs arbitrary: m) (auto simp: exec_upd_book)

text \<open>\<open>J\<close> is a condition on the world under which a trade is saved and both orders are filled.\<close>

definition reliable :: "('w mstate \<Rightarrow> bool) \<Rightarrow> addr \<Rightarrow> bool" where
  "reliable J a \<longleftrightarrow>
     (\<forall>m ob. J (m\<lparr>book := ob\<rparr>) = J m) \<and>
     (\<forall>m s q p. J m \<longrightarrow> a \<noteq> s \<longrightarrow> J (exec m a s q p) \<and>
        (\<exists>t1 t2. heap (exec m a s q p) =
           (heap m)(a := Fill t1 (heap m a) q, s := Fill t2 (heap m s) q)))"

lemma loop_refines:
  assumes "reliable J a" and "J m"
    and "book_wf (heap m) (book m)" and "oID (heap m a) \<notin> index (book m)" and "order_wf (heap m a)"
  defines "ok \<equiv> \<lambda>e. \<not> beyond (entry_price (heap m) e) (oPrice (heap m a))"
  defines "fs \<equiv> fills ok (RemainingQuantity (heap m a)) (entries (book m))"
  shows "loop m a = (exec_fills m a fs)\<lparr>book :=
     put (rest_of ok (RemainingQuantity (heap m a)) (entries (book m)))
       ((book m)\<lparr>index := index (book m) - served (heap m) fs\<rparr>)\<rparr>"
  using assms(2-5) unfolding fs_def ok_def
proof (induction "entries (book m)" arbitrary: m)
  case Nil
  then have es: "entries (book m) = []" by simp
  then have "put [] (book m) = book m" using put_same [of "book m"] by simp
  then show ?case by (simp add: es loop_stop(1) [OF es] served_def)
next
  case (Cons e es)
  note es = Cons.hyps(2) [symmetric] and Jm = Cons.prems(1) and wf = Cons.prems(2)
    and new = Cons.prems(3) and owf = Cons.prems(4)
  let ?ok = "\<lambda>e. \<not> beyond (entry_price (heap m) e) (oPrice (heap m a))"
  show ?case
  proof (cases "?ok e \<and> 0 < RemainingQuantity (heap m a)")
    case False
    then show ?thesis
      using loop_stop(2) [OF es, of a] put_same [of "book m"] es by (auto simp: served_def)
  next
    case True
    define q where "q = min64 (RemainingQuantity (heap m a)) (eRemaining e)"
    define m1 where "m1 = exec m a (eOrder e) q (entry_price (heap m) e)"
    note q = trade_quantity [OF wf es conjunct2 [OF True], folded q_def]
    have ae: "a \<noteq> eOrder e"
      using fresh_address [OF wf new, of e] by (auto simp: set_book_entries es)
    obtain t1 t2 where h1: "heap m1 = (heap m)(a := Fill t1 (heap m a) q, eOrder e := Fill t2 (heap m (eOrder e)) q)"
      and Jm1: "J m1"
      using assms(1) Jm ae unfolding reliable_def m1_def by blast
    have rem1: "RemainingQuantity (heap m1 a) = RemainingQuantity (heap m a) - q" and owf1: "order_wf (heap m1 a)"
      using Fill_wf [OF owf q(1,2)] ae by (simp_all add: h1)
    have fr: "heap_frame (heap m) (heap m1)" unfolding m1_def by (rule exec_frame)
    note it = iteration_book [OF wf es, of a, folded q_def, folded m1_def]
    have lp: "loop m a = loop (iteration m a e) a" using True by (intro loop_step [OF es]) auto
    have inv: "loop_inv m a (iteration m a e)"
      by (rule iteration_inv [OF loop_inv_start [OF wf new] es])
    show ?thesis
    proof (cases "eRemaining e \<le> RemainingQuantity (heap m a)")
      case le: True
      then have qe: "q = eRemaining e" by (simp add: q_def min64_def)
      define ob where "ob = put es ((book m)\<lparr>index := index (book m) - {entry_id (heap m) e}\<rparr>)"
      have it': "iteration m a e = m1\<lparr>book := ob\<rparr>" using it by (simp add: ob_def qe)
      have ents: "es = entries (book (m1\<lparr>book := ob\<rparr>))" by (simp add: ob_def entries_put)
      have eob: "entries ob = es" by (simp add: ob_def entries_put)
      define k where "k = RemainingQuantity (heap m a) - eRemaining e"
      define fs' where "fs' = fills ?ok k es"
      define rest' where "rest' = rest_of ?ok k es"
      have "J (m1\<lparr>book := ob\<rparr>)" using Jm1 assms(1) by (simp add: reliable_def)
      moreover have "book_wf (heap m1) ob" "oID (heap m1 a) \<notin> index ob"
        using inv by (simp_all add: it' loop_inv_def)
      ultimately have IH: "loop (m1\<lparr>book := ob\<rparr>) a = (exec_fills (m1\<lparr>book := ob\<rparr>) a fs')\<lparr>book :=
          put rest' (ob\<lparr>index := index ob - served (heap m1) fs'\<rparr>)\<rparr>"
        using Cons.hyps(1) [OF ents] owf1
        by (simp add: rem1 heap_frame_entries [OF fr] fs'_def rest'_def k_def qe eob)
      have spec: "match_spec ?ok (RemainingQuantity (heap m a)) (e # es) = ((e, eRemaining e) # fs', rest')"
        using True le by (simp add: fs'_def rest'_def k_def split: prod.split)
      have served: "served (heap m) ((e, eRemaining e) # fs') = insert (entry_id (heap m) e) (served (heap m) fs')"
        by (auto simp: served_def)
      have ob': "put rest' (ob\<lparr>index := index ob - served (heap m1) fs'\<rparr>) =
          put rest' ((book m)\<lparr>index := index (book m) - served (heap m) ((e, eRemaining e) # fs')\<rparr>)"
        unfolding served
        by (simp add: ob_def put_index index_put put_put served_def heap_frame_entries [OF fr] Diff_insert2 [symmetric])
      show ?thesis
        unfolding lp it' IH es spec fst_conv snd_conv exec_fills_book exec_fills_simps ob'
        by (simp add: m1_def qe)
    next
      case False
      then have qe: "q = RemainingQuantity (heap m a)" by (simp add: q_def min64_def)
      then have lt: "\<not> eRemaining e \<le> q" using False by simp
      define ob where "ob = put (e\<lparr>eRemaining := eRemaining e - q\<rparr> # es) (book m)"
      have it': "iteration m a e = m1\<lparr>book := ob\<rparr>" 
        using it False by (simp add: ob_def q(4) lt)
      have "loop (m1\<lparr>book := ob\<rparr>) a = m1\<lparr>book := ob\<rparr>"
        using rem1 qe by (intro loop_stop(2)) (simp_all add: ob_def entries_put)
      moreover have "served (heap m) [(e, q)] = {}" using False qe by (auto simp: served_def)
      ultimately show ?thesis
        using True False unfolding lp it' by (simp add: es qe ob_def m1_def)
    qed
  qed
qed

lemma exec_fills_heap:
  assumes "reliable J a" and "J m" and "order_wf (heap m a)"
    and "distinct (map (eOrder \<circ> fst) fs)" and "a \<notin> (eOrder \<circ> fst) ` set fs"
    and "\<forall>(e, q)\<in>set fs. 0 < q \<and> order_wf (heap m (eOrder e)) \<and> q \<le> RemainingQuantity (heap m (eOrder e))"
    and "sum_list (map snd fs) \<le> RemainingQuantity (heap m a)"
  shows "J (exec_fills m a fs) \<and> filled_by (heap m) a fs (heap (exec_fills m a fs))"
  using assms(2-7)
proof (induction fs arbitrary: m)
  case Nil
  then show ?case by (simp add: filled_by_def)
next
  case (Cons f fs)
  obtain e q where f: "f = (e, q)" by fastforce
  let ?m1 = "exec m a (eOrder e) q (entry_price (heap m) e)"
  have ae: "a \<noteq> eOrder e" using Cons.prems(4) by (simp add: f)
  obtain t1 t2 where J1: "J ?m1"
    and h1: "heap ?m1 = (heap m)(a := Fill t1 (heap m a) q, eOrder e := Fill t2 (heap m (eOrder e)) q)"
    using assms(1) Cons.prems(1) ae unfolding reliable_def by blast
  have q: "0 < q" "order_wf (heap m (eOrder e))" "q \<le> RemainingQuantity (heap m (eOrder e))"
    using Cons.prems(5) by (auto simp: f)
  have nonneg: "0 \<le> sum_list (map snd fs)"
    using Cons.prems(5) by (intro sum_list_nonneg) (auto simp: f)
  then have qa: "q \<le> RemainingQuantity (heap m a)" using Cons.prems(6) by (simp add: f)
  note Fa = Fill_wf [OF Cons.prems(2) q(1) qa] and Fe = Fill_wf [OF q(2,1,3)]
  have same: "heap ?m1 (eOrder x) = heap m (eOrder x)" if "(x, y) \<in> set fs" for x y
    using that Cons.prems(3,4) by (force simp: h1 f)
  have e_new: "eOrder e \<notin> (eOrder \<circ> fst) ` set fs" using Cons.prems(3) by (simp add: f)
  have ha: "order_wf (heap ?m1 a)" "RemainingQuantity (heap ?m1 a) = RemainingQuantity (heap m a) - q"
    "oFilledQuantity (heap ?m1 a) = oFilledQuantity (heap m a) + q"
    using Fa(1,2) Fa(3) [of t1] ae by (simp_all add: h1)
  have he: "heap ?m1 (eOrder e) = Fill t2 (heap m (eOrder e)) q" by (simp add: h1)
  have p5: "\<forall>(x, y)\<in>set fs. 0 < y \<and> order_wf (heap ?m1 (eOrder x)) \<and> y \<le> RemainingQuantity (heap ?m1 (eOrder x))"
  proof (clarify)
    fix x y assume xy: "(x, y) \<in> set fs"
    then have "(x, y) \<in> set (f # fs)" by simp
    then show "0 < y \<and> order_wf (heap ?m1 (eOrder x)) \<and> y \<le> RemainingQuantity (heap ?m1 (eOrder x))"
      using Cons.prems(5) same [OF xy] by (metis (no_types, lifting) case_prodD)
  qed
  have IH: "J (exec_fills ?m1 a fs)" "filled_by (heap ?m1) a fs (heap (exec_fills ?m1 a fs))"
    using Cons.IH [OF J1 ha(1) _ _ p5] Cons.prems(3,4,6) ha(2) by (simp_all add: f)
  define h' where "h' = heap (exec_fills ?m1 a fs)"
  have fb: "order_wf (h' a)" "oFilledQuantity (h' a) = oFilledQuantity (heap m a) + q + sum_list (map snd fs)"
    and fbx: "\<And>x y. (x, y) \<in> set fs \<Longrightarrow> order_wf (h' (eOrder x)) \<and>
        oFilledQuantity (h' (eOrder x)) = oFilledQuantity (heap m (eOrder x)) + y"
    and fbo: "\<And>x. x \<noteq> a \<Longrightarrow> x \<notin> (eOrder \<circ> fst) ` set fs \<Longrightarrow> h' x = heap ?m1 x"
    using IH(2) ha(3) same unfolding filled_by_def h'_def by (simp_all, fastforce)
  have h'e: "h' (eOrder e) = Fill t2 (heap m (eOrder e)) q"
    using fbo [OF _ e_new] ae he by simp
  have "filled_by (heap m) a (f # fs) h'"
    unfolding filled_by_def f
    using fb fbx fbo h'e Fe(1,2) by (auto simp: h1)
  then show ?case using IH(1) by (simp add: f h'_def)
qed

text \<open>When trades are saved, entries and orders never disagree about what is left.\<close>

lemma loop_exact:
  assumes "reliable J a" and "J m"
    and "book_wf (heap m) (book m)" and "oID (heap m a) \<notin> index (book m)"
    and "order_wf (heap m a)" and "book_exact (heap m) (book m)"
  shows "J (loop m a) \<and> book_exact (heap (loop m a)) (book (loop m a))"
  using assms(2-6)
proof (induction m rule: loop_induct [where a = a])
  case (stop m)
  then show ?case by simp
next
  case (step m e es)
  note wf = step.prems(2) and new = step.prems(3) and owf = step.prems(4) and es = step.hyps(1)
  define q where "q = min64 (RemainingQuantity (heap m a)) (eRemaining e)"
  note q = trade_quantity [OF wf es step.hyps(3), folded q_def]
  have ae: "a \<noteq> eOrder e"
    using fresh_address [OF wf new, of e] by (auto simp: set_book_entries es)
  obtain t1 t2 where h1: "heap (iteration m a e) =
      (heap m)(a := Fill t1 (heap m a) q, eOrder e := Fill t2 (heap m (eOrder e)) q)"
    and J1: "J (iteration m a e)"
    using assms(1) step.prems(1) ae by (simp add: iteration_book [OF wf es] reliable_def q_def) blast
  have "oFilledQuantity (heap (iteration m a e) a) \<noteq> oFilledQuantity (heap m a)"
    using Fill_wf(2) [OF owf q(1,2), of t1] q(1) ae by (simp add: h1)
  then have changed: "heap (iteration m a e) \<noteq> heap m" by auto
  have "loop_inv m a (iteration m a e)"
    by (rule iteration_inv [OF loop_inv_start [OF wf new] es])
  moreover have "order_wf (heap (iteration m a e) a) \<and>
      book_rel (=) (heap (iteration m a e)) (book (iteration m a e))"
    using step.prems step.hyps changed by (intro iteration_rel) (auto simp: book_exact_def)
  ultimately show ?case
    using step.IH J1 by (simp add: step.hyps(4) loop_inv_def book_exact_def)
qed

text \<open>
  If every trade leaves one record in a log, a sequence of fills leaves one record each, in the
  order in which they were executed.
\<close>

lemma fills_log:
  assumes rec: "\<And>m s q p. J m \<Longrightarrow> a \<noteq> s \<Longrightarrow> J (exec m a s q p) \<and>
      (\<exists>tr. hist (world (exec m a s q p)) = hist (world m) @ [tr] \<and> T (stockCode m) (heap m a) (heap m s) q p tr)"
    and T_frame: "\<And>st h h' b s. heap_frame h h' \<Longrightarrow> T st (h' b) (h' s) = T st (h b) (h s)"
    and "J m" and "a \<notin> (eOrder \<circ> fst) ` set fs"
  shows "\<exists>ts. hist (world (exec_fills m a fs)) = hist (world m) @ ts \<and>
    list_all2 (\<lambda>(e, q). T (stockCode m) (heap m a) (heap m (eOrder e)) q (entry_price (heap m) e)) fs ts"
  using assms(3,4)
proof (induction fs arbitrary: m)
  case Nil
  then show ?case by simp
next
  case (Cons f fs)
  obtain e q where f: "f = (e, q)" by fastforce
  let ?m1 = "exec m a (eOrder e) q (entry_price (heap m) e)"
  have "a \<noteq> eOrder e" using Cons.prems(2) by (simp add: f)
  from rec [OF Cons.prems(1) this]
  obtain tr where J1: "J ?m1" and tr: "hist (world ?m1) = hist (world m) @ [tr]"
    "T (stockCode m) (heap m a) (heap m (eOrder e)) q (entry_price (heap m) e) tr" by blast
  have fr: "heap_frame (heap m) (heap ?m1)" by (rule exec_frame)
  obtain ts where "hist (world (exec_fills ?m1 a fs)) = hist (world ?m1) @ ts"
    "list_all2 (\<lambda>(e, q). T (stockCode ?m1) (heap ?m1 a) (heap ?m1 (eOrder e)) q (entry_price (heap ?m1) e)) fs ts"
    using Cons.IH [OF J1] Cons.prems(2) by (auto simp: f)
  then show ?case
    using tr by (intro exI [of _ "tr # ts"])
      (simp add: f heap_frame_entries(1) [OF fr] T_frame [OF fr] exec_stock)
qed

lemma loop_stock: "stockCode (loop m a) = stockCode m"
proof (induction m rule: loop_induct [where a = a])
  case (step m e es)
  then show ?case by (simp add: iteration_eq exec_stock Let_def)
qed simp

text \<open>Whatever every trade with a resting order keeps, the loop keeps.\<close>

lemma loop_preserves:
  assumes exec: "\<And>m s q p. J m \<Longrightarrow> s \<in> A \<Longrightarrow> J (exec m a s q p)"
    and indep: "\<And>m ob. J (m\<lparr>book := ob\<rparr>) = J m"
    and "J m" and "eOrder ` set (entries (book m)) \<subseteq> A"
  shows "J (loop m a)"
  using assms(3,4)
proof (induction m rule: loop_induct [where a = a])
  case (stop m)
  then show ?case by simp
next
  case (step m e es)
  have "J (iteration m a e)"
    using step.prems exec indep by (simp add: iteration_eq [OF step.hyps(1)] step.hyps(1) Let_def)
  moreover have "eOrder ` set (entries (book (iteration m a e))) \<subseteq> A"
    using step.prems(2) by (auto simp: entries_iteration [OF step.hyps(1)] step.hyps(1) Let_def)
  ultimately show ?case using step.IH step.hyps(4) by simp
qed

text \<open>The loop writes the incoming order and the orders resting on its side, nothing else.\<close>

lemma loop_local:
  assumes "loop_inv m0 a m" and "x \<noteq> a" and "x \<notin> eOrder ` set (entries (book m0))"
  shows "heap (loop m a) x = heap m x"
  using assms(1)
proof (induction m rule: loop_induct [where a = a])
  case (stop m)
  then show ?case by simp
next
  case (step m e es)
  note inv = step.prems and es = step.hyps(1)
  have wf: "book_wf (heap m) (book m)" and new: "oID (heap m a) \<notin> index (book m)"
    and x: "x \<noteq> eOrder e"
    using inv assms(3) by (auto simp: loop_inv_def es)
  have "a \<noteq> eOrder e" using fresh_address [OF wf new, of e] by (simp add: set_book_entries es)
  from exec_heap [OF this, of m] have "heap (iteration m a e) x = heap m x"
    using x assms(2) by (auto simp: iteration_book [OF wf es])
      (metis (no_types, lifting) fun_upd_other)
  then show ?case using step.IH [OF iteration_inv [OF inv es]] step.hyps(4) by simp
qed

text \<open>
  When no trade can be saved no order is filled, yet the loop keeps taking from the entries it
  meets: it ends only when every entry at an acceptable price has been consumed.
\<close>

lemma loop_unsaved:
  assumes fail: "\<And>m s q p. heap (exec m a s q p) = heap m"
    and "book_wf (heap m) (book m)" and "oID (heap m a) \<notin> index (book m)"
    and "0 < RemainingQuantity (heap m a)"
  shows "heap (loop m a) = heap m \<and>
    entries (book (loop m a)) =
      dropWhile (\<lambda>e. \<not> beyond (entry_price (heap m) e) (oPrice (heap m a))) (entries (book m))"
  using assms(2-4)
proof (induction m rule: loop_induct [where a = a])
  case (stop m)
  then show ?case by (cases "entries (book m)") auto
next
  case (step m e es)
  note wf = step.prems(1) and new = step.prems(2) and es = step.hyps(1)
  have hp: "heap (iteration m a e) = heap m" by (simp add: iteration_book [OF wf es] fail)
  have "loop_inv m a (iteration m a e)"
    by (rule iteration_inv [OF loop_inv_start [OF wf new] es])
  then have "book_wf (heap m) (book (iteration m a e))" "oID (heap m a) \<notin> index (book (iteration m a e))"
    by (simp_all add: loop_inv_def hp)
  with step.IH step.hyps step.prems(3) show ?case
    by (auto simp: hp entries_iteration [OF es] es Let_def entry_price_def)
qed

end

section \<open>The two sides\<close>

lemma set_book_entries_swap: "set (book_entries ob) = set (asks ob) \<union> set (bids ob)"
  by (auto simp: book_entries_def)

lemma book_wf_distinct:
  "book_wf h ob \<Longrightarrow> distinct (map (entry_id h) (bids ob @ asks ob))"
  "book_wf h ob \<Longrightarrow> distinct (map (entry_id h) (asks ob @ bids ob))"
  by (auto simp: book_wf_def book_entries_def)

lemma matchBuy_unfold:
  "matchBuy d m a =
     (case asks (book m) of
        [] \<Rightarrow> m
      | e # es \<Rightarrow>
          if oPrice (heap m a) < entry_price (heap m) e \<or> RemainingQuantity (heap m a) \<le> 0
          then m else matchBuy d (matchBuy_iteration d m a e) a)"
  by (subst matchBuy.simps) (auto simp: bestAsk_def split: list.split)

lemma matchSell_unfold:
  "matchSell d m a =
     (case bids (book m) of
        [] \<Rightarrow> m
      | e # es \<Rightarrow>
          if entry_price (heap m) e < oPrice (heap m a) \<or> RemainingQuantity (heap m a) \<le> 0
          then m else matchSell d (matchSell_iteration d m a e) a)"
  by (subst matchSell.simps) (auto simp: bestBid_def split: list.split)

lemma entry_id_shrunk [simp]: "entry_id h (e\<lparr>eRemaining := r\<rparr>) = entry_id h e"
  by (simp add: entry_id_def)

lemma iteration_remove:
  assumes "heap_frame h h'"
  shows "removeOrder h' ob (entry_id h' e) = removeOrder h ob (entry_id h e)"
  by (simp add: heap_frame_removeOrder [OF assms] heap_frame_entries(2) [OF assms])

lemma matchBuy_iteration_unfold:
  "asks (book m) = e # es \<Longrightarrow> matchBuy_iteration d m a e =
     (let q = min64 (RemainingQuantity (heap m a)) (eRemaining e);
          m1 = executeTrade d m a (eOrder e) q (entry_price (heap m) e);
          r = sub64 (eRemaining e) q;
          ob = (book m)\<lparr>asks := e\<lparr>eRemaining := r\<rparr> # es\<rparr>
      in m1\<lparr>book := if r \<le> 0 then removeOrder (heap m) ob (entry_id (heap m) e) else ob\<rparr>)"
  by (simp add: matchBuy_iteration_def Let_def iteration_remove [OF executeTrade_heap_frame])

lemma matchSell_iteration_unfold:
  "bids (book m) = e # es \<Longrightarrow> matchSell_iteration d m a e =
     (let q = min64 (RemainingQuantity (heap m a)) (eRemaining e);
          m1 = executeTrade d m (eOrder e) a q (entry_price (heap m) e);
          r = sub64 (eRemaining e) q;
          ob = (book m)\<lparr>bids := e\<lparr>eRemaining := r\<rparr> # es\<rparr>
      in m1\<lparr>book := if r \<le> 0 then removeOrder (heap m) ob (entry_id (heap m) e) else ob\<rparr>)"
  by (simp add: matchSell_iteration_def Let_def iteration_remove [OF executeTrade_heap_frame])

interpretation buy: resting_side asks bids "\<lambda>xs ob. ob\<lparr>asks := xs\<rparr>" "\<lambda>p limit. limit < p"
  "executeTrade d" "matchBuy_iteration d" "matchBuy d" for d :: "'w deps"
proof (unfold_locales, goal_cases)
  case 1 show ?case by (rule matchBuy_unfold)
next
  case 2 then show ?case by (rule matchBuy_iteration_unfold)
next
  case 6 show ?case by (rule executeTrade_heap_frame)
next
  case (7 a s m q p)
  then show ?case using executeTrade_heap [of d m a s q p] by (auto simp: Let_def)
next
  case 17 show ?case by (rule set_book_entries_swap)
next
  case 18 then show ?case by (rule book_wf_distinct)
next
  case 19 then show ?case by (rule book_wf_asks_shrink)
next
  case 20 then show ?case using removeOrder_best_ask by simp
next
  case 21 then show ?case using removeOrder_best_ask by simp
qed (simp_all add: removeOrder_def)

interpretation sell: resting_side bids asks "\<lambda>xs ob. ob\<lparr>bids := xs\<rparr>" "\<lambda>p limit. p < limit"
  "\<lambda>m a s. executeTrade d m s a" "matchSell_iteration d" "matchSell d" for d :: "'w deps"
proof (unfold_locales, goal_cases)
  case 1 show ?case by (rule matchSell_unfold)
next
  case 2 then show ?case by (rule matchSell_iteration_unfold)
next
  case 6 show ?case by (rule executeTrade_heap_frame)
next
  case (7 a s m q p)
  then show ?case
    using executeTrade_heap [of d m s a q p] by (auto simp: Let_def) (metis fun_upd_twist)
next
  case 17 show ?case by (simp add: book_entries_def)
next
  case 18 then show ?case by (rule book_wf_distinct)
next
  case 19 then show ?case by (rule book_wf_bids_shrink)
next
  case 20 then show ?case using removeOrder_best_bid by simp
next
  case 21 then show ?case using removeOrder_best_bid by simp
qed (simp_all add: removeOrder_def)

end
