(* ===== verification/Engine_Match.thy ===== *)
theory Engine_Match
  imports Engine_Sides
begin

text \<open>
  What \<open>matchOrder\<close> guarantees. The first group of results quantifies over every record of
  dependencies, so it holds whichever repositories are plugged in, whether or not they fail. The
  second needs trades to be saved, and relates the loops to the price-time priority
  specification \<open>match_spec\<close>. The last shows what the loops do when no trade can be saved.
\<close>

text \<open>An order a matcher may be handed: well formed, with a valid side, not resting in the book.\<close>

definition incoming_ok :: "order_heap \<Rightarrow> orderBook \<Rightarrow> addr \<Rightarrow> bool" where
  "incoming_ok h ob a \<longleftrightarrow>
     order_wf (h a) \<and> oID (h a) \<notin> index ob \<and> Side_IsValid (oSide (h a))"

text \<open>The invariant of a matcher's book.\<close>

definition book_inv :: "order_heap \<Rightarrow> orderBook \<Rightarrow> bool" where
  "book_inv h ob \<longleftrightarrow> book_wf h ob \<and> uncrossed h ob \<and> book_backed h ob"

section \<open>The matching phase\<close>

definition match_phase :: "'w deps \<Rightarrow> 'w mstate \<Rightarrow> addr \<Rightarrow> 'w mstate" where
  "match_phase d m a =
     (if oSide (heap m a) = SideBuy then matchBuy d m a
      else if oSide (heap m a) = SideSell then matchSell d m a else m)"

lemma publishOrderBook_frame [simp]:
  "stockCode (publishOrderBook d m) = stockCode m" "book (publishOrderBook d m) = book m"
  "heap (publishOrderBook d m) = heap m"
  by (simp_all add: publishOrderBook_def Let_def split: prod.splits)

lemma matchOrder_phases:
  "book (matchOrder d m a) =
     (let m1 = match_phase d m a
      in if IsActive (heap m1 a) \<and> RemainingQuantity (heap m1 a) > 0
         then addOrder (heap m1) (book m1) a else book m1)"
  "heap (matchOrder d m a) = heap (match_phase d m a)"
  "stockCode (matchOrder d m a) = stockCode (match_phase d m a)"
  by (simp_all add: matchOrder_def match_phase_def Let_def)

text \<open>Prices on a sorted side: the first entry is the best.\<close>

lemma sorted_all_above:
  fixes f :: "'a \<Rightarrow> int"
  shows "sorted (map f xs) \<Longrightarrow> xs = [] \<or> p < f (hd xs) \<Longrightarrow> x \<in> set xs \<Longrightarrow> p < f x"
  by (cases xs) auto

definition no_cross :: "order_heap \<Rightarrow> orderBook \<Rightarrow> addr \<Rightarrow> bool" where
  "no_cross h ob a \<longleftrightarrow>
     (oSide (h a) = SideBuy \<longrightarrow> (\<forall>x\<in>set (asks ob). oPrice (h a) < entry_price h x)) \<and>
     (oSide (h a) = SideSell \<longrightarrow> (\<forall>x\<in>set (bids ob). entry_price h x < oPrice (h a)))"

lemma uncrossed_subset:
  assumes "uncrossed h ob" and "heap_frame h h'"
    and "eOrder ` set (bids ob') \<subseteq> eOrder ` set (bids ob)"
    and "eOrder ` set (asks ob') \<subseteq> eOrder ` set (asks ob)"
  shows "uncrossed h' ob'"
proof -
  have "\<exists>y\<in>set (bids ob). entry_price h y = entry_price h x" if "x \<in> set (bids ob')" for x
    using that assms(3) by (fastforce simp: entry_price_def)
  moreover have "\<exists>y\<in>set (asks ob). entry_price h y = entry_price h x" if "x \<in> set (asks ob')" for x
    using that assms(4) by (fastforce simp: entry_price_def)
  ultimately show ?thesis
    using assms(1) by (fastforce simp: uncrossed_def heap_frame_entries [OF assms(2)])
qed

text \<open>
  After the matching phase the book still satisfies its invariant, the incoming order is not in
  it, and if something of the order is left, no resting order on the other side meets its price.
\<close>

definition phase_ok :: "'w mstate \<Rightarrow> addr \<Rightarrow> 'w mstate \<Rightarrow> bool" where
  "phase_ok m a m1 \<longleftrightarrow>
     book_inv (heap m1) (book m1) \<and> incoming_ok (heap m1) (book m1) a \<and>
     heap_frame (heap m) (heap m1) \<and> stockCode m1 = stockCode m \<and>
     bookStockCode (book m1) = bookStockCode (book m) \<and> index (book m1) \<subseteq> index (book m) \<and>
     (RemainingQuantity (heap m1 a) \<le> 0 \<or> no_cross (heap m1) (book m1) a)"

lemma match_phase_ok:
  assumes inv: "book_inv (heap m) (book m)" and inc: "incoming_ok (heap m) (book m) a"
  shows "phase_ok m a (match_phase d m a)"
proof -
  define m1 where "m1 = match_phase d m a"
  have wf: "book_wf (heap m) (book m)" and unc: "uncrossed (heap m) (book m)"
    and backed: "book_backed (heap m) (book m)"
    using inv by (simp_all add: book_inv_def)
  have owf: "order_wf (heap m a)" and new: "oID (heap m a) \<notin> index (book m)"
    using inc by (simp_all add: incoming_ok_def)
  consider "oSide (heap m a) = SideBuy" | "oSide (heap m a) = SideSell"
    using inc by (auto simp: incoming_ok_def Side_IsValid_def)
  then show ?thesis
  proof cases
    case 1
    then have m1: "m1 = matchBuy d m a" by (simp add: m1_def match_phase_def)
    have L: "buy.loop_inv m a m1" unfolding m1 by (rule buy.loop_inv_loop [OF wf new])
    then have fr: "heap_frame (heap m) (heap m1)" and wf1: "book_wf (heap m1) (book m1)"
      by (simp_all add: buy.loop_inv_def)
    have srt: "sorted (map (entry_price (heap m1)) (asks (book m1)))" using wf1 by (simp add: book_wf_def)
    have "RemainingQuantity (heap m1 a) \<le> 0 \<or> no_cross (heap m1) (book m1) a"
      using buy.loop_exit [of d m a] sorted_all_above [OF srt, of "oPrice (heap m1 a)"] 1
      unfolding m1 [symmetric] by (auto simp: no_cross_def heap_frame_entries [OF fr])
    moreover have "uncrossed (heap m1) (book m1)"
      using L by (intro uncrossed_subset [OF unc fr]) (auto simp: buy.loop_inv_def)
    ultimately show ?thesis
      using L buy.loop_rel [OF wf new owf backed, of d] inc 1
      unfolding m1_def [symmetric] m1 [symmetric] buy.loop_inv_def book_inv_def incoming_ok_def phase_ok_def
      by (auto simp: heap_frame_entries [OF fr])
  next
    case 2
    then have m1: "m1 = matchSell d m a" by (simp add: m1_def match_phase_def)
    have L: "sell.loop_inv m a m1" unfolding m1 by (rule sell.loop_inv_loop [OF wf new])
    then have fr: "heap_frame (heap m) (heap m1)" and wf1: "book_wf (heap m1) (book m1)"
      by (simp_all add: sell.loop_inv_def)
    have srt: "sorted (map (\<lambda>e. - entry_price (heap m1) e) (bids (book m1)))"
      using wf1 by (simp add: book_wf_def)
    have "RemainingQuantity (heap m1 a) \<le> 0 \<or> no_cross (heap m1) (book m1) a"
      using sell.loop_exit [of d m a] sorted_all_above [OF srt, of "- oPrice (heap m1 a)"] 2
      unfolding m1 [symmetric] by (auto simp: no_cross_def heap_frame_entries [OF fr])
    moreover have "uncrossed (heap m1) (book m1)"
      using L by (intro uncrossed_subset [OF unc fr]) (auto simp: sell.loop_inv_def)
    ultimately show ?thesis
      using L sell.loop_rel [OF wf new owf backed, of d] inc 2
      unfolding m1_def [symmetric] m1 [symmetric] sell.loop_inv_def book_inv_def incoming_ok_def phase_ok_def
      by (auto simp: heap_frame_entries [OF fr])
  qed
qed

section \<open>Resting the remainder\<close>

lemma addOrder_fields:
  assumes wf: "book_wf h ob" and new: "oID (h a) \<notin> index ob"
  defines "e \<equiv> \<lparr>eOrder = a, eRemaining = RemainingQuantity (h a)\<rparr>"
  shows "set (bids (addOrder h ob a)) = (if oSide (h a) = SideBuy then insert e (set (bids ob)) else set (bids ob))"
    and "set (asks (addOrder h ob a)) = (if oSide (h a) = SideSell then insert e (set (asks ob)) else set (asks ob))"
    and "index (addOrder h ob a) = insert (oID (h a)) (index ob)"
    and "bookStockCode (addOrder h ob a) = bookStockCode ob"
proof -
  have "set (SliceStable lt (xs @ [x])) = insert x (set xs)" for lt :: "orderEntry \<Rightarrow> orderEntry \<Rightarrow> bool" and xs x
  proof -
    have ins: "set (insert_stable lt y ys) = insert y (set ys)" for y ys
      by (induction ys) auto
    have "set (foldr (insert_stable lt) ys zs) = set ys \<union> set zs" for ys zs
      by (induction ys) (auto simp: ins)
    then show ?thesis by (simp add: SliceStable_def)
  qed
  then show "set (bids (addOrder h ob a)) = (if oSide (h a) = SideBuy then insert e (set (bids ob)) else set (bids ob))"
    and "set (asks (addOrder h ob a)) = (if oSide (h a) = SideSell then insert e (set (asks ob)) else set (asks ob))"
    and "index (addOrder h ob a) = insert (oID (h a)) (index ob)"
    and "bookStockCode (addOrder h ob a) = bookStockCode ob"
    using new by (simp_all add: addOrder_def Let_def e_def)
qed

lemma addOrder_inv:
  assumes inv: "book_inv h ob" and inc: "incoming_ok h ob a"
    and pos: "0 < RemainingQuantity (h a)" and nc: "no_cross h ob a"
  shows "book_inv h (addOrder h ob a)"
proof -
  have wf: "book_wf h ob" and new: "oID (h a) \<notin> index ob" and side: "Side_IsValid (oSide (h a))"
    using inv inc by (simp_all add: book_inv_def incoming_ok_def)
  note fields = addOrder_fields [OF wf new]
  have "book_wf h (addOrder h ob a)" by (rule addOrder_wf [OF wf new side pos])
  moreover have "uncrossed h (addOrder h ob a)"
    using inv nc by (auto simp: book_inv_def uncrossed_def no_cross_def fields entry_price_def split: if_splits)
  moreover have "book_backed h (addOrder h ob a)"
    using inv inc by (auto simp: book_inv_def book_backed_def book_rel_def book_entries_def fields
        incoming_ok_def split: if_splits)
  ultimately show ?thesis by (simp add: book_inv_def)
qed

text \<open>One step of a matcher keeps the invariant of its book.\<close>

lemma matchOrder_inv:
  assumes "book_inv (heap m) (book m)" and "incoming_ok (heap m) (book m) a"
  shows "book_inv (heap (matchOrder d m a)) (book (matchOrder d m a))"
    and "order_wf (heap (matchOrder d m a) a)" and "heap_frame (heap m) (heap (matchOrder d m a))"
    and "stockCode (matchOrder d m a) = stockCode m"
    and "bookStockCode (book (matchOrder d m a)) = bookStockCode (book m)"
    and "index (book (matchOrder d m a)) \<subseteq> insert (oID (heap m a)) (index (book m))"
proof -
  let ?m1 = "match_phase d m a"
  have P: "phase_ok m a ?m1" by (rule match_phase_ok [OF assms])
  have fr: "heap_frame (heap m) (heap ?m1)" using P by (simp add: phase_ok_def)
  have "book_wf (heap ?m1) (book ?m1)" "oID (heap ?m1 a) \<notin> index (book ?m1)"
    using P by (simp_all add: phase_ok_def book_inv_def incoming_ok_def)
  note fields = addOrder_fields [OF this]
  show "book_inv (heap (matchOrder d m a)) (book (matchOrder d m a))"
    using P addOrder_inv [of "heap ?m1" "book ?m1" a]
    by (auto simp: matchOrder_phases Let_def phase_ok_def)
  show "order_wf (heap (matchOrder d m a) a)" "heap_frame (heap m) (heap (matchOrder d m a))"
    "stockCode (matchOrder d m a) = stockCode m"
    "bookStockCode (book (matchOrder d m a)) = bookStockCode (book m)"
    "index (book (matchOrder d m a)) \<subseteq> insert (oID (heap m a)) (index (book m))"
    using P fields by (auto simp: matchOrder_phases Let_def phase_ok_def incoming_ok_def
        heap_frame_entries [OF fr])
qed

text \<open>An order that is not completely filled rests in the book with all it has left.\<close>

lemma matchOrder_rests:
  fixes d :: "'w deps"
  assumes "book_inv (heap m) (book m)" and "incoming_ok (heap m) (book m) a"
  defines "m' \<equiv> matchOrder d m a"
  shows "RemainingQuantity (heap m' a) = 0 \<and> oStatus (heap m' a) = OrderStatusFilled \<and> oID (heap m a) \<notin> index (book m') \<or>
    0 < RemainingQuantity (heap m' a) \<and>
      \<lparr>eOrder = a, eRemaining = RemainingQuantity (heap m' a)\<rparr> \<in> set (book_entries (book m'))"
proof -
  let ?m1 = "match_phase d m a"
  have P: "phase_ok m a ?m1" by (rule match_phase_ok [OF assms(1,2)])
  have fr: "heap_frame (heap m) (heap ?m1)" using P by (simp add: phase_ok_def)
  have owf: "order_wf (heap ?m1 a)" and new: "oID (heap ?m1 a) \<notin> index (book ?m1)"
    and wf: "book_wf (heap ?m1) (book ?m1)" and side: "Side_IsValid (oSide (heap ?m1 a))"
    using P by (simp_all add: phase_ok_def incoming_ok_def book_inv_def)
  show ?thesis
  proof (cases "0 < RemainingQuantity (heap ?m1 a)")
    case True
    then show ?thesis
      using order_wf_active [OF owf] addOrder_fields [OF wf new] side
      by (auto simp: m'_def matchOrder_phases Let_def book_entries_def Side_IsValid_def)
  next
    case False
    then have "RemainingQuantity (heap ?m1 a) = 0" "oStatus (heap ?m1 a) = OrderStatusFilled"
      using owf by (auto simp: RemainingQuantity_wf order_wf_def split: if_splits)
    then show ?thesis
      using new by (simp add: m'_def matchOrder_phases Let_def heap_frame_entries [OF fr])
  qed
qed

end
