(* ===== verification/Engine_Trades.thy ===== *)
theory Engine_Trades
  imports Engine_Match
begin

text \<open>
  The trades a match produces. The locale \<open>trade_store\<close> is the contract a matcher relies on to
  record them: under an invariant of the world, saving a trade with a fresh identifier succeeds
  and appends it to the history, and nothing else writes the history. The in-memory
  repositories provide it (theory \<open>Exchange\<close>).
\<close>

definition trade_of :: "string \<Rightarrow> Order \<Rightarrow> Order \<Rightarrow> int64 \<Rightarrow> int64 \<Rightarrow> Trade \<Rightarrow> bool" where
  "trade_of stock b s q p tr \<longleftrightarrow>
     tStockCode tr = stock \<and> tBuyOrderID tr = oID b \<and> tSellOrderID tr = oID s \<and>
     tBuyerUserID tr = oUserID b \<and> tSellerUserID tr = oUserID s \<and>
     tQuantity tr = q \<and> tPrice tr = p"

lemma trade_of_frame:
  "heap_frame h h' \<Longrightarrow> trade_of st (h' b) (h' s) = trade_of st (h b) (h s)"
  by (simp add: trade_of_def heap_frame_entries fun_eq_iff)

text \<open>The fills of one side satisfy what filling the orders needs.\<close>

lemma book_wf_addresses:
  assumes "book_wf h ob"
  shows "distinct (map eOrder (book_entries ob))"
proof -
  have "map (entry_id h) (book_entries ob) = map (\<lambda>a. oID (h a)) (map eOrder (book_entries ob))"
    by (simp add: entry_id_def)
  then show ?thesis using assms by (metis book_wf_def distinct_map)
qed

lemma side_fills:
  fixes ok :: "orderEntry \<Rightarrow> bool"
  assumes wf: "book_wf h ob" and backed: "book_backed h ob" and new: "oID (h a) \<notin> index ob"
    and owf: "order_wf (h a)" and side: "distinct (map eOrder es)" "set es \<subseteq> set (book_entries ob)"
  defines "fs \<equiv> fills ok (RemainingQuantity (h a)) es"
  shows "distinct (map (eOrder \<circ> fst) fs)" and "a \<notin> (eOrder \<circ> fst) ` set fs"
    and "\<forall>(e, q)\<in>set fs. 0 < q \<and> order_wf (h (eOrder e)) \<and> q \<le> RemainingQuantity (h (eOrder e))"
    and "sum_list (map snd fs) \<le> RemainingQuantity (h a)"
proof -
  have pos: "\<forall>e\<in>set es. 0 < eRemaining e" using wf side(2) by (auto simp: book_wf_def)
  have "map (eOrder \<circ> fst) fs = map eOrder (take (length fs) es)"
    using fills_prefix [of ok "RemainingQuantity (h a)" es] unfolding fs_def by (metis map_map)
  then show "distinct (map (eOrder \<circ> fst) fs)" using side(1) by (metis distinct_take take_map)
  have fsp: "0 < q \<and> q \<le> eRemaining e \<and> e \<in> set (book_entries ob)" if "(e, q) \<in> set fs" for e q
    using fills_pos [OF pos, of e q] that side(2) by (auto simp: fs_def)
  then show "a \<notin> (eOrder \<circ> fst) ` set fs" using wf new by (auto simp: book_wf_def entry_id_def)
  show "\<forall>(e, q)\<in>set fs. 0 < q \<and> order_wf (h (eOrder e)) \<and> q \<le> RemainingQuantity (h (eOrder e))"
    using fsp backed by (fastforce simp: book_backed_def book_rel_def)
  have "0 \<le> RemainingQuantity (h a)" using owf by (simp add: RemainingQuantity_wf order_wf_def)
  then show "sum_list (map snd fs) \<le> RemainingQuantity (h a)"
    using fills_total [OF _ pos] by (simp add: fs_def)
qed

locale trade_store =
  fixes d :: "'w deps" and I :: "'w \<Rightarrow> bool" and trades :: "'w \<Rightarrow> Trade list"
  assumes save: "I w \<Longrightarrow> NewString d w = (u, w1) \<Longrightarrow> Now d w1 = (t, w2) \<Longrightarrow> tID tr = u \<Longrightarrow>
      \<exists>w3. tradeRepoSave d w2 tr = (None, w3) \<and> I w3 \<and> trades w3 = trades w @ [tr]"
    and now: "I w \<Longrightarrow> Now d w = (t, w') \<Longrightarrow> I w' \<and> trades w' = trades w"
    and order_update: "I w \<Longrightarrow> orderRepoUpdate d w ord = (r, w') \<Longrightarrow> I w' \<and> trades w' = trades w"
    and ticker_update: "I w \<Longrightarrow> marketUpdateTickerFromTrade d w c p q = (r', w') \<Longrightarrow> I w' \<and> trades w' = trades w"
    and book_update: "I w \<Longrightarrow> marketUpdateOrderBook d w b = (r, w') \<Longrightarrow> I w' \<and> trades w' = trades w"
    and publish: "I w \<Longrightarrow> I (busPublish d w ev) \<and> trades (busPublish d w ev) = trades w"
begin

lemma updateTicker_keeps:
  assumes "I (world m)"
  shows "I (world (updateTicker d m p q)) \<and> trades (world (updateTicker d m p q)) = trades (world m)"
proof (cases "marketUpdateTickerFromTrade d (world m) (stockCode m) p q")
  case (Pair r w)
  then show ?thesis
    using ticker_update [OF assms Pair] publish [of w] by (auto simp: updateTicker_def split: sum.split)
qed

lemma publishOrderBook_keeps:
  assumes "I (world m)"
  shows "I (world (publishOrderBook d m)) \<and> trades (world (publishOrderBook d m)) = trades (world m)"
proof -
  obtain t w where t: "Now d (world m) = (t, w)" by fastforce
  obtain r w' where "marketUpdateOrderBook d w ((getDepth (heap m) (book m) depthLevels)\<lparr>obUpdatedAt := t\<rparr>) = (r, w')"
    by fastforce
  then show ?thesis
    using now [OF assms t] book_update publish [of w'] t by (simp add: publishOrderBook_def) metis
qed

text \<open>An executed trade fills both orders and is recorded.\<close>

lemma executeTrade_ok:
  assumes "I (world m)" and "b \<noteq> s"
  shows "I (world (executeTrade d m b s q p)) \<and>
    (\<exists>t1 t2. heap (executeTrade d m b s q p) = (heap m)(b := Fill t1 (heap m b) q, s := Fill t2 (heap m s) q)) \<and>
    (\<exists>tr. trades (world (executeTrade d m b s q p)) = trades (world m) @ [tr] \<and>
       trade_of (stockCode m) (heap m b) (heap m s) q p tr)"
proof -
  obtain u w1 where u: "NewString d (world m) = (u, w1)" by fastforce
  obtain t w2 where t: "Now d w1 = (t, w2)" by fastforce
  define tr where "tr = \<lparr>tID = u, tStockCode = stockCode m,
      tBuyOrderID = oID (heap m b), tSellOrderID = oID (heap m s), tPrice = p, tQuantity = q,
      tBuyerUserID = oUserID (heap m b), tSellerUserID = oUserID (heap m s), tExecutedAt = t\<rparr>"
  obtain w3 where w3: "tradeRepoSave d w2 tr = (None, w3)" "I w3" "trades w3 = trades (world m) @ [tr]"
    using save [OF assms(1) u t, of tr] by (auto simp: tr_def)
  obtain t1 w4 where t1: "Now d w3 = (t1, w4)" by fastforce
  obtain t2 w5 where t2: "Now d w4 = (t2, w5)" by fastforce
  define h where "h = (heap m)(b := Fill t1 (heap m b) q, s := Fill t2 (heap m s) q)"
  obtain e1 w6 where e1: "orderRepoUpdate d w5 (h b) = (e1, w6)" by fastforce
  obtain e2 w7 where e2: "orderRepoUpdate d w6 (h s) = (e2, w7)" by fastforce
  have w7: "I w7 \<and> trades w7 = trades (world m) @ [tr]"
    using w3 now [OF _ t1] now [OF _ t2] order_update [OF _ e1] order_update [OF _ e2] by auto
  have tk: "I (world (updateTicker d (m\<lparr>heap := h, world := w7\<rparr>) p q)) \<and>
      trades (world (updateTicker d (m\<lparr>heap := h, world := w7\<rparr>) p q)) = trades (world m) @ [tr]"
    using updateTicker_keeps [of "m\<lparr>heap := h, world := w7\<rparr>"] w7 by simp
  have hs: "h s = Fill t2 (heap m s) q" "h b = Fill t1 (heap m b) q"
    using assms(2) by (simp_all add: h_def)
  define mt where "mt = updateTicker d (m\<lparr>heap := h, world := w7\<rparr>) p q"
  have "\<exists>ev1 ev2 ev3. executeTrade d m b s q p =
      mt\<lparr>world := busPublish d (busPublish d (busPublish d (world mt) ev1) ev2) ev3\<rparr>"
    using u t w3(1) t1 t2 e1 e2 assms(2)
    by (simp add: executeTrade_def tr_def [symmetric] h_def [symmetric] hs Let_def)
      (auto simp: mt_def)
  then obtain ev1 ev2 ev3 where ex: "executeTrade d m b s q p =
      mt\<lparr>world := busPublish d (busPublish d (busPublish d (world mt) ev1) ev2) ev3\<rparr>" by blast
  have "I (world (executeTrade d m b s q p)) \<and>
      trades (world (executeTrade d m b s q p)) = trades (world m) @ [tr]"
    using tk publish by (simp add: ex mt_def)
  moreover have "heap (executeTrade d m b s q p) =
      (heap m)(b := Fill t1 (heap m b) q, s := Fill t2 (heap m s) q)"
    by (simp add: ex mt_def h_def)
  moreover have "trade_of (stockCode m) (heap m b) (heap m s) q p tr"
    by (simp add: trade_of_def tr_def)
  ultimately show ?thesis by blast
qed

lemma reliable_buy: "buy.reliable d (\<lambda>m. I (world m)) a"
  using executeTrade_ok by (simp add: buy.reliable_def)

lemma reliable_sell: "sell.reliable d (\<lambda>m. I (world m)) a"
  unfolding sell.reliable_def
proof (intro conjI allI impI)
  fix m :: "'w mstate" and s q p
  assume "I (world m)" and "a \<noteq> s"
  then have "s \<noteq> a" by simp
  from executeTrade_ok [OF \<open>I (world m)\<close> this, of q p]
  show "I (world (executeTrade d m s a q p))"
    and "\<exists>t1 t2. heap (executeTrade d m s a q p) =
        (heap m)(a := Fill t1 (heap m a) q, s := Fill t2 (heap m s) q)"
    using \<open>a \<noteq> s\<close> by (auto, metis fun_upd_twist)
qed simp

text \<open>The trades of a sequence of fills, in the order they were executed.\<close>

lemma buy_fills_log:
  assumes "I (world m)" and "a \<notin> (eOrder \<circ> fst) ` set fs"
  shows "\<exists>ts. trades (world (buy.exec_fills d m a fs)) = trades (world m) @ ts \<and>
    list_all2 (\<lambda>(e, q). trade_of (stockCode m) (heap m a) (heap m (eOrder e)) q (entry_price (heap m) e)) fs ts"
  using executeTrade_ok assms
  by (intro buy.fills_log [where J = "\<lambda>m. I (world m)"]) (auto simp: trade_of_frame)

lemma sell_fills_log:
  assumes "I (world m)" and "a \<notin> (eOrder \<circ> fst) ` set fs"
  shows "\<exists>ts. trades (world (sell.exec_fills d m a fs)) = trades (world m) @ ts \<and>
    list_all2 (\<lambda>(e, q). trade_of (stockCode m) (heap m (eOrder e)) (heap m a) q (entry_price (heap m) e)) fs ts"
  using executeTrade_ok assms
  by (intro sell.fills_log [where J = "\<lambda>m. I (world m)" and T = "\<lambda>st b s. trade_of st s b"])
    (auto simp: trade_of_frame)

text \<open>
  The matching phase of a buy order, when trades are saved: the asks are served in price-time
  priority, every fill is one recorded trade at the resting order's price, and both orders of a
  trade are filled by its quantity.
\<close>

lemma matchBuy_trades:
  assumes I: "I (world m)" and inv: "book_inv (heap m) (book m)" and inc: "incoming_ok (heap m) (book m) a"
  defines "ok \<equiv> \<lambda>e. entry_price (heap m) e \<le> oPrice (heap m a)"
  defines "fs \<equiv> fills ok (RemainingQuantity (heap m a)) (asks (book m))"
  defines "m1 \<equiv> matchBuy d m a"
  shows "I (world m1)" and "filled_by (heap m) a fs (heap m1)"
    and "book m1 = (book m)\<lparr>asks := rest_of ok (RemainingQuantity (heap m a)) (asks (book m)),
           index := index (book m) - served (heap m) fs\<rparr>"
    and "\<exists>ts. trades (world m1) = trades (world m) @ ts \<and>
      list_all2 (\<lambda>(e, q). trade_of (stockCode m) (heap m a) (heap m (eOrder e)) q (entry_price (heap m) e)) fs ts"
proof -
  have wf: "book_wf (heap m) (book m)" and backed: "book_backed (heap m) (book m)"
    and owf: "order_wf (heap m a)" and new: "oID (heap m a) \<notin> index (book m)"
    using inv inc by (simp_all add: book_inv_def incoming_ok_def)
  have m1: "m1 = (buy.exec_fills d m a fs)\<lparr>book := (book m)\<lparr>
      index := index (book m) - served (heap m) fs, asks := rest_of ok (RemainingQuantity (heap m a)) (asks (book m))\<rparr>\<rparr>"
    using buy.loop_refines [OF reliable_buy I wf new owf]
    by (simp add: m1_def fs_def ok_def not_less)
  have "distinct (map eOrder (asks (book m)))" "set (asks (book m)) \<subseteq> set (book_entries (book m))"
    using book_wf_addresses [OF wf] by (auto simp: book_entries_def)
  note side = side_fills [OF wf backed new owf this, of ok, folded fs_def]
  have hp: "I (world (buy.exec_fills d m a fs)) \<and> filled_by (heap m) a fs (heap (buy.exec_fills d m a fs))"
    by (rule buy.exec_fills_heap [OF reliable_buy I owf]) (fact side)+
  then show "I (world m1)" "filled_by (heap m) a fs (heap m1)" by (simp_all add: m1)
  show "book m1 = (book m)\<lparr>asks := rest_of ok (RemainingQuantity (heap m a)) (asks (book m)),
           index := index (book m) - served (heap m) fs\<rparr>" by (simp add: m1)
  show "\<exists>ts. trades (world m1) = trades (world m) @ ts \<and>
      list_all2 (\<lambda>(e, q). trade_of (stockCode m) (heap m a) (heap m (eOrder e)) q (entry_price (heap m) e)) fs ts"
    using buy_fills_log [OF I side(2)] by (simp add: m1)
qed

text \<open>
  The matching phase of a sell order, when trades are saved: the bids are served in price-time
  priority, every fill is one recorded trade at the resting order's price, and both orders of a
  trade are filled by its quantity.
\<close>

lemma matchSell_trades:
  assumes I: "I (world m)" and inv: "book_inv (heap m) (book m)" and inc: "incoming_ok (heap m) (book m) a"
  defines "ok \<equiv> \<lambda>e. oPrice (heap m a) \<le> entry_price (heap m) e"
  defines "fs \<equiv> fills ok (RemainingQuantity (heap m a)) (bids (book m))"
  defines "m1 \<equiv> matchSell d m a"
  shows "I (world m1)" and "filled_by (heap m) a fs (heap m1)"
    and "book m1 = (book m)\<lparr>bids := rest_of ok (RemainingQuantity (heap m a)) (bids (book m)),
           index := index (book m) - served (heap m) fs\<rparr>"
    and "\<exists>ts. trades (world m1) = trades (world m) @ ts \<and>
      list_all2 (\<lambda>(e, q). trade_of (stockCode m) (heap m (eOrder e)) (heap m a) q (entry_price (heap m) e)) fs ts"
proof -
  have wf: "book_wf (heap m) (book m)" and backed: "book_backed (heap m) (book m)"
    and owf: "order_wf (heap m a)" and new: "oID (heap m a) \<notin> index (book m)"
    using inv inc by (simp_all add: book_inv_def incoming_ok_def)
  have m1: "m1 = (sell.exec_fills d m a fs)\<lparr>book := (book m)\<lparr>
      index := index (book m) - served (heap m) fs, bids := rest_of ok (RemainingQuantity (heap m a)) (bids (book m))\<rparr>\<rparr>"
    using sell.loop_refines [OF reliable_sell I wf new owf]
    by (simp add: m1_def fs_def ok_def not_less)
  have "distinct (map eOrder (bids (book m)))" "set (bids (book m)) \<subseteq> set (book_entries (book m))"
    using book_wf_addresses [OF wf] by (auto simp: book_entries_def)
  note side = side_fills [OF wf backed new owf this, of ok, folded fs_def]
  have hp: "I (world (sell.exec_fills d m a fs)) \<and> filled_by (heap m) a fs (heap (sell.exec_fills d m a fs))"
    by (rule sell.exec_fills_heap [OF reliable_sell I owf]) (fact side)+
  then show "I (world m1)" "filled_by (heap m) a fs (heap m1)" by (simp_all add: m1)
  show "book m1 = (book m)\<lparr>bids := rest_of ok (RemainingQuantity (heap m a)) (bids (book m)),
           index := index (book m) - served (heap m) fs\<rparr>" by (simp add: m1)
  show "\<exists>ts. trades (world m1) = trades (world m) @ ts \<and>
      list_all2 (\<lambda>(e, q). trade_of (stockCode m) (heap m (eOrder e)) (heap m a) q (entry_price (heap m) e)) fs ts"
    using sell_fills_log [OF I side(2)] by (simp add: m1)
qed

lemma match_phase_exact:
  assumes I: "I (world m)" and inv: "book_inv (heap m) (book m)" and inc: "incoming_ok (heap m) (book m) a"
    and ex: "book_exact (heap m) (book m)"
  shows "I (world (match_phase d m a))"
    and "book_exact (heap (match_phase d m a)) (book (match_phase d m a))"
  using buy.loop_exact [OF reliable_buy I _ _ _ ex] sell.loop_exact [OF reliable_sell I _ _ _ ex] inv inc I ex
  by (auto simp: match_phase_def book_inv_def incoming_ok_def)

text \<open>When trades are saved, the book and the orders agree about every remaining quantity.\<close>

lemma matchOrder_exact:
  assumes I: "I (world m)" and inv: "book_inv (heap m) (book m)" and inc: "incoming_ok (heap m) (book m) a"
    and ex: "book_exact (heap m) (book m)"
  shows "I (world (matchOrder d m a)) \<and> book_exact (heap (matchOrder d m a)) (book (matchOrder d m a))"
proof -
  let ?m1 = "match_phase d m a"
  note M = match_phase_exact [OF assms]
  have P: "phase_ok m a ?m1" by (rule match_phase_ok [OF inv inc])
  then have wf: "book_wf (heap ?m1) (book ?m1)" and new: "oID (heap ?m1 a) \<notin> index (book ?m1)"
    and owf: "order_wf (heap ?m1 a)"
    by (simp_all add: phase_ok_def book_inv_def incoming_ok_def)
  have "book_exact (heap ?m1) (addOrder (heap ?m1) (book ?m1) a)"
    using M(2) owf by (auto simp: book_exact_def book_rel_def book_entries_def addOrder_fields [OF wf new]
        split: if_splits)
  moreover have "I (world (matchOrder d m a))"
    using M(1) publishOrderBook_keeps by (simp add: matchOrder_def match_phase_def [symmetric] Let_def)
  ultimately show ?thesis using M(2) by (simp add: matchOrder_phases Let_def)
qed

end

section \<open>A trade store that fails\<close>

lemma executeTrade_unsaved:
  assumes fail: "\<And>w tr. fst (tradeRepoSave d w tr) \<noteq> None"
  shows "heap (executeTrade d m b s q p) = heap m"
proof -
  have "tradeRepoSave d w tr \<noteq> (None, w')" for w w' tr
    using fail [of w tr] by auto
  then show ?thesis
    by (simp add: executeTrade_def Let_def split: prod.split option.split)
qed

lemma matchBuy_unsaved:
  assumes "\<And>w tr. fst (tradeRepoSave d w tr) \<noteq> None"
    and "book_wf (heap m) (book m)" and "oID (heap m a) \<notin> index (book m)"
    and "0 < RemainingQuantity (heap m a)"
  shows "heap (matchBuy d m a) = heap m"
    and "asks (book (matchBuy d m a)) =
      dropWhile (\<lambda>e. entry_price (heap m) e \<le> oPrice (heap m a)) (asks (book m))"
  using buy.loop_unsaved [OF executeTrade_unsaved [OF assms(1)] assms(2-4)] by (simp_all add: not_less)

end
