(* ===== verification/Engine_Core.thy ===== *)
theory Engine_Core
  imports Engine_Match
begin

text \<open>
  The engine (src/internal/engine/engine.go) and the part of the matcher that faces it: one
  channel and one goroutine for each stock. The goroutines share the order heap and the world,
  and the engine's runs are the interleavings of their steps with submissions, with \<open>Stop\<close>
  and with whatever the rest of the program does to orders the engine does not hold.
\<close>

section \<open>Matchers and their channels\<close>

definition matcherChanCap :: nat where "matcherChanCap = 1000"

text \<open>A channel element is a pointer to an order, \<open>None\<close> being nil.\<close>

record Matcher =
  mcStock :: string
  mcBook :: orderBook
  mcCh :: "addr option channel"

definition newMatcher :: "string \<Rightarrow> Matcher" where
  "newMatcher code = \<lparr>mcStock = code, mcBook = newOrderBook code, mcCh = new_channel\<rparr>"

definition submit :: "Matcher \<Rightarrow> addr option \<Rightarrow> (bool \<times> Matcher) outcome" where
  "submit m a =
     (case try_send matcherChanCap (mcCh m) a of
        (Sent, ch) \<Rightarrow> Return (True, m\<lparr>mcCh := ch\<rparr>)
      | (Full, ch) \<Rightarrow> Return (False, m)
      | (SendPanic, ch) \<Rightarrow> Panic)"

text \<open>The body of the loop of \<open>run\<close> for one received element, and the loop over what is queued.\<close>

definition handle :: "'w deps \<Rightarrow> 'w mstate \<Rightarrow> addr option \<Rightarrow> 'w mstate" where
  "handle d m x = (case x of None \<Rightarrow> m | Some a \<Rightarrow> matchOrder d m a)"

primrec run :: "'w deps \<Rightarrow> 'w mstate \<Rightarrow> addr option list \<Rightarrow> 'w mstate" where
  "run d m [] = m"
| "run d m (x # xs) = run d (handle d m x) xs"

section \<open>The engine\<close>

text \<open>
  \<open>engExited\<close> holds the stocks whose goroutine has returned from \<open>run\<close>; \<open>engStopped\<close> is the
  state of \<open>stopOnce\<close>.
\<close>

record 'w Engine =
  engMatchers :: "string \<rightharpoonup> Matcher"
  engHeap :: order_heap
  engWorld :: 'w
  engStarted :: "string set"
  engExited :: "string set"
  engStopped :: bool

datatype submit_error = ErrUnknownStock | ErrQueueFull

definition NewEngine :: "Stock list \<Rightarrow> order_heap \<Rightarrow> 'w \<Rightarrow> 'w Engine" where
  "NewEngine stocks h w =
     \<lparr>engMatchers = foldl (\<lambda>ms s. ms(sCode s \<mapsto> newMatcher (sCode s))) Map.empty stocks,
      engHeap = h, engWorld = w, engStarted = {}, engExited = {}, engStopped = False\<rparr>"

definition Start :: "'w Engine \<Rightarrow> 'w Engine" where
  "Start e = e\<lparr>engStarted := dom (engMatchers e)\<rparr>"

text \<open>\<open>Stop\<close> closes the channels, once; its \<open>wg.Wait()\<close> returns when every goroutine has exited.\<close>

definition Stop_close :: "'w Engine \<Rightarrow> 'w Engine" where
  "Stop_close e =
     (if engStopped e then e
      else e\<lparr>engStopped := True,
             engMatchers := (\<lambda>c. map_option (\<lambda>m. m\<lparr>mcCh := (mcCh m)\<lparr>chClosed := True\<rparr>\<rparr>) (engMatchers e c))\<rparr>)"

definition Stop_returns :: "'w Engine \<Rightarrow> bool" where
  "Stop_returns e \<longleftrightarrow> engStopped e \<and> engStarted e \<subseteq> engExited e"

definition SubmitOrder :: "'w Engine \<Rightarrow> addr \<Rightarrow> ((submit_error + unit) \<times> 'w Engine) outcome" where
  "SubmitOrder e a =
     (case engMatchers e (oStockCode (engHeap e a)) of
        None \<Rightarrow> Return (Inl ErrUnknownStock, e)
      | Some m \<Rightarrow>
          (case submit m (Some a) of
             Panic \<Rightarrow> Panic
           | Return (False, m) \<Rightarrow> Return (Inl ErrQueueFull, e)
           | Return (True, m) \<Rightarrow>
               Return (Inr (), e\<lparr>engMatchers := (engMatchers e)(oStockCode (engHeap e a) \<mapsto> m)\<rparr>)))"

text \<open>One turn of the goroutine of a stock: receive and match, or leave the loop when closed and empty.\<close>

definition view :: "'w Engine \<Rightarrow> Matcher \<Rightarrow> 'w mstate" where
  "view e m = \<lparr>stockCode = mcStock m, book = mcBook m, heap = engHeap e, world = engWorld e\<rparr>"

definition run_turn :: "'w deps \<Rightarrow> string \<Rightarrow> 'w Engine \<Rightarrow> 'w Engine option" where
  "run_turn d code e =
     (case engMatchers e code of
        None \<Rightarrow> None
      | Some m \<Rightarrow>
          if code \<notin> engStarted e \<or> code \<in> engExited e then None
          else (case chQueue (mcCh m) of
                  x # xs \<Rightarrow>
                    let s = handle d (view e m) x
                    in Some (e\<lparr>engHeap := heap s, engWorld := world s,
                               engMatchers := (engMatchers e)(code \<mapsto>
                                 m\<lparr>mcBook := book s, mcCh := (mcCh m)\<lparr>chQueue := xs\<rparr>\<rparr>)\<rparr>)
                | [] \<Rightarrow> if chClosed (mcCh m) then Some (e\<lparr>engExited := insert code (engExited e)\<rparr>)
                        else None))"

section \<open>Runs of the engine\<close>

fun pointers :: "addr option list \<Rightarrow> addr list" where
  "pointers [] = []"
| "pointers (None # xs) = pointers xs"
| "pointers (Some a # xs) = a # pointers xs"

lemma set_pointers [simp]: "a \<in> set (pointers xs) \<longleftrightarrow> Some a \<in> set xs"
  by (induction xs rule: pointers.induct) auto

lemma pointers_append [simp]: "pointers (xs @ ys) = pointers xs @ pointers ys"
  by (induction xs rule: pointers.induct) auto

text \<open>The orders a matcher holds: queued or resting.\<close>

definition held :: "Matcher \<Rightarrow> addr set" where
  "held m = {a. Some a \<in> set (chQueue (mcCh m))} \<union> eOrder ` set (book_entries (mcBook m))"

definition held_ids :: "order_heap \<Rightarrow> Matcher \<Rightarrow> string set" where
  "held_ids h m = {oID (h a) |a. Some a \<in> set (chQueue (mcCh m))} \<union> index (mcBook m)"

text \<open>
  What the order service hands the engine: a well-formed order with a valid side, under an
  identifier that no held order of its stock has.
\<close>

definition admissible :: "'w Engine \<Rightarrow> addr \<Rightarrow> bool" where
  "admissible e a \<longleftrightarrow>
     order_wf (engHeap e a) \<and> Side_IsValid (oSide (engHeap e a)) \<and>
     (\<forall>m. engMatchers e (oStockCode (engHeap e a)) = Some m \<longrightarrow>
        oID (engHeap e a) \<notin> held_ids (engHeap e) m)"

text \<open>
  Steps: start, an accepted or refused submission, a turn of one goroutine, the closing half of
  stop, and the environment, which may change the world and every order the engine does not hold.
\<close>

inductive engine_step :: "'w deps \<Rightarrow> 'w Engine \<Rightarrow> 'w Engine \<Rightarrow> bool" for d where
  start: "engStarted e = {} \<Longrightarrow> engine_step d e (Start e)"
| submit: "admissible e a \<Longrightarrow> SubmitOrder e a = Return (r, e') \<Longrightarrow> engine_step d e e'"
| turn: "run_turn d code e = Some e' \<Longrightarrow> engine_step d e e'"
| stop: "engine_step d e (Stop_close e)"
| environment: "(\<And>code m a. engMatchers e code = Some m \<Longrightarrow> a \<in> held m \<Longrightarrow> h a = engHeap e a) \<Longrightarrow>
    engine_step d e (e\<lparr>engHeap := h, engWorld := w\<rparr>)"

inductive engine_reachable :: "'w deps \<Rightarrow> 'w Engine \<Rightarrow> bool" for d where
  init: "engine_reachable d (NewEngine stocks h w)"
| step: "engine_reachable d e \<Longrightarrow> engine_step d e e' \<Longrightarrow> engine_reachable d e'"

section \<open>The engine's invariant\<close>

definition matcher_inv :: "order_heap \<Rightarrow> string \<Rightarrow> Matcher \<Rightarrow> bool" where
  "matcher_inv h code m \<longleftrightarrow>
     mcStock m = code \<and> bookStockCode (mcBook m) = code \<and> book_inv h (mcBook m) \<and>
     (\<forall>a\<in>held m. oStockCode (h a) = code) \<and>
     (\<forall>a. Some a \<in> set (chQueue (mcCh m)) \<longrightarrow> incoming_ok h (mcBook m) a) \<and>
     distinct (map (\<lambda>a. oID (h a)) (pointers (chQueue (mcCh m)))) \<and>
     length (chQueue (mcCh m)) \<le> matcherChanCap"

definition engine_inv :: "'w Engine \<Rightarrow> bool" where
  "engine_inv e \<longleftrightarrow> (\<forall>code m. engMatchers e code = Some m \<longrightarrow> matcher_inv (engHeap e) code m)"

lemma matcher_inv_new: "matcher_inv h code (newMatcher code)"
  by (simp add: matcher_inv_def newMatcher_def new_channel_def newOrderBook_def held_def book_entries_def
      book_inv_def book_wf_def uncrossed_def book_backed_def book_rel_def)

lemma NewEngine_matchers:
  "engMatchers (NewEngine stocks h w) =
     (\<lambda>code. if code \<in> sCode ` set stocks then Some (newMatcher code) else None)"
proof -
  have "foldl (\<lambda>ms s. ms(sCode s \<mapsto> newMatcher (sCode s))) f stocks =
      (\<lambda>code. if code \<in> sCode ` set stocks then Some (newMatcher code) else f code)" for f
    by (induction stocks arbitrary: f) auto
  then show ?thesis by (simp add: NewEngine_def)
qed

lemma engine_inv_New: "engine_inv (NewEngine stocks h w)"
  by (auto simp: engine_inv_def NewEngine_matchers matcher_inv_new split: if_splits)

text \<open>The invariant of a matcher only looks at the orders it holds.\<close>

lemma matcher_inv_cong:
  assumes "\<And>a. a \<in> held m \<Longrightarrow> h a = h' a"
  shows "matcher_inv h code m = matcher_inv h' code m"
proof -
  have q: "Some a \<in> set (chQueue (mcCh m)) \<Longrightarrow> h a = h' a" for a
    using assms by (simp add: held_def)
  have b: "e \<in> set (book_entries (mcBook m)) \<Longrightarrow> h (eOrder e) = h' (eOrder e)" for e
    using assms by (simp add: held_def)
  have bs: "e \<in> set (bids (mcBook m)) \<Longrightarrow> h (eOrder e) = h' (eOrder e)"
    "e \<in> set (asks (mcBook m)) \<Longrightarrow> h (eOrder e) = h' (eOrder e)" for e
    using b by (auto simp: book_entries_def)
  have e: "e \<in> set (book_entries (mcBook m)) \<Longrightarrow> entry_price h e = entry_price h' e \<and> entry_id h e = entry_id h' e" for e
    using b by (simp add: entry_price_def entry_id_def)
  have mp: "map (entry_price h) (asks (mcBook m)) = map (entry_price h') (asks (mcBook m))"
    "map (\<lambda>e. - entry_price h e) (bids (mcBook m)) = map (\<lambda>e. - entry_price h' e) (bids (mcBook m))"
    "map (entry_id h) (book_entries (mcBook m)) = map (entry_id h') (book_entries (mcBook m))"
    "entry_id h ` set (book_entries (mcBook m)) = entry_id h' ` set (book_entries (mcBook m))"
    using e by (auto simp: book_entries_def)
  have "book_wf h (mcBook m) = book_wf h' (mcBook m)"
    unfolding book_wf_def mp using bs by simp
  moreover have "uncrossed h (mcBook m) = uncrossed h' (mcBook m)"
    using e by (auto simp: uncrossed_def book_entries_def)
  moreover have "book_backed h (mcBook m) = book_backed h' (mcBook m)"
    using b by (simp add: book_backed_def book_rel_def)
  moreover have "map (\<lambda>a. oID (h a)) (pointers (chQueue (mcCh m))) =
      map (\<lambda>a. oID (h' a)) (pointers (chQueue (mcCh m)))"
    using q by simp
  moreover have "(\<forall>a. Some a \<in> set (chQueue (mcCh m)) \<longrightarrow> incoming_ok h (mcBook m) a) =
      (\<forall>a. Some a \<in> set (chQueue (mcCh m)) \<longrightarrow> incoming_ok h' (mcBook m) a)"
    using q by (auto simp: incoming_ok_def)
  moreover have "(\<forall>a\<in>held m. oStockCode (h a) = code) = (\<forall>a\<in>held m. oStockCode (h' a) = code)"
    using assms by simp
  ultimately show ?thesis by (simp only: matcher_inv_def book_inv_def)
qed

text \<open>What one turn does to the orders: it writes only orders of its own stock.\<close>

lemma match_phase_local:
  assumes "book_inv (heap m) (book m)" and "incoming_ok (heap m) (book m) a"
    and "x \<noteq> a" and "x \<notin> eOrder ` set (book_entries (book m))"
  shows "heap (match_phase d m a) x = heap m x"
proof -
  have "book_wf (heap m) (book m)" "oID (heap m a) \<notin> index (book m)"
    using assms(1,2) by (simp_all add: book_inv_def incoming_ok_def)
  then show ?thesis
    using buy.loop_local [OF buy.loop_inv_start, of m a x d] sell.loop_local [OF sell.loop_inv_start, of m a x d] assms(3,4)
    by (auto simp: match_phase_def book_entries_def)
qed

lemma match_phase_entries:
  assumes "book_inv (heap m) (book m)" and "incoming_ok (heap m) (book m) a"
  shows "eOrder ` set (book_entries (book (match_phase d m a))) \<subseteq> eOrder ` set (book_entries (book m))"
proof -
  have "book_wf (heap m) (book m)" "oID (heap m a) \<notin> index (book m)"
    using assms(1,2) by (simp_all add: book_inv_def incoming_ok_def)
  then show ?thesis
    using buy.loop_inv_loop [of m a d] sell.loop_inv_loop [of m a d]
    by (auto simp: match_phase_def book_entries_def buy.loop_inv_def sell.loop_inv_def)
qed

lemma matchOrder_entries:
  assumes "book_inv (heap m) (book m)" and "incoming_ok (heap m) (book m) a"
  shows "eOrder ` set (book_entries (book (matchOrder d m a))) \<subseteq> insert a (eOrder ` set (book_entries (book m)))"
proof -
  let ?m1 = "match_phase d m a"
  have "book_wf (heap ?m1) (book ?m1)" "oID (heap ?m1 a) \<notin> index (book ?m1)"
    using match_phase_ok [OF assms, of d] by (simp_all add: phase_ok_def book_inv_def incoming_ok_def)
  note fields = addOrder_fields [OF this]
  have "eOrder ` set (book_entries (addOrder (heap ?m1) (book ?m1) a)) \<subseteq>
      insert a (eOrder ` set (book_entries (book ?m1)))"
    using fields by (auto simp: book_entries_def split: if_splits)
  then show ?thesis
    using match_phase_entries [OF assms, of d]
    unfolding matchOrder_phases Let_def by (cases "IsActive (heap ?m1 a) \<and> 0 < RemainingQuantity (heap ?m1 a)") auto
qed

lemma matcher_turn_inv:
  fixes d :: "'w deps"
  assumes inv: "matcher_inv (engHeap e) code m" and q: "chQueue (mcCh m) = x # xs"
  defines "s \<equiv> handle d (view e m) x"
  shows "matcher_inv (heap s) code (m\<lparr>mcBook := book s, mcCh := (mcCh m)\<lparr>chQueue := xs\<rparr>\<rparr>)"
    and "oStockCode (engHeap e y) \<noteq> code \<Longrightarrow> heap s y = engHeap e y"
proof -
  have "matcher_inv (heap s) code (m\<lparr>mcBook := book s, mcCh := (mcCh m)\<lparr>chQueue := xs\<rparr>\<rparr>) \<and>
    (oStockCode (engHeap e y) \<noteq> code \<longrightarrow> heap s y = engHeap e y)"
  proof (cases x)
    case None
    then show ?thesis
      using inv q by (auto simp: s_def handle_def view_def matcher_inv_def held_def)
  next
    case (Some a)
    define v where "v = view e m"
    have s: "s = matchOrder d v a" by (simp add: s_def handle_def Some v_def)
    have bi: "book_inv (heap v) (book v)" and inc: "incoming_ok (heap v) (book v) a"
      using inv q by (auto simp: matcher_inv_def v_def view_def Some)
    have sc: "\<And>y. y \<in> held m \<Longrightarrow> oStockCode (heap v y) = code"
      using inv by (simp add: matcher_inv_def v_def view_def)
    note M = matchOrder_inv [OF bi inc, of d, folded s]
    have loc: "heap s y = heap v y" if "y \<noteq> a" "y \<notin> eOrder ` set (book_entries (mcBook m))" for y
      using match_phase_local [OF bi inc that(1), of d] that(2)
      by (simp add: s matchOrder_phases v_def view_def)
    have ent: "eOrder ` set (book_entries (book s)) \<subseteq> insert a (eOrder ` set (book_entries (mcBook m)))"
      using matchOrder_entries [OF bi inc, of d] by (simp add: s v_def view_def)
    have later: "heap s y = heap v y \<and> oID (heap v y) \<noteq> oID (heap v a) \<and> incoming_ok (heap v) (mcBook m) y"
      if "Some y \<in> set xs" for y
    proof -
      have "y \<in> set (pointers xs)" using that by simp
      then have "oID (engHeap e y) \<in> (\<lambda>a. oID (engHeap e a)) ` set (pointers xs)" by (rule imageI)
      then have id: "oID (heap v y) \<noteq> oID (heap v a)"
        using inv q by (auto simp: matcher_inv_def Some v_def view_def simp del: set_pointers)
      have ok: "incoming_ok (heap v) (mcBook m) y"
        using inv q that by (auto simp: matcher_inv_def Some v_def view_def)
      moreover have "y \<noteq> a" using id by auto
      moreover have "y \<notin> eOrder ` set (book_entries (mcBook m))"
        using ok bi by (auto simp: incoming_ok_def book_inv_def book_wf_def entry_id_def v_def view_def)
      ultimately show ?thesis using loc id by simp
    qed
    have "matcher_inv (heap s) code (m\<lparr>mcBook := book s, mcCh := (mcCh m)\<lparr>chQueue := xs\<rparr>\<rparr>)"
      unfolding matcher_inv_def
    proof (intro conjI)
      show "\<forall>y\<in>held (m\<lparr>mcBook := book s, mcCh := (mcCh m)\<lparr>chQueue := xs\<rparr>\<rparr>). oStockCode (heap s y) = code"
      proof
        fix y
        assume "y \<in> held (m\<lparr>mcBook := book s, mcCh := (mcCh m)\<lparr>chQueue := xs\<rparr>\<rparr>)"
        then have "y \<in> held m" using ent q by (auto simp: held_def Some)
        then show "oStockCode (heap s y) = code" using sc by (simp add: heap_frame_entries [OF M(3)])
      qed
      show "\<forall>y. Some y \<in> set (chQueue (mcCh (m\<lparr>mcBook := book s, mcCh := (mcCh m)\<lparr>chQueue := xs\<rparr>\<rparr>))) \<longrightarrow>
          incoming_ok (heap s) (mcBook (m\<lparr>mcBook := book s, mcCh := (mcCh m)\<lparr>chQueue := xs\<rparr>\<rparr>)) y"
        using later M(6) by (auto simp: incoming_ok_def v_def view_def)
      have "map (\<lambda>a. oID (heap s a)) (pointers xs) = map (\<lambda>a. oID (engHeap e a)) (pointers xs)"
        using later by (simp add: v_def view_def)
      then show "distinct (map (\<lambda>a. oID (heap s a))
          (pointers (chQueue (mcCh (m\<lparr>mcBook := book s, mcCh := (mcCh m)\<lparr>chQueue := xs\<rparr>\<rparr>)))))"
        using inv q by (auto simp: matcher_inv_def Some simp del: map_eq_conv)
    qed (use inv q M in \<open>auto simp: matcher_inv_def v_def view_def\<close>)
    moreover have "heap s y = engHeap e y" if "oStockCode (engHeap e y) \<noteq> code"
      using loc [of y] sc [of y] sc [of a] q that by (auto simp: Some held_def v_def view_def)
    ultimately show ?thesis by blast
  qed
  then show "matcher_inv (heap s) code (m\<lparr>mcBook := book s, mcCh := (mcCh m)\<lparr>chQueue := xs\<rparr>\<rparr>)"
    and "oStockCode (engHeap e y) \<noteq> code \<Longrightarrow> heap s y = engHeap e y" by auto
qed

lemma engine_inv_turn:
  assumes inv: "engine_inv e" and turn: "run_turn d code e = Some e'"
  shows "engine_inv e'"
proof -
  obtain m where m: "engMatchers e code = Some m"
    using turn by (auto simp: run_turn_def split: option.splits)
  have mi: "matcher_inv (engHeap e) code m" using inv m by (simp add: engine_inv_def)
  show ?thesis
  proof (cases "chQueue (mcCh m)")
    case Nil
    then have "engMatchers e' = engMatchers e \<and> engHeap e' = engHeap e"
      using turn m by (auto simp: run_turn_def split: if_splits)
    then show ?thesis using inv by (simp add: engine_inv_def)
  next
    case (Cons x xs)
    define s where "s = handle d (view e m) x"
    note T = matcher_turn_inv [OF mi Cons, where d = d, folded s_def]
    have e': "engHeap e' = heap s" "engMatchers e' =
        (engMatchers e)(code \<mapsto> m\<lparr>mcBook := book s, mcCh := (mcCh m)\<lparr>chQueue := xs\<rparr>\<rparr>)"
      using turn m Cons by (auto simp: run_turn_def s_def Let_def split: if_splits)
    have "matcher_inv (heap s) c m'" if "c \<noteq> code" "engMatchers e c = Some m'" for c m'
    proof -
      have mi': "matcher_inv (engHeap e) c m'" using inv that(2) by (simp add: engine_inv_def)
      then have "engHeap e y = heap s y" if "y \<in> held m'" for y
        using T(2) [of y] that \<open>c \<noteq> code\<close> by (simp add: matcher_inv_def)
      then show ?thesis using mi' matcher_inv_cong [of m' "engHeap e" "heap s"] by blast
    qed
    then show ?thesis using T(1) by (auto simp: engine_inv_def e')
  qed
qed

lemma SubmitOrder_Return:
  assumes "SubmitOrder e a = Return (r, e')"
  shows "e' = e \<or> (\<exists>m. engMatchers e (oStockCode (engHeap e a)) = Some m \<and> \<not> chClosed (mcCh m) \<and>
     length (chQueue (mcCh m)) < matcherChanCap \<and> r = Inr () \<and>
     e' = e\<lparr>engMatchers := (engMatchers e)(oStockCode (engHeap e a) \<mapsto>
            m\<lparr>mcCh := (mcCh m)\<lparr>chQueue := chQueue (mcCh m) @ [Some a]\<rparr>\<rparr>)\<rparr>)"
  using assms
  by (auto simp: SubmitOrder_def submit_def try_send_def split: option.splits outcome.splits prod.splits
      bool.splits send_result.splits if_splits)

lemma engine_inv_submit:
  assumes inv: "engine_inv e" and adm: "admissible e a" and sub: "SubmitOrder e a = Return (r, e')"
  shows "engine_inv e'"
  using SubmitOrder_Return [OF sub]
proof (elim disjE exE conjE)
  fix m
  assume m: "engMatchers e (oStockCode (engHeap e a)) = Some m" and "length (chQueue (mcCh m)) < matcherChanCap"
    and e': "e' = e\<lparr>engMatchers := (engMatchers e)(oStockCode (engHeap e a) \<mapsto>
            m\<lparr>mcCh := (mcCh m)\<lparr>chQueue := chQueue (mcCh m) @ [Some a]\<rparr>\<rparr>)\<rparr>"
  then have "matcher_inv (engHeap e) (oStockCode (engHeap e a)) (m\<lparr>mcCh := (mcCh m)\<lparr>chQueue := chQueue (mcCh m) @ [Some a]\<rparr>\<rparr>)"
    using inv adm by (auto simp: engine_inv_def matcher_inv_def admissible_def held_def held_ids_def incoming_ok_def)
  then show ?thesis using inv by (auto simp: engine_inv_def e')
qed (use inv in simp)

lemma engine_inv_step: "engine_step d e e' \<Longrightarrow> engine_inv e \<Longrightarrow> engine_inv e'"
proof (induction rule: engine_step.induct)
  case (start e)
  then show ?case by (simp add: engine_inv_def Start_def)
next
  case (submit e a r e')
  then show ?case by (blast intro: engine_inv_submit)
next
  case (turn code e e')
  then show ?case by (blast intro: engine_inv_turn)
next
  case (stop e)
  then show ?case by (auto simp: engine_inv_def Stop_close_def matcher_inv_def held_def)
next
  case (environment e h w)
  have "matcher_inv h c m" if "engMatchers e c = Some m" for c m
    using environment that matcher_inv_cong [of m "engHeap e" h] by (fastforce simp: engine_inv_def)
  then show ?case by (simp add: engine_inv_def)
qed

lemma engine_reachable_inv: "engine_reachable d e \<Longrightarrow> engine_inv e"
  by (induction rule: engine_reachable.induct) (auto intro: engine_inv_New engine_inv_step)

section \<open>Stopping\<close>

text \<open>Turns of one goroutine after its channel is closed: it matches all that is queued, in order, and exits.\<close>

fun turns :: "'w deps \<Rightarrow> string \<Rightarrow> nat \<Rightarrow> 'w Engine \<Rightarrow> 'w Engine option" where
  "turns d code 0 e = Some e"
| "turns d code (Suc n) e = (case run_turn d code e of None \<Rightarrow> None | Some e' \<Rightarrow> turns d code n e')"

definition drained :: "'w deps \<Rightarrow> string \<Rightarrow> Matcher \<Rightarrow> 'w Engine \<Rightarrow> 'w Engine" where
  "drained d code m e =
     (let s = run d (view e m) (chQueue (mcCh m))
      in e\<lparr>engHeap := heap s, engWorld := world s, engExited := insert code (engExited e),
           engMatchers := (engMatchers e)(code \<mapsto>
             m\<lparr>mcBook := book s, mcCh := (mcCh m)\<lparr>chQueue := []\<rparr>\<rparr>)\<rparr>)"

lemma handle_stock [simp]: "stockCode (handle d m x) = stockCode m"
  by (cases x) (simp_all add: handle_def matchOrder_def Let_def buy.loop_stock sell.loop_stock)

lemma drain:
  assumes "engMatchers e code = Some m" and "code \<in> engStarted e" and "code \<notin> engExited e"
    and "chClosed (mcCh m)"
  shows "turns d code (Suc (length (chQueue (mcCh m)))) e = Some (drained d code m e)"
  using assms
proof (induction "chQueue (mcCh m)" arbitrary: m e)
  case Nil
  have "view e m = \<lparr>stockCode = mcStock m, book = mcBook m, heap = engHeap e, world = engWorld e\<rparr>"
    by (simp add: view_def)
  then show ?case
    using Nil by (simp add: run_turn_def drained_def Let_def map_upd_triv flip: Nil.hyps)
next
  case (Cons x xs)
  define s where "s = handle d (view e m) x"
  define m' where "m' = m\<lparr>mcBook := book s, mcCh := (mcCh m)\<lparr>chQueue := xs\<rparr>\<rparr>"
  define e' where "e' = e\<lparr>engHeap := heap s, engWorld := world s, engMatchers := (engMatchers e)(code \<mapsto> m')\<rparr>"
  have "stockCode s = mcStock m" by (simp add: s_def view_def)
  then have v: "view e' m' = s" by (simp add: view_def e'_def m'_def)
  have "run_turn d code e = Some e'"
    using Cons(3-6) by (simp add: run_turn_def s_def e'_def m'_def Let_def flip: Cons.hyps(2))
  moreover have "turns d code (Suc (length (chQueue (mcCh m')))) e' = Some (drained d code m' e')"
    by (rule Cons.hyps(1)) (use Cons.prems in \<open>simp_all add: m'_def e'_def\<close>)
  moreover have "drained d code m' e' = drained d code m e"
    unfolding drained_def v using Cons.hyps(2) [symmetric]
    by (simp add: s_def [symmetric] Let_def) (simp add: m'_def e'_def)
  ultimately show ?case
    using Cons.hyps(2) [symmetric] by (simp add: m'_def del: turns.simps) (simp add: m'_def)
qed

text \<open>After \<open>Stop\<close> has closed the channels, a submission for a known stock panics.\<close>

lemma SubmitOrder_stopped:
  assumes "engMatchers e (oStockCode (engHeap e a)) = Some m" and "\<not> engStopped e"
  shows "SubmitOrder (Stop_close e) a = Panic"
  using assms by (simp add: SubmitOrder_def Stop_close_def submit_def try_send_def)

end
