(* ===== verification/Engine_Depth.thy ===== *)
theory Engine_Depth
  imports Engine_Book
begin

text \<open>
  The depth snapshot of a book (\<open>aggregateLevels\<close> and \<open>getDepth\<close> of
  src/internal/engine/orderbook.go) against its specification: one level for each distinct
  price, best price first, carrying the total quantity and the number of the orders at it.
\<close>

definition level_at :: "order_heap \<Rightarrow> orderEntry list \<Rightarrow> int64 \<Rightarrow> PriceLevel" where
  "level_at h es p =
     (let at_p = filter (\<lambda>e. entry_price h e = p) es
      in \<lparr>plPrice = p, plQuantity = wrap64 (sum_list (map eRemaining at_p)),
          plCount = wrap64 (int (length at_p))\<rparr>)"

definition depth_spec :: "order_heap \<Rightarrow> orderEntry list \<Rightarrow> int64 \<Rightarrow> PriceLevel list" where
  "depth_spec h es maxLevels =
     (let levels = map (level_at h es) (remdups_adj (map (entry_price h) es))
      in if 0 < maxLevels then take (nat maxLevels) levels else levels)"

definition bump :: "orderEntry list \<Rightarrow> PriceLevel \<Rightarrow> PriceLevel" where
  "bump es l = l\<lparr>plQuantity := wrap64 (plQuantity l + sum_list (map eRemaining es)),
                  plCount := wrap64 (plCount l + int (length es))\<rparr>"

lemma aggregate_same_price:
  assumes "\<forall>e\<in>set es. 0 < eRemaining e \<and> entry_price h e = plPrice l"
    and "in64 (plQuantity l)" and "in64 (plCount l)"
  shows "aggregate_loop h n (es @ es') (ls @ [l]) = aggregate_loop h n es' (ls @ [bump es l])"
  using assms
proof (induction es arbitrary: l)
  case Nil
  then show ?case by (simp add: bump_def wrap64_id)
next
  case (Cons e es)
  let ?l = "l\<lparr>plQuantity := add64 (plQuantity l) (eRemaining e), plCount := add64 (plCount l) 1\<rparr>"
  have "aggregate_loop h n ((e # es) @ es') (ls @ [l]) = aggregate_loop h n (es @ es') (ls @ [?l])"
    using Cons.prems(1) by simp
  also have "\<dots> = aggregate_loop h n es' (ls @ [bump es ?l])"
    using Cons.prems by (intro Cons.IH) (auto simp: add64_def wrap64_in64)
  also have "bump es ?l = bump (e # es) l"
    by (simp add: bump_def add64_def wrap64_add_left) (simp add: add.assoc)
  finally show ?case .
qed

text \<open>The levels of a slice whose entries of one price are adjacent.\<close>

function levels_of :: "order_heap \<Rightarrow> orderEntry list \<Rightarrow> PriceLevel list" where
  "levels_of h [] = []"
| "levels_of h (e # es) =
     (let p = entry_price h e
      in bump (takeWhile (\<lambda>x. entry_price h x = p) es) \<lparr>plPrice = p, plQuantity = eRemaining e, plCount = 1\<rparr>
         # levels_of h (dropWhile (\<lambda>x. entry_price h x = p) es))"
  by pat_completeness auto
termination
  by (relation "measure (length \<circ> snd)") (auto simp: less_Suc_eq_le length_dropWhile_le)

lemma aggregate_levels:
  assumes "\<forall>e\<in>set es. 0 < eRemaining e \<and> in64 (eRemaining e)"
    and "levels \<noteq> [] \<Longrightarrow> es \<noteq> [] \<Longrightarrow> plPrice (last levels) \<noteq> entry_price h (hd es)"
  shows "aggregate_loop h n es levels =
    levels @ (if 0 < n then take (nat (n - int (length levels))) (levels_of h es) else levels_of h es)"
  using assms
proof (induction h es arbitrary: levels rule: levels_of.induct)
  case (1 h)
  then show ?case by simp
next
  case (2 h e es)
  define p where "p = entry_price h e"
  define same where "same = takeWhile (\<lambda>x. entry_price h x = p) es"
  define more where "more = dropWhile (\<lambda>x. entry_price h x = p) es"
  define l where "l = \<lparr>plPrice = p, plQuantity = eRemaining e, plCount = 1\<rparr>"
  have es: "es = same @ more" by (simp add: same_def more_def)
  have lv: "levels_of h (e # es) = bump same l # levels_of h more"
    by (simp add: p_def same_def more_def l_def Let_def)
  have open_level: "aggregate_loop h n (e # es) levels =
      (if 0 < n \<and> n \<le> int (length levels) then levels else aggregate_loop h n es (levels @ [l]))"
    using 2(2,3) by (auto simp: l_def p_def)
  have "aggregate_loop h n es (levels @ [l]) = aggregate_loop h n more (levels @ [bump same l])"
    unfolding es
  proof (rule aggregate_same_price)
    show "\<forall>e\<in>set same. 0 < eRemaining e \<and> entry_price h e = plPrice l"
      using 2(2) set_takeWhileD [of _ _ es] by (fastforce simp: same_def l_def)
  qed (use 2(2) in \<open>auto simp: l_def in64_def\<close>)
  also have "\<dots> = (levels @ [bump same l]) @
      (if 0 < n then take (nat (n - int (length (levels @ [bump same l])))) (levels_of h more) else levels_of h more)"
  proof (rule 2(1) [OF p_def, folded more_def])
    show "\<forall>e\<in>set more. 0 < eRemaining e \<and> in64 (eRemaining e)"
      using 2(2) set_dropWhileD [of _ _ es] by (auto simp: more_def)
    assume "more \<noteq> []"
    then show "plPrice (last (levels @ [bump same l])) \<noteq> entry_price h (hd more)"
      using hd_dropWhile [of "\<lambda>x. entry_price h x = p" es] by (auto simp: more_def bump_def l_def)
  qed
  finally have "aggregate_loop h n (e # es) levels =
      (if 0 < n \<and> n \<le> int (length levels) then levels
       else levels @ bump same l # (if 0 < n then take (nat (n - int (length levels) - 1)) (levels_of h more)
                                    else levels_of h more))"
    unfolding open_level by (simp add: algebra_simps)
  moreover have "nat (n - int (length levels)) = Suc (nat (n - int (length levels) - 1))"
    if "\<not> n \<le> int (length levels)" using that by simp
  ultimately show ?case unfolding lv by simp
qed

lemma takeWhile_filter_eq:
  assumes "sorted (map f xs)" and "\<forall>x\<in>set xs. (c::int) \<le> f x"
  shows "takeWhile (\<lambda>x. f x = c) xs = filter (\<lambda>x. f x = c) xs \<and>
    dropWhile (\<lambda>x. f x = c) xs = filter (\<lambda>x. f x \<noteq> c) xs"
  using assms
proof (induction xs)
  case (Cons x xs)
  show ?case
  proof (cases "f x = c")
    case True
    then show ?thesis using Cons by simp
  next
    case False
    then have "\<forall>y\<in>set xs. f y \<noteq> c" using Cons.prems by force
    then show ?thesis using False by (simp add: filter_empty_conv filter_id_conv)
  qed
qed simp

lemma remdups_adj_Cons_dropWhile:
  "remdups_adj (x # xs) = x # remdups_adj (dropWhile (\<lambda>y. y = x) xs)"
  by (induction xs) auto

lemma levels_of_spec:
  assumes "sorted (map (\<lambda>e. s * entry_price h e) es)" and "s \<noteq> (0::int)"
    and "\<forall>e\<in>set es. in64 (eRemaining e)"
  shows "levels_of h es = map (level_at h es) (remdups_adj (map (entry_price h) es))"
  using assms
proof (induction h es rule: levels_of.induct)
  case (1 h)
  then show ?case by simp
next
  case (2 h e es)
  define p where "p = entry_price h e"
  define same where "same = filter (\<lambda>x. entry_price h x = p) es"
  define more where "more = filter (\<lambda>x. entry_price h x \<noteq> p) es"
  have eq: "s * entry_price h x = s * p \<longleftrightarrow> entry_price h x = p" for x using 2(3) by simp
  have split: "takeWhile (\<lambda>x. entry_price h x = p) es = same" "dropWhile (\<lambda>x. entry_price h x = p) es = more"
    using takeWhile_filter_eq [of "\<lambda>e. s * entry_price h e" es "s * p"] 2(2)
    unfolding eq by (simp_all add: same_def more_def p_def)
  have "sorted (map (\<lambda>e. s * entry_price h e) more)"
    using 2(2) by (auto simp: more_def intro: sorted_filter)
  then have IH: "levels_of h more = map (level_at h more) (remdups_adj (map (entry_price h) more))"
    using 2(1) [OF p_def, unfolded split] 2(3,4) by (simp add: more_def)
  have others: "level_at h more q = level_at h (e # es) q" if "q \<in> entry_price h ` set more" for q
  proof -
    have "q \<noteq> p" using that by (auto simp: more_def)
    then have "filter (\<lambda>x. entry_price h x = q) more = filter (\<lambda>x. entry_price h x = q) (e # es)"
      by (auto simp: more_def p_def intro: filter_cong)
    then show ?thesis by (simp add: level_at_def)
  qed
  have "bump same \<lparr>plPrice = p, plQuantity = eRemaining e, plCount = 1\<rparr> = level_at h (e # es) p"
    by (simp add: bump_def level_at_def Let_def same_def p_def)
  moreover have "remdups_adj (map (entry_price h) (e # es)) = p # remdups_adj (map (entry_price h) more)"
    unfolding split(2) [symmetric] by (simp add: remdups_adj_Cons_dropWhile dropWhile_map comp_def p_def)
  ultimately show ?case
    using IH others by (simp add: Let_def split p_def [symmetric])
qed

lemma aggregateLevels_spec:
  assumes "sorted (map (\<lambda>e. s * entry_price h e) es)" and "s \<noteq> (0::int)"
    and "\<forall>e\<in>set es. 0 < eRemaining e \<and> in64 (eRemaining e)"
  shows "aggregateLevels h es n = depth_spec h es n"
  using aggregate_levels [OF assms(3), of "[]" h n] levels_of_spec [OF assms(1,2)] assms(3)
  by (simp add: aggregateLevels_def depth_spec_def Let_def)

lemma getDepth_spec:
  assumes "book_wf h ob"
  shows "getDepth h ob n = \<lparr>obStockCode = bookStockCode ob, obBids = depth_spec h (bids ob) n,
    obAsks = depth_spec h (asks ob) n, obUpdatedAt = 0\<rparr>"
  using assms aggregateLevels_spec [of "-1" h "bids ob" n] aggregateLevels_spec [of 1 h "asks ob" n]
  by (simp add: getDepth_def book_wf_def book_entries_def)

end
