(* ===== verification/Memory_Repos.thy ===== *)
theory Memory_Repos
  imports Entities
begin

text \<open>
  The in-memory repositories (src/internal/infra/storage/memory). Each operation runs under the
  repository's lock and is one atomic function here, except for the ticker writes, whose two
  halves are separated where the source drops the lock (theory \<open>Ticker_Race\<close>).

  An order repository hands out copies and keeps its own order objects; the same object is
  reachable from \<open>byID\<close> and from \<open>ordered\<close>, so both hold pointers into \<open>orCells\<close>. Stored trades
  are never written again and are kept by value.
\<close>

section \<open>Orders\<close>

record OrderRepo =
  orByID :: "string \<rightharpoonup> nat"
  orOrdered :: "nat list"
  orCells :: "Order list"

definition NewOrderRepo :: OrderRepo where
  "NewOrderRepo = \<lparr>orByID = Map.empty, orOrdered = [], orCells = []\<rparr>"

definition OrderRepo_Save :: "OrderRepo \<Rightarrow> Order \<Rightarrow> repo_error option \<times> OrderRepo" where
  "OrderRepo_Save r ord =
     (if orByID r (oID ord) \<noteq> None then (Some ErrDuplicate, r)
      else let cp = length (orCells r)
           in (None, r\<lparr>orCells := orCells r @ [ord],
                       orByID := (orByID r)(oID ord \<mapsto> cp),
                       orOrdered := orOrdered r @ [cp]\<rparr>))"

definition OrderRepo_FindByID :: "OrderRepo \<Rightarrow> string \<Rightarrow> repo_error + Order" where
  "OrderRepo_FindByID r i =
     (case orByID r i of None \<Rightarrow> Inl ErrNotFound | Some p \<Rightarrow> Inr (orCells r ! p))"

definition order_matches :: "OrderFilter \<Rightarrow> Order \<Rightarrow> bool" where
  "order_matches f ord \<longleftrightarrow>
     \<not> (ofStockCode f \<noteq> [] \<and> oStockCode ord \<noteq> ofStockCode f) \<and>
     \<not> (ofStatus f \<noteq> [] \<and> oStatus ord \<noteq> ofStatus f) \<and>
     \<not> (ofUserID f \<noteq> [] \<and> oUserID ord \<noteq> ofUserID f)"

text \<open>
  The pagination both repositories share. \<open>(page - 1) * perPage\<close> is computed on 64 bits; a
  negative start passes the bounds checks of the source and reaches the slice expression.
\<close>

definition page_of :: "int64 \<Rightarrow> int64 \<Rightarrow> 'a list \<Rightarrow> 'a list outcome" where
  "page_of page perPage matched =
     (let page = (if page \<le> 0 then 1 else page);
          perPage = (if perPage \<le> 0 then 20 else perPage);
          start = mul64 (page - 1) perPage
      in if int (length matched) \<le> start then Return []
         else let end = add64 start perPage;
                  end = (if int (length matched) < end then int (length matched) else end)
              in slice matched start end)"

definition OrderRepo_FindAll :: "OrderRepo \<Rightarrow> OrderFilter \<Rightarrow> (Order list \<times> int64) outcome" where
  "OrderRepo_FindAll r f =
     (let matched = filter (\<lambda>p. order_matches f (orCells r ! p)) (orOrdered r);
          total = int (length matched)
      in case page_of (ofPage f) (ofPerPage f) matched of
           Panic \<Rightarrow> Panic
         | Return ps \<Rightarrow> Return (map (\<lambda>p. orCells r ! p) ps, total))"

definition OrderRepo_Update :: "time \<Rightarrow> OrderRepo \<Rightarrow> Order \<Rightarrow> repo_error option \<times> OrderRepo" where
  "OrderRepo_Update now r ord =
     (case orByID r (oID ord) of
        None \<Rightarrow> (Some ErrNotFound, r)
      | Some p \<Rightarrow>
          (None, r\<lparr>orCells := (orCells r)[p := (orCells r ! p)\<lparr>oStatus := oStatus ord,
                     oFilledQuantity := oFilledQuantity ord, oUpdatedAt := now\<rparr>]\<rparr>))"

section \<open>Trades\<close>

record TradeRepo =
  trByID :: "string \<rightharpoonup> Trade"
  trByStock :: "string \<Rightarrow> Trade list"
  trAll :: "Trade list"

definition NewTradeRepo :: TradeRepo where
  "NewTradeRepo = \<lparr>trByID = Map.empty, trByStock = (\<lambda>_. []), trAll = []\<rparr>"

definition TradeRepo_Save :: "TradeRepo \<Rightarrow> Trade \<Rightarrow> repo_error option \<times> TradeRepo" where
  "TradeRepo_Save r trade =
     (if trByID r (tID trade) \<noteq> None then (Some ErrDuplicate, r)
      else (None, r\<lparr>trByID := (trByID r)(tID trade \<mapsto> trade),
                    trByStock := (trByStock r)(tStockCode trade := trByStock r (tStockCode trade) @ [trade]),
                    trAll := trAll r @ [trade]\<rparr>))"

definition TradeRepo_FindByStockCode :: "TradeRepo \<Rightarrow> string \<Rightarrow> int64 \<Rightarrow> Trade list" where
  "TradeRepo_FindByStockCode r code limit =
     (let src = trByStock r code
      in if length src = 0 then []
         else let n = (if 0 < limit \<and> limit < int (length src) then nat limit else length src)
              in map (\<lambda>i. src ! (length src - 1 - i)) [0..<n])"

definition trade_matches :: "TradeFilter \<Rightarrow> Trade \<Rightarrow> bool" where
  "trade_matches f t \<longleftrightarrow>
     \<not> (tfStockCode f \<noteq> [] \<and> tStockCode t \<noteq> tfStockCode f) \<and>
     \<not> (tfUserID f \<noteq> [] \<and> tBuyerUserID t \<noteq> tfUserID f \<and> tSellerUserID t \<noteq> tfUserID f)"

definition TradeRepo_FindAll :: "TradeRepo \<Rightarrow> TradeFilter \<Rightarrow> (Trade list \<times> int64) outcome" where
  "TradeRepo_FindAll r f =
     (let matched = filter (trade_matches f) (trAll r);
          total = int (length matched)
      in case page_of (tfPage f) (tfPerPage f) matched of
           Panic \<Rightarrow> Panic
         | Return ts \<Rightarrow> Return (ts, total))"

section \<open>Tickers and order book snapshots\<close>

text \<open>A ticker entry holds an atomic pointer, nil until the first store.\<close>

record MarketRepo =
  mkTickers :: "string \<rightharpoonup> Ticker option"
  mkBooks :: "string \<rightharpoonup> OrderBook"

definition NewMarketRepo :: MarketRepo where
  "NewMarketRepo = \<lparr>mkTickers = Map.empty, mkBooks = Map.empty\<rparr>"

definition zero_ticker :: "string \<Rightarrow> time \<Rightarrow> Ticker" where
  "zero_ticker code now =
     \<lparr>tkStockCode = code, tkLastPrice = 0, tkPrevClose = 0, tkChange = 0, tkChangePct = 0,
      tkHigh = 0, tkLow = 0, tkVolume = 0, tkUpdatedAt = now\<rparr>"

definition MarketRepo_InitStock :: "time \<Rightarrow> time \<Rightarrow> MarketRepo \<Rightarrow> Stock \<Rightarrow> MarketRepo" where
  "MarketRepo_InitStock now1 now2 r stock =
     (let r = (if mkTickers r (sCode stock) = None
               then r\<lparr>mkTickers := (mkTickers r)(sCode stock \<mapsto> Some (zero_ticker (sCode stock) now1))\<rparr>
               else r)
      in if mkBooks r (sCode stock) = None
         then r\<lparr>mkBooks := (mkBooks r)(sCode stock \<mapsto>
                  \<lparr>obStockCode = sCode stock, obBids = [], obAsks = [], obUpdatedAt = now2\<rparr>)\<rparr>
         else r)"

definition MarketRepo_GetTicker :: "MarketRepo \<Rightarrow> string \<Rightarrow> repo_error + Ticker" where
  "MarketRepo_GetTicker r code =
     (case mkTickers r code of
        None \<Rightarrow> Inl ErrNotFound
      | Some None \<Rightarrow> Inl ErrNotFound
      | Some (Some t) \<Rightarrow> Inr t)"

text \<open>Go ranges over a map in an unspecified order: \<open>codes\<close> is the order of this call.\<close>

definition MarketRepo_GetAllTickers :: "MarketRepo \<Rightarrow> string list \<Rightarrow> Ticker list" where
  "MarketRepo_GetAllTickers r codes =
     List.map_filter (\<lambda>code. case mkTickers r code of None \<Rightarrow> None | Some e \<Rightarrow> e) codes"

definition MarketRepo_UpdateTickerFromTrade ::
  "time \<Rightarrow> MarketRepo \<Rightarrow> string \<Rightarrow> int64 \<Rightarrow> int64 \<Rightarrow> (repo_error + Ticker) \<times> MarketRepo" where
  "MarketRepo_UpdateTickerFromTrade now r code price qty =
     (case mkTickers r code of
        None \<Rightarrow> (Inl ErrNotFound, r)
      | Some None \<Rightarrow> (Inl ErrNotFound, r)
      | Some (Some current) \<Rightarrow>
          let updated = UpdateFromTrade now current price qty
          in (Inr updated, r\<lparr>mkTickers := (mkTickers r)(code \<mapsto> Some updated)\<rparr>))"

definition MarketRepo_UpdateTicker :: "MarketRepo \<Rightarrow> Ticker \<Rightarrow> repo_error option \<times> MarketRepo" where
  "MarketRepo_UpdateTicker r ticker =
     (case mkTickers r (tkStockCode ticker) of
        None \<Rightarrow> (Some ErrNotFound, r)
      | Some _ \<Rightarrow> (None, r\<lparr>mkTickers := (mkTickers r)(tkStockCode ticker \<mapsto> Some ticker)\<rparr>))"

definition MarketRepo_GetOrderBook :: "MarketRepo \<Rightarrow> string \<Rightarrow> repo_error + OrderBook" where
  "MarketRepo_GetOrderBook r code =
     (case mkBooks r code of None \<Rightarrow> Inl ErrNotFound | Some b \<Rightarrow> Inr b)"

definition MarketRepo_UpdateOrderBook :: "MarketRepo \<Rightarrow> OrderBook \<Rightarrow> repo_error option \<times> MarketRepo" where
  "MarketRepo_UpdateOrderBook r b =
     (if mkBooks r (obStockCode b) = None then (Some ErrNotFound, r)
      else (None, r\<lparr>mkBooks := (mkBooks r)(obStockCode b \<mapsto> b)\<rparr>))"

section \<open>The contract of an order repository\<close>

text \<open>
  What repository.OrderRepository promises its clients: a saved order is found under its
  identifier, a second one with the same identifier is refused, an update changes the mutable
  fields only, and no operation disturbs the other orders. A store may refuse orders that do not
  fit its columns (\<open>ok\<close>, \<open>okupd\<close>, \<open>okid\<close>) and keep an order in the precision of its columns (\<open>norm\<close>);
  \<open>stamp\<close> is the time it records for an update.
\<close>

datatype repo_op = SaveOp Order | UpdateOp time Order

locale order_repository =
  fixes save :: "'r \<Rightarrow> Order \<Rightarrow> repo_error option \<times> 'r"
    and find :: "'r \<Rightarrow> string \<Rightarrow> repo_error + Order"
    and update :: "time \<Rightarrow> 'r \<Rightarrow> Order \<Rightarrow> repo_error option \<times> 'r"
    and inv :: "'r \<Rightarrow> bool"
    and ok :: "Order \<Rightarrow> bool"
    and okupd :: "Order \<Rightarrow> bool"
    and okid :: "string \<Rightarrow> bool"
    and norm :: "Order \<Rightarrow> Order"
    and stamp :: "time \<Rightarrow> Order \<Rightarrow> time"
  assumes find_err: "inv r \<Longrightarrow> okid i \<Longrightarrow> find r i = Inl e \<Longrightarrow> e = ErrNotFound"
    and find_id: "inv r \<Longrightarrow> okid i \<Longrightarrow> find r i = Inr o0 \<Longrightarrow> oID o0 = i"
    and ok_id: "ok ord \<Longrightarrow> okid (oID ord)"
    and okupd_id: "okupd ord \<Longrightarrow> okid (oID ord)"
    and save_new: "inv r \<Longrightarrow> ok ord \<Longrightarrow> find r (oID ord) = Inl ErrNotFound \<Longrightarrow>
      fst (save r ord) = None \<and> inv (snd (save r ord)) \<and>
      (okid i \<longrightarrow> find (snd (save r ord)) i = ((find r)(oID ord := Inr (norm ord))) i)"
    and save_dup: "inv r \<Longrightarrow> ok ord \<Longrightarrow> find r (oID ord) = Inr o0 \<Longrightarrow> save r ord = (Some ErrDuplicate, r)"
    and save_bad: "inv r \<Longrightarrow> \<not> ok ord \<Longrightarrow> fst (save r ord) \<noteq> None \<and> snd (save r ord) = r"
    and update_found: "inv r \<Longrightarrow> okupd ord \<Longrightarrow> find r (oID ord) = Inr o0 \<Longrightarrow>
      fst (update now r ord) = None \<and> inv (snd (update now r ord)) \<and>
      (okid i \<longrightarrow> find (snd (update now r ord)) i =
        ((find r)(oID ord := Inr (o0\<lparr>oStatus := oStatus ord, oFilledQuantity := oFilledQuantity ord,
                                   oUpdatedAt := stamp now ord\<rparr>))) i)"
    and update_missing: "inv r \<Longrightarrow> okupd ord \<Longrightarrow> find r (oID ord) = Inl ErrNotFound \<Longrightarrow>
      update now r ord = (Some ErrNotFound, r)"
    and update_bad: "inv r \<Longrightarrow> \<not> okupd ord \<Longrightarrow> fst (update now r ord) \<noteq> None \<and> snd (update now r ord) = r"
begin

primrec run_op :: "'r \<Rightarrow> repo_op \<Rightarrow> 'r" where
  "run_op r (SaveOp ord) = snd (save r ord)"
| "run_op r (UpdateOp now ord) = snd (update now r ord)"

lemma run_op_stable:
  assumes "inv r" and "okid i" and "find r i = Inr o0"
  shows "inv (run_op r x) \<and> (\<exists>o1. find (run_op r x) i = Inr o1 \<and> same_identity o0 o1)"
proof (cases x)
  case (SaveOp ord)
  consider "\<not> ok ord" | o1 where "ok ord" "find r (oID ord) = Inr o1" | "ok ord" "find r (oID ord) = Inl ErrNotFound"
    using find_err [OF assms(1) ok_id] by (cases "find r (oID ord)") auto
  then show ?thesis
  proof cases
    case 1
    then show ?thesis using save_bad [OF assms(1)] assms by (simp add: SaveOp)
  next
    case 2
    then show ?thesis using save_dup [OF assms(1)] assms by (simp add: SaveOp)
  next
    case 3
    then show ?thesis using save_new [OF assms(1), of ord i] assms(2,3) by (auto simp: SaveOp)
  qed
next
  case (UpdateOp now ord)
  consider "\<not> okupd ord" | o1 where "okupd ord" "find r (oID ord) = Inr o1"
    | "okupd ord" "find r (oID ord) = Inl ErrNotFound"
    using find_err [OF assms(1) okupd_id] by (cases "find r (oID ord)") auto
  then show ?thesis
  proof cases
    case 1
    then show ?thesis using update_bad [OF assms(1)] assms by (simp add: UpdateOp)
  next
    case 2
    then show ?thesis
      using update_found [OF assms(1) 2, of now i] assms(2,3) by (auto simp: UpdateOp same_identity_def)
  next
    case 3
    then show ?thesis using update_missing [OF assms(1)] assms by (simp add: UpdateOp)
  qed
qed

text \<open>No sequence of operations loses an order or changes what identifies it.\<close>

lemma run_stable:
  "inv r \<Longrightarrow> okid i \<Longrightarrow> find r i = Inr o0 \<Longrightarrow>
   \<exists>o1. find (foldl run_op r xs) i = Inr o1 \<and> same_identity o0 o1"
proof (induction xs arbitrary: r o0)
  case Nil
  then show ?case by simp
next
  case (Cons x xs)
  then show ?case using run_op_stable [of r i o0 x] by (fastforce intro: same_identity_trans)
qed

text \<open>An order that was accepted is found from then on, with the same identity.\<close>

lemma saved_found:
  assumes "inv r" and "ok ord" and "save r ord = (None, r')"
  shows "\<exists>o1. find (foldl run_op r' xs) (oID ord) = Inr o1 \<and> same_identity (norm ord) o1"
proof -
  have "find r (oID ord) = Inl ErrNotFound"
    using find_err [OF assms(1) ok_id [OF assms(2)]] save_dup [OF assms(1,2)] assms(3)
    by (cases "find r (oID ord)") auto
  note n = save_new [OF assms(1,2) this, of "oID ord"]
  then have "inv r'" "find r' (oID ord) = Inr (norm ord)" using assms(3) ok_id [OF assms(2)] by auto
  then show ?thesis using run_stable ok_id [OF assms(2)] by blast
qed

end

section \<open>The in-memory order repository implements it\<close>

definition or_wf :: "OrderRepo \<Rightarrow> bool" where
  "or_wf r \<longleftrightarrow>
     orOrdered r = [0..<length (orCells r)] \<and>
     (\<forall>i p. orByID r i = Some p \<longleftrightarrow> p < length (orCells r) \<and> oID (orCells r ! p) = i)"

text \<open>The orders in insertion order: the abstract state.\<close>

definition orders_of :: "OrderRepo \<Rightarrow> Order list" where
  "orders_of r = map (\<lambda>p. orCells r ! p) (orOrdered r)"

lemma orders_of_cells: "or_wf r \<Longrightarrow> orders_of r = orCells r"
  by (simp add: orders_of_def or_wf_def map_nth)

lemma or_wf_fresh:
  assumes "or_wf r" and "i \<notin> oID ` set (orders_of r)"
  shows "orByID r i = None"
proof (rule ccontr)
  assume "orByID r i \<noteq> None"
  then obtain p where "p < length (orCells r)" "oID (orCells r ! p) = i"
    using assms(1) by (auto simp: or_wf_def)
  then have "i \<in> oID ` set (orCells r)" by (metis imageI nth_mem)
  then show False using assms(2) orders_of_cells [OF assms(1)] by simp
qed

lemma or_wf_New: "or_wf NewOrderRepo"
  by (simp add: or_wf_def NewOrderRepo_def)

lemma or_wf_Save: "or_wf r \<Longrightarrow> or_wf (snd (OrderRepo_Save r ord))"
  by (auto simp: or_wf_def OrderRepo_Save_def Let_def nth_append less_Suc_eq)

lemma or_wf_Update: "or_wf r \<Longrightarrow> or_wf (snd (OrderRepo_Update now r ord))"
  by (auto simp: or_wf_def OrderRepo_Update_def nth_list_update split: option.splits)

lemma OrderRepo_FindByID_None:
  "OrderRepo_FindByID r i = Inl ErrNotFound \<longleftrightarrow> orByID r i = None"
  by (auto simp: OrderRepo_FindByID_def split: option.splits)

lemma OrderRepo_FindByID_Save:
  assumes wf: "or_wf r" and "orByID r (oID ord) = None"
  shows "OrderRepo_FindByID (snd (OrderRepo_Save r ord)) = (OrderRepo_FindByID r)(oID ord := Inr ord)"
proof
  fix i
  have "p < length (orCells r)" if "orByID r i = Some p" for p
    using wf that by (simp add: or_wf_def)
  then show "OrderRepo_FindByID (snd (OrderRepo_Save r ord)) i = ((OrderRepo_FindByID r)(oID ord := Inr ord)) i"
    using assms(2) by (auto simp: OrderRepo_FindByID_def OrderRepo_Save_def Let_def nth_append split: option.splits)
qed

lemma OrderRepo_FindByID_Update:
  assumes wf: "or_wf r" and "OrderRepo_FindByID r (oID ord) = Inr o0"
  shows "OrderRepo_FindByID (snd (OrderRepo_Update now r ord)) =
    (OrderRepo_FindByID r)(oID ord := Inr (o0\<lparr>oStatus := oStatus ord,
       oFilledQuantity := oFilledQuantity ord, oUpdatedAt := now\<rparr>))"
proof
  fix i
  obtain p where p: "orByID r (oID ord) = Some p" "orCells r ! p = o0"
    using assms(2) by (auto simp: OrderRepo_FindByID_def split: option.splits)
  then have "p < length (orCells r)" "oID o0 = oID ord" using wf by (auto simp: or_wf_def)
  moreover have "q \<noteq> p" if "i \<noteq> oID ord" "orByID r i = Some q" for q
    using wf that p(1) by (auto simp: or_wf_def)
  ultimately show "OrderRepo_FindByID (snd (OrderRepo_Update now r ord)) i =
      ((OrderRepo_FindByID r)(oID ord := Inr (o0\<lparr>oStatus := oStatus ord,
        oFilledQuantity := oFilledQuantity ord, oUpdatedAt := now\<rparr>))) i"
    using p by (auto simp: OrderRepo_FindByID_def OrderRepo_Update_def split: option.splits)
qed

interpretation mem_orders: order_repository OrderRepo_Save OrderRepo_FindByID OrderRepo_Update or_wf
  "\<lambda>_. True" "\<lambda>_. True" "\<lambda>_. True" "\<lambda>x. x" "\<lambda>now _. now"
proof (unfold_locales, goal_cases)
  case (1 r i e)
  then show ?case by (auto simp: OrderRepo_FindByID_def split: option.splits)
next
  case (2 r i o0)
  then show ?case by (auto simp: OrderRepo_FindByID_def or_wf_def split: option.splits)
next
  case (4 r ord i)
  then show ?case
    using or_wf_Save [of r ord] OrderRepo_FindByID_Save [of r ord]
    by (simp add: OrderRepo_FindByID_None) (simp add: OrderRepo_Save_def Let_def)
next
  case (5 r ord o0)
  then show ?case by (auto simp: OrderRepo_FindByID_def OrderRepo_Save_def split: option.splits)
next
  case (7 r ord o0 now i)
  then show ?case
    using or_wf_Update [of r now ord] OrderRepo_FindByID_Update [of r ord o0 now]
    by (auto simp: OrderRepo_Update_def OrderRepo_FindByID_def split: option.splits)
next
  case (8 r ord now)
  then show ?case by (simp add: OrderRepo_FindByID_None OrderRepo_Update_def)
qed simp_all

section \<open>Queries\<close>

text \<open>A page whose bounds fit in 64 bits is the corresponding segment of the matches.\<close>

lemma page_of_segment:
  assumes "1 \<le> page" and "1 \<le> perPage" and "in64 (page * perPage)"
  shows "page_of page perPage xs =
    Return (take (nat perPage) (drop (nat ((page - 1) * perPage)) xs))"
proof -
  have nn: "0 \<le> (page - 1) * perPage" using assms(1,2) by simp
  have le: "(page - 1) * perPage + perPage = page * perPage" by (simp add: algebra_simps)
  have start: "mul64 (page - 1) perPage = (page - 1) * perPage"
    using assms nn le by (intro mul64_id in64_nonneg [OF nn _ assms(3)]) simp
  have fin: "add64 ((page - 1) * perPage) perPage = page * perPage"
    using assms(3) le by (simp add: add64_id)
  define a where "a = nat ((page - 1) * perPage)"
  define n where "n = nat perPage"
  have ints: "(page - 1) * perPage = int a" "page * perPage = int (a + n)" "perPage = int n"
    using nn assms(2) le by (auto simp: a_def n_def)
  have "page_of page perPage xs =
      (if int (length xs) \<le> int a then Return []
       else slice xs (int a) (if length xs < a + n then int (length xs) else int (a + n)))"
    using assms(1,2) start fin unfolding ints(1,2) by (simp add: page_of_def Let_def)
  also have "\<dots> = Return (take n (drop a xs))"
    using nat_int [of "n"] by (cases "length xs < a + n") (auto simp: slice_def of_nat_diff [symmetric] simp del: of_nat_diff)
  finally show ?thesis by (simp add: a_def n_def)
qed

lemma page_map: "page_of page perPage (map f xs) =
    (case page_of page perPage xs of Panic \<Rightarrow> Panic | Return ys \<Rightarrow> Return (map f ys))"
  by (simp add: page_of_def slice_def Let_def take_map drop_map)

lemma OrderRepo_FindAll_orders:
  "OrderRepo_FindAll r f =
     (let matched = filter (order_matches f) (orders_of r)
      in case page_of (ofPage f) (ofPerPage f) matched of
           Panic \<Rightarrow> Panic | Return os \<Rightarrow> Return (os, int (length matched)))"
proof -
  let ?ps = "filter (\<lambda>p. order_matches f (orCells r ! p)) (orOrdered r)"
  have "filter (order_matches f) (orders_of r) = map (\<lambda>p. orCells r ! p) ?ps"
    by (simp add: orders_of_def filter_map comp_def)
  then show ?thesis
    by (simp add: OrderRepo_FindAll_def Let_def page_map split: outcome.split)
qed

text \<open>The newest trades of a stock first.\<close>

lemma TradeRepo_FindByStockCode_newest:
  "TradeRepo_FindByStockCode r code limit =
     take (if 0 < limit then nat limit else length (trByStock r code)) (rev (trByStock r code))"
proof -
  let ?src = "trByStock r code"
  have seg: "map (\<lambda>i. ?src ! (length ?src - Suc i)) [0..<n] = take n (rev ?src)" if "n \<le> length ?src" for n
    using that by (auto simp: list_eq_iff_nth_eq rev_nth)
  show ?thesis
    by (auto simp: TradeRepo_FindByStockCode_def Let_def seg simp del: upt_conv_Cons)
qed

definition tr_wf :: "TradeRepo \<Rightarrow> bool" where
  "tr_wf r \<longleftrightarrow>
     (\<forall>c. trByStock r c = filter (\<lambda>t. tStockCode t = c) (trAll r)) \<and>
     distinct (map tID (trAll r)) \<and>
     (\<forall>i t. trByID r i = Some t \<longleftrightarrow> t \<in> set (trAll r) \<and> tID t = i)"

lemma tr_wf_New: "tr_wf NewTradeRepo"
  by (simp add: tr_wf_def NewTradeRepo_def)

lemma TradeRepo_Save_cases:
  assumes "tr_wf r"
  shows "tID trade \<in> tID ` set (trAll r) \<Longrightarrow> TradeRepo_Save r trade = (Some ErrDuplicate, r)"
    and "tID trade \<notin> tID ` set (trAll r) \<Longrightarrow> fst (TradeRepo_Save r trade) = None \<and>
      trAll (snd (TradeRepo_Save r trade)) = trAll r @ [trade] \<and> tr_wf (snd (TradeRepo_Save r trade))"
proof -
  have dom: "trByID r (tID trade) = None \<longleftrightarrow> tID trade \<notin> tID ` set (trAll r)"
    using assms unfolding tr_wf_def by (metis (no_types, lifting) image_iff not_None_eq)
  show "tID trade \<in> tID ` set (trAll r) \<Longrightarrow> TradeRepo_Save r trade = (Some ErrDuplicate, r)"
    using dom by (simp add: TradeRepo_Save_def)
  assume new: "tID trade \<notin> tID ` set (trAll r)"
  have "tr_wf (snd (TradeRepo_Save r trade))"
    using assms new dom by (auto simp: tr_wf_def TradeRepo_Save_def image_iff)
  then show "fst (TradeRepo_Save r trade) = None \<and>
      trAll (snd (TradeRepo_Save r trade)) = trAll r @ [trade] \<and> tr_wf (snd (TradeRepo_Save r trade))"
    using new dom by (simp add: TradeRepo_Save_def)
qed

end
