(* ===== verification/Channels.thy ===== *)
theory Channels
  imports Prelude
begin

text \<open>
  The contract the asynchronous components share: producers offer elements without blocking, one
  goroutine takes them out in order. The event bus, the matchers and the database worker
  implement it; the client lemmas say that nothing accepted is lost, duplicated or reordered.
\<close>

datatype 'a queue_op = Offer 'a | Take

locale fifo_worker =
  fixes offer :: "'s \<Rightarrow> 'a \<Rightarrow> bool \<times> 's"
    and take_one :: "'s \<Rightarrow> 's option"
    and queued :: "'s \<Rightarrow> 'a list"
    and handled :: "'s \<Rightarrow> 'a list"
    and limit :: nat
    and live :: "'s \<Rightarrow> bool"
  assumes offer_live: "live s \<Longrightarrow> offer s x = (ok, s') \<Longrightarrow> live s'"
    and offer_accepts: "live s \<Longrightarrow> offer s x = (ok, s') \<Longrightarrow> ok = (length (queued s) < limit)"
    and offer_queued: "live s \<Longrightarrow> offer s x = (ok, s') \<Longrightarrow>
      queued s' = (if ok then queued s @ [x] else queued s)"
    and offer_handled: "live s \<Longrightarrow> offer s x = (ok, s') \<Longrightarrow> handled s' = handled s"
    and take_none: "live s \<Longrightarrow> take_one s = None \<longleftrightarrow> queued s = []"
    and take_some: "live s \<Longrightarrow> take_one s = Some s' \<Longrightarrow>
      live s' \<and> queued s' = tl (queued s) \<and> handled s' = handled s @ [hd (queued s)]"
begin

text \<open>One turn of the consumer, which does nothing when the queue is empty.\<close>

definition turn :: "'s \<Rightarrow> 's" where
  "turn s = (case take_one s of None \<Rightarrow> s | Some s' \<Rightarrow> s')"

lemma turn_step:
  assumes "live s"
  shows "live (turn s) \<and> queued (turn s) = tl (queued s) \<and>
    handled (turn s) = handled s @ take 1 (queued s)"
proof (cases "take_one s")
  case None
  then show ?thesis using assms take_none [OF assms] by (simp add: turn_def)
next
  case (Some s')
  then have "queued s \<noteq> []" using take_none [OF assms] by auto
  then show ?thesis using take_some [OF assms Some] Some by (cases "queued s") (auto simp: turn_def)
qed

text \<open>A history: the elements accepted along a sequence of operations, and the final state.\<close>

primrec history :: "'s \<Rightarrow> 'a queue_op list \<Rightarrow> 'a list \<times> 's" where
  "history s [] = ([], s)"
| "history s (x # xs) =
     (case x of
        Offer y \<Rightarrow>
          let (ok, s') = offer s y; (acc, s'') = history s' xs
          in (if ok then y # acc else acc, s'')
      | Take \<Rightarrow> history (turn s) xs)"

text \<open>
  What has been handled, followed by what is queued, is what was accepted, in order, and the
  queue stays within its limit.
\<close>

lemma history_order:
  "live s \<Longrightarrow> history s xs = (acc, s') \<Longrightarrow>
   live s' \<and> handled s' @ queued s' = handled s @ queued s @ acc \<and>
   (length (queued s) \<le> limit \<longrightarrow> length (queued s') \<le> limit)"
proof (induction xs arbitrary: s acc)
  case Nil
  then show ?case by simp
next
  case (Cons x xs)
  show ?case
  proof (cases x)
    case (Offer y)
    obtain ok s1 where o1: "offer s y = (ok, s1)" by fastforce
    obtain acc1 where h: "history s1 xs = (acc1, s')" and acc: "acc = (if ok then y # acc1 else acc1)"
      using Cons.prems by (auto simp: Offer o1 split: prod.splits)
    show ?thesis
      using Cons.IH [OF offer_live [OF Cons.prems(1) o1] h] offer_queued [OF Cons.prems(1) o1]
        offer_handled [OF Cons.prems(1) o1] offer_accepts [OF Cons.prems(1) o1] by (auto simp: acc)
  next
    case Take
    have "history (turn s) xs = (acc, s')" using Cons.prems(2) by (simp add: Take)
    from Cons.IH [OF _ this] turn_step [OF Cons.prems(1)] show ?thesis
      by (cases "queued s") auto
  qed
qed

text \<open>Enough turns of the consumer handle everything that is queued.\<close>

lemma drain_all:
  "live s \<Longrightarrow> length (queued s) \<le> n \<Longrightarrow>
   queued ((turn ^^ n) s) = [] \<and> handled ((turn ^^ n) s) = handled s @ queued s"
proof (induction n arbitrary: s)
  case 0
  then show ?case by simp
next
  case (Suc n)
  have "(turn ^^ Suc n) s = (turn ^^ n) (turn s)" by (simp add: funpow_Suc_right del: funpow.simps)
  then show ?case
    using Suc.IH [of "turn s"] turn_step [OF Suc.prems(1)] Suc.prems(2) by (cases "queued s") auto
qed

end

end
