(* ===== verification/Broker.thy ===== *)
theory Broker
  imports Entities Channels
begin

text \<open>
  The in-process event bus (src/internal/infra/broker/eventbus.go). Publishing never blocks: a
  full buffer drops the event. One goroutine takes the events out and calls the handlers of the
  event's type; a handler may itself subscribe or unsubscribe, so a handler is a function on the
  bus and on the state \<open>'s\<close> of the rest of the program, named by a value of type \<open>'h\<close>.
\<close>

definition dispatchBufferSize :: nat where "dispatchBufferSize = 10000"

record 'h subscription =
  subId :: string
  subHandler :: 'h

record 'h EventBus =
  busSubs :: "event_type \<Rightarrow> 'h subscription list"
  busCh :: "Event channel"
  busStarted :: bool
  busDone :: bool

definition NewEventBus :: "'h EventBus" where
  "NewEventBus = \<lparr>busSubs = (\<lambda>_. []), busCh = new_channel, busStarted = False, busDone = False\<rparr>"

text \<open>\<open>Subscribe\<close>, for the identifier that \<open>uuid.NewString\<close> returned.\<close>

definition Subscribe :: "string \<Rightarrow> 'h EventBus \<Rightarrow> event_type \<Rightarrow> 'h \<Rightarrow> string \<times> 'h EventBus" where
  "Subscribe uid b t fn =
     (uid, b\<lparr>busSubs := (busSubs b)(t := busSubs b t @ [\<lparr>subId = uid, subHandler = fn\<rparr>])\<rparr>)"

fun remove_sub :: "string \<Rightarrow> 'h subscription list \<Rightarrow> 'h subscription list" where
  "remove_sub sid [] = []"
| "remove_sub sid (s # ss) = (if subId s = sid then ss else s # remove_sub sid ss)"

text \<open>\<open>Unsubscribe\<close> ranges over the map of types in an unspecified order, here \<open>ts\<close>.\<close>

fun Unsubscribe :: "event_type list \<Rightarrow> 'h EventBus \<Rightarrow> string \<Rightarrow> 'h EventBus" where
  "Unsubscribe [] b sid = b"
| "Unsubscribe (t # ts) b sid =
     (if \<exists>s\<in>set (busSubs b t). subId s = sid
      then b\<lparr>busSubs := (busSubs b)(t := remove_sub sid (busSubs b t))\<rparr>
      else Unsubscribe ts b sid)"

definition Publish :: "'h EventBus \<Rightarrow> Event \<Rightarrow> 'h EventBus outcome" where
  "Publish b e =
     (case try_send dispatchBufferSize (busCh b) e of
        (Sent, ch) \<Rightarrow> Return (b\<lparr>busCh := ch\<rparr>)
      | (Full, ch) \<Rightarrow> Return b
      | (SendPanic, ch) \<Rightarrow> Panic)"

definition EventBus_Start :: "'h EventBus \<Rightarrow> 'h EventBus" where
  "EventBus_Start b = b\<lparr>busStarted := True\<rparr>"

text \<open>\<open>Stop\<close> closes the channel, once, and then waits for \<open>done\<close>.\<close>

definition EventBus_Stop_close :: "'h EventBus \<Rightarrow> 'h EventBus" where
  "EventBus_Stop_close b = b\<lparr>busCh := (busCh b)\<lparr>chClosed := True\<rparr>\<rparr>"

text \<open>
  \<open>deliver\<close> copies the handlers under the read lock before it calls the first of them.
\<close>

definition deliver ::
  "('h \<Rightarrow> Event \<Rightarrow> 'h EventBus \<times> 's \<Rightarrow> 'h EventBus \<times> 's) \<Rightarrow> Event \<Rightarrow> 'h EventBus \<times> 's \<Rightarrow> 'h EventBus \<times> 's" where
  "deliver call e bs =
     (let handlers = map subHandler (busSubs (fst bs) (evType e))
      in fold (\<lambda>h. call h e) handlers bs)"

text \<open>One turn of the \<open>dispatch\<close> loop; \<open>None\<close> when the goroutine is blocked or gone.\<close>

definition dispatch_turn ::
  "('h \<Rightarrow> Event \<Rightarrow> 'h EventBus \<times> 's \<Rightarrow> 'h EventBus \<times> 's) \<Rightarrow> 'h EventBus \<times> 's \<Rightarrow> ('h EventBus \<times> 's) option" where
  "dispatch_turn call bs =
     (let b = fst bs
      in if \<not> busStarted b \<or> busDone b then None
         else (case chQueue (busCh b) of
                 e # es \<Rightarrow> Some (deliver call e (b\<lparr>busCh := (busCh b)\<lparr>chQueue := es\<rparr>\<rparr>, snd bs))
               | [] \<Rightarrow> if chClosed (busCh b) then Some (b\<lparr>busDone := True\<rparr>, snd bs) else None))"

section \<open>Subscriptions\<close>

definition subs_wf :: "'h EventBus \<Rightarrow> bool" where
  "subs_wf b \<longleftrightarrow>
     (\<forall>t. distinct (map subId (busSubs b t))) \<and>
     (\<forall>t t'. t \<noteq> t' \<longrightarrow> subId ` set (busSubs b t) \<inter> subId ` set (busSubs b t') = {})"

lemma remove_sub_filter: "distinct (map subId ss) \<Longrightarrow> remove_sub sid ss = filter (\<lambda>s. subId s \<noteq> sid) ss"
proof (induction ss)
  case (Cons s ss)
  then have "subId s = sid \<Longrightarrow> filter (\<lambda>s. subId s \<noteq> sid) ss = ss"
    by (auto simp: filter_id_conv image_iff)
  with Cons show ?case by auto
qed simp

text \<open>Whatever order the map is walked in, exactly the subscription with that identifier goes.\<close>

lemma Unsubscribe_filter:
  assumes "subs_wf b" and "\<And>t. busSubs b t \<noteq> [] \<Longrightarrow> t \<in> set ts"
  shows "busSubs (Unsubscribe ts b sid) = (\<lambda>t. filter (\<lambda>s. subId s \<noteq> sid) (busSubs b t))"
proof -
  have none: "busSubs b = (\<lambda>t. filter (\<lambda>s. subId s \<noteq> sid) (busSubs b t))"
    if "\<And>t s. s \<in> set (busSubs b t) \<Longrightarrow> subId s \<noteq> sid"
    using that by (auto simp: fun_eq_iff filter_id_conv)
  have "busSubs (Unsubscribe ts b sid) = (\<lambda>t. filter (\<lambda>s. subId s \<noteq> sid) (busSubs b t))"
    if "\<And>t s. t \<notin> set ts \<Longrightarrow> s \<in> set (busSubs b t) \<Longrightarrow> subId s \<noteq> sid" for ts
    using that
  proof (induction ts)
    case Nil
    then show ?case using none by simp
  next
    case (Cons t ts)
    show ?case
    proof (cases "\<exists>s\<in>set (busSubs b t). subId s = sid")
      case True
      then obtain s where s: "s \<in> set (busSubs b t)" "subId s = sid" by blast
      have "subId s' \<noteq> sid" if "t' \<noteq> t" "s' \<in> set (busSubs b t')" for t' s'
        using assms(1) s that unfolding subs_wf_def by blast
      then have "filter (\<lambda>s. subId s \<noteq> sid) (busSubs b t') = busSubs b t'" if "t' \<noteq> t" for t'
        using that by (simp add: filter_id_conv)
      moreover have "remove_sub sid (busSubs b t) = filter (\<lambda>s. subId s \<noteq> sid) (busSubs b t)"
        using assms(1) by (simp add: subs_wf_def remove_sub_filter)
      ultimately show ?thesis using True by (auto simp: fun_eq_iff)
    next
      case False
      then show ?thesis using Cons by fastforce
    qed
  qed
  moreover have "subId s \<noteq> sid" if "t \<notin> set ts" "s \<in> set (busSubs b t)" for t s
    using assms(2) [of t] that by (cases "busSubs b t") auto
  ultimately show ?thesis by blast
qed

lemma Subscribe_wf:
  assumes "subs_wf b" and "\<And>t. uid \<notin> subId ` set (busSubs b t)"
  shows "subs_wf (snd (Subscribe uid b t fn))"
  using assms by (auto simp: subs_wf_def Subscribe_def)

text \<open>Unsubscribing with the identifier that \<open>Subscribe\<close> returned undoes it.\<close>

lemma Unsubscribe_Subscribe:
  assumes "subs_wf b" and "\<And>t. uid \<notin> subId ` set (busSubs b t)" and "set ts = UNIV"
    and "Subscribe uid b t fn = (sid, b')"
  shows "busSubs (Unsubscribe ts b' sid) = busSubs b"
proof -
  have b': "b' = snd (Subscribe uid b t fn)" "sid = uid" using assms(4) by (auto simp: Subscribe_def)
  have "filter (\<lambda>s. subId s \<noteq> uid) (busSubs b t') = busSubs b t'" for t'
    using assms(2) [of t'] by (auto simp: filter_id_conv)
  then show ?thesis
    using Unsubscribe_filter [OF Subscribe_wf [OF assms(1,2), of t fn], of ts uid] assms(3)
    by (auto simp: b' Subscribe_def)
qed

section \<open>Delivery\<close>

text \<open>A handler that records its calls; what it does to the bus is arbitrary.\<close>

lemma deliver_calls:
  assumes "\<And>h b s. snd (call h e (b, s)) = s @ [(h, e)]"
  shows "snd (deliver call e (b, log0)) =
    log0 @ map (\<lambda>h. (h, e)) (map subHandler (busSubs b (evType e)))"
proof -
  have "snd (fold (\<lambda>h. call h e) hs (b, log0)) = log0 @ map (\<lambda>h. (h, e)) hs" for hs b log0
  proof (induction hs arbitrary: b log0)
    case (Cons h hs)
    obtain b' s' where "call h e (b, log0) = (b', s')" by fastforce
    moreover from this have "s' = log0 @ [(h, e)]" using assms [of h b log0] by simp
    ultimately show ?case using Cons by simp
  qed simp
  then show ?thesis by (simp add: deliver_def Let_def)
qed

section \<open>The bus is a first-in first-out worker\<close>

text \<open>
  Handlers that leave the bus alone, as all handlers the server registers do, and the bus with
  the events its goroutine has taken so far.
\<close>

definition quiet :: "('h \<Rightarrow> Event \<Rightarrow> 's \<Rightarrow> 's) \<Rightarrow> 'h \<Rightarrow> Event \<Rightarrow> 'h EventBus \<times> 's \<Rightarrow> 'h EventBus \<times> 's" where
  "quiet f h e = (\<lambda>(b, s). (b, f h e s))"

lemma deliver_quiet:
  "deliver (quiet f) e (b, s) = (b, fold (\<lambda>h. f h e) (map subHandler (busSubs b (evType e))) s)"
proof -
  have "fold (\<lambda>h. quiet f h e) hs (b, s) = (b, fold (\<lambda>h. f h e) hs s)" for hs
    by (induction hs arbitrary: s) (simp_all add: quiet_def)
  then show ?thesis by (simp add: deliver_def Let_def)
qed

type_synonym ('h, 's) bus_run = "('h EventBus \<times> 's) \<times> Event list"

definition bus_offer :: "('h, 's) bus_run \<Rightarrow> Event \<Rightarrow> bool \<times> ('h, 's) bus_run" where
  "bus_offer r e =
     (let b = fst (fst r)
      in case Publish b e of
           Return b' \<Rightarrow> (length (chQueue (busCh b)) < length (chQueue (busCh b')), (b', snd (fst r)), snd r)
         | Panic \<Rightarrow> (False, r))"

definition bus_take :: "('h \<Rightarrow> Event \<Rightarrow> 's \<Rightarrow> 's) \<Rightarrow> ('h, 's) bus_run \<Rightarrow> ('h, 's) bus_run option" where
  "bus_take f r =
     (case dispatch_turn (quiet f) (fst r) of
        None \<Rightarrow> None
      | Some bs \<Rightarrow> Some (bs, snd r @ [hd (chQueue (busCh (fst (fst r))))]))"

definition bus_live :: "('h, 's) bus_run \<Rightarrow> bool" where
  "bus_live r \<longleftrightarrow> busStarted (fst (fst r)) \<and> \<not> busDone (fst (fst r)) \<and> \<not> chClosed (busCh (fst (fst r)))"

interpretation bus: fifo_worker bus_offer "bus_take f" "\<lambda>r. chQueue (busCh (fst (fst r)))" snd
  dispatchBufferSize bus_live
  for f :: "'h \<Rightarrow> Event \<Rightarrow> 's \<Rightarrow> 's"
proof (unfold_locales, goal_cases)
  case (6 s s')
  then show ?case
    by (cases s) (auto simp: bus_take_def bus_live_def dispatch_turn_def deliver_quiet Let_def
        split: option.splits list.splits if_splits)
next
  case (5 s)
  then show ?case
    by (auto simp: bus_take_def bus_live_def dispatch_turn_def Let_def split: option.splits list.splits)
qed (auto simp: bus_offer_def Publish_def try_send_def bus_live_def Let_def split: if_splits)

end
