(* ===== verification/Exchange.thy ===== *)
theory Exchange
  imports Engine_Trades Engine_Core Engine_Depth Memory_Repos Broker
begin

text \<open>
  The matching engine on the in-memory repositories and the in-process bus, the configuration
  the server starts with when no database is configured. \<open>uuid.NewString\<close> belongs to a
  third-party package: it is the parameter \<open>uuid\<close>, the n-th identifier it returns, and the
  results that need it say that it never repeats itself (\<open>inj uuid\<close>). \<open>clock\<close> gives the
  successive readings of \<open>time.Now\<close>, of which nothing is assumed.
\<close>

record memory_world =
  wOrders :: OrderRepo
  wTrades :: TradeRepo
  wMarket :: MarketRepo
  wBus :: "Event channel"
  wPanicked :: bool
  wUuids :: nat
  wTicks :: nat

definition memory_deps :: "(nat \<Rightarrow> string) \<Rightarrow> (nat \<Rightarrow> time) \<Rightarrow> memory_world deps" where
  "memory_deps uuid clock =
     \<lparr>NewString = (\<lambda>w. (uuid (wUuids w), w\<lparr>wUuids := Suc (wUuids w)\<rparr>)),
      Now = (\<lambda>w. (clock (wTicks w), w\<lparr>wTicks := Suc (wTicks w)\<rparr>)),
      tradeRepoSave = (\<lambda>w trade.
        let (err, r) = TradeRepo_Save (wTrades w) trade in (err, w\<lparr>wTrades := r\<rparr>)),
      orderRepoUpdate = (\<lambda>w ord.
        let (err, r) = OrderRepo_Update (clock (wTicks w)) (wOrders w) ord
        in (err, w\<lparr>wOrders := r, wTicks := Suc (wTicks w)\<rparr>)),
      marketUpdateTickerFromTrade = (\<lambda>w code price qty.
        let (res, r) = MarketRepo_UpdateTickerFromTrade (clock (wTicks w)) (wMarket w) code price qty
        in (res, w\<lparr>wMarket := r, wTicks := Suc (wTicks w)\<rparr>)),
      marketUpdateOrderBook = (\<lambda>w b.
        let (err, r) = MarketRepo_UpdateOrderBook (wMarket w) b in (err, w\<lparr>wMarket := r\<rparr>)),
      busPublish = (\<lambda>w e.
        case try_send dispatchBufferSize (wBus w) e of
          (SendPanic, ch) \<Rightarrow> w\<lparr>wPanicked := True\<rparr>
        | (_, ch) \<Rightarrow> w\<lparr>wBus := ch\<rparr>)\<rparr>"

section \<open>The trade store contract\<close>

definition mem_ok :: "(nat \<Rightarrow> string) \<Rightarrow> memory_world \<Rightarrow> bool" where
  "mem_ok uuid w \<longleftrightarrow>
     inj uuid \<and> tr_wf (wTrades w) \<and> tID ` set (trAll (wTrades w)) \<subseteq> uuid ` {..<wUuids w}"

lemma mem_ok_frame:
  "wTrades w' = wTrades w \<Longrightarrow> wUuids w' = wUuids w \<Longrightarrow> mem_ok uuid w' = mem_ok uuid w"
  by (simp add: mem_ok_def)

interpretation mem: trade_store "memory_deps uuid clock" "mem_ok uuid" "\<lambda>w. trAll (wTrades w)"
  for uuid clock
proof (unfold_locales, goal_cases)
  case (1 w u w1 t w2 tr)
  then have u: "tID tr = uuid (wUuids w)" and w2: "wTrades w2 = wTrades w" "wUuids w2 = Suc (wUuids w)"
    by (auto simp: memory_deps_def)
  have new: "tID tr \<notin> tID ` set (trAll (wTrades w))"
    using 1(1) unfolding u mem_ok_def by (auto dest: injD)
  obtain r where r: "TradeRepo_Save (wTrades w) tr = (None, r)" "trAll r = trAll (wTrades w) @ [tr]" "tr_wf r"
    using TradeRepo_Save_cases(2) [OF _ new] 1(1) by (cases "TradeRepo_Save (wTrades w) tr") (auto simp: mem_ok_def)
  have "uuid ` {..<wUuids w} \<subseteq> uuid ` {..<Suc (wUuids w)}" by auto
  with 1(1) r w2 u show ?case
    by (auto simp: memory_deps_def mem_ok_def)
next
  case (2 w t w')
  then show ?case using mem_ok_frame [of w' w] by (auto simp: memory_deps_def)
next
  case (3 w ord r w')
  then show ?case using mem_ok_frame [of w' w] by (auto simp: memory_deps_def split: prod.splits)
next
  case (4 w c p q r' w')
  then show ?case using mem_ok_frame [of w' w] by (auto simp: memory_deps_def split: prod.splits)
next
  case (5 w b r w')
  then show ?case using mem_ok_frame [of w' w] by (auto simp: memory_deps_def split: prod.splits)
next
  case (6 w ev)
  have "wTrades (busPublish (memory_deps uuid clock) w ev) = wTrades w"
    "wUuids (busPublish (memory_deps uuid clock) w ev) = wUuids w"
    by (auto simp: memory_deps_def split: prod.splits send_result.splits)
  then show ?case using 6 mem_ok_frame [of "busPublish (memory_deps uuid clock) w ev" w] by simp
qed

section \<open>The repository follows the live orders\<close>

text \<open>The stored copy of an order agrees with the order object the engine works on.\<close>

definition agrees :: "Order \<Rightarrow> Order \<Rightarrow> bool" where
  "agrees live stored \<longleftrightarrow>
     same_identity live stored \<and> oStatus stored = oStatus live \<and> oFilledQuantity stored = oFilledQuantity live"

definition in_sync :: "addr set \<Rightarrow> order_heap \<Rightarrow> OrderRepo \<Rightarrow> bool" where
  "in_sync A h r \<longleftrightarrow>
     or_wf r \<and> inj_on (\<lambda>a. oID (h a)) A \<and>
     (\<forall>a\<in>A. \<exists>stored. OrderRepo_FindByID r (oID (h a)) = Inr stored \<and> agrees (h a) stored)"

lemma in_sync_update:
  assumes sync: "in_sync A h r" and b: "b \<in> A" and id: "same_identity (h b) o1"
  shows "in_sync A (h(b := o1)) (snd (OrderRepo_Update t r o1))"
proof -
  have wf: "or_wf r" and inj: "inj_on (\<lambda>a. oID (h a)) A" using sync by (simp_all add: in_sync_def)
  have idb: "oID o1 = oID (h b)" using id by (simp add: same_identity_def)
  obtain st where st: "OrderRepo_FindByID r (oID o1) = Inr st" "agrees (h b) st"
    using sync b idb by (auto simp: in_sync_def)
  note find = OrderRepo_FindByID_Update [OF wf st(1), of t]
  have ids: "(\<lambda>a. oID ((h(b := o1)) a)) = (\<lambda>a. oID (h a))" using idb by auto
  have "\<exists>stored. OrderRepo_FindByID (snd (OrderRepo_Update t r o1)) (oID ((h(b := o1)) a)) = Inr stored \<and>
      agrees ((h(b := o1)) a) stored" if "a \<in> A" for a
  proof (cases "a = b")
    case True
    then show ?thesis using st(2) id by (simp add: find agrees_def same_identity_def)
  next
    case False
    then have "oID (h a) \<noteq> oID o1" using inj b that by (auto simp: idb inj_on_def)
    then show ?thesis using sync that False by (simp add: find in_sync_def)
  qed
  then show ?thesis
    using or_wf_Update [OF wf] inj unfolding in_sync_def ids by blast
qed

lemma updateTicker_orders:
  "wOrders (world (updateTicker (memory_deps uuid clock) m p q)) = wOrders (world m)"
  by (auto simp: updateTicker_def memory_deps_def split: prod.splits sum.splits send_result.splits)

lemma busPublish_orders:
  "wOrders (busPublish (memory_deps uuid clock) w e) = wOrders w"
  by (auto simp: memory_deps_def split: prod.splits send_result.splits)

lemma executeTrade_orders:
  fixes m :: "memory_world mstate" and uuid :: "nat \<Rightarrow> string" and clock :: "nat \<Rightarrow> time" and q p :: int64
  assumes "b \<noteq> s"
  defines "m' \<equiv> executeTrade (memory_deps uuid clock) m b s q p"
  shows "heap m' = heap m \<and> wOrders (world m') = wOrders (world m) \<or>
    (\<exists>t1 t2 t3 t4. heap m' = (heap m)(b := Fill t1 (heap m b) q, s := Fill t2 (heap m s) q) \<and>
       wOrders (world m') = snd (OrderRepo_Update t4
         (snd (OrderRepo_Update t3 (wOrders (world m)) (Fill t1 (heap m b) q))) (Fill t2 (heap m s) q)))"
proof -
  have D: "NewString (memory_deps uuid clock) w = (uuid (wUuids w), w\<lparr>wUuids := Suc (wUuids w)\<rparr>)"
    "Now (memory_deps uuid clock) w = (clock (wTicks w), w\<lparr>wTicks := Suc (wTicks w)\<rparr>)"
    "tradeRepoSave (memory_deps uuid clock) w t =
       (fst (TradeRepo_Save (wTrades w) t), w\<lparr>wTrades := snd (TradeRepo_Save (wTrades w) t)\<rparr>)"
    "orderRepoUpdate (memory_deps uuid clock) w ord =
       (fst (OrderRepo_Update (clock (wTicks w)) (wOrders w) ord),
        w\<lparr>wOrders := snd (OrderRepo_Update (clock (wTicks w)) (wOrders w) ord), wTicks := Suc (wTicks w)\<rparr>)" for w t ord
    by (simp_all add: memory_deps_def split_beta)
  show ?thesis
    using assms(1)
    by (auto simp: m'_def executeTrade_def D Let_def updateTicker_orders busPublish_orders split: option.split)
qed

lemma executeTrade_sync:
  assumes "in_sync A (heap m) (wOrders (world m))" and "b \<in> A" and "s \<in> A" and "b \<noteq> s"
  shows "in_sync A (heap (executeTrade (memory_deps uuid clock) m b s q p))
    (wOrders (world (executeTrade (memory_deps uuid clock) m b s q p)))"
  using executeTrade_orders [OF assms(4), of uuid clock m q p]
proof (elim disjE exE conjE)
  fix t1 t2 t3 t4
  assume heap': "heap (executeTrade (memory_deps uuid clock) m b s q p) =
      (heap m)(b := Fill t1 (heap m b) q, s := Fill t2 (heap m s) q)"
    and orders': "wOrders (world (executeTrade (memory_deps uuid clock) m b s q p)) =
      snd (OrderRepo_Update t4
         (snd (OrderRepo_Update t3 (wOrders (world m)) (Fill t1 (heap m b) q))) (Fill t2 (heap m s) q))"
  show ?thesis
    unfolding heap' orders'
    by (intro in_sync_update assms) (use assms(4) in simp_all)
qed (use assms(1) in simp)

lemma publishOrderBook_orders:
  "wOrders (world (publishOrderBook (memory_deps uuid clock) m)) = wOrders (world m)"
  by (auto simp: publishOrderBook_def memory_deps_def Let_def split: prod.splits send_result.splits)

text \<open>The orders one call of \<open>matchOrder\<close> works on: the incoming one and those resting in the book.\<close>

definition involved :: "'w mstate \<Rightarrow> addr \<Rightarrow> addr set" where
  "involved m a = insert a (eOrder ` set (book_entries (book m)))"

lemma matchOrder_sync_aux:
  assumes inv: "book_inv (heap m) (book m)" and inc: "incoming_ok (heap m) (book m) a"
    and sub: "involved m a \<subseteq> L" and sync: "in_sync L (heap m) (wOrders (world m))"
  shows "in_sync L (heap (matchOrder (memory_deps uuid clock) m a))
    (wOrders (world (matchOrder (memory_deps uuid clock) m a)))"
proof -
  let ?d = "memory_deps uuid clock"
  let ?A = "eOrder ` set (book_entries (book m))"
  let ?J = "\<lambda>x. in_sync L (heap x) (wOrders (world x))"
  have "a \<notin> ?A" using inv inc by (auto simp: book_inv_def incoming_ok_def book_wf_def entry_id_def)
  then have ne: "\<And>s. s \<in> ?A \<Longrightarrow> a \<noteq> s \<and> s \<noteq> a" by auto
  have B: "?J (matchBuy ?d m a)"
  proof (rule buy.loop_preserves [where J = ?J and A = ?A])
    show "?J (executeTrade ?d x a s q p)" if "?J x" "s \<in> ?A" for x s q p
      using that ne sub by (intro executeTrade_sync) (auto simp: involved_def)
  qed (use sync in \<open>auto simp: book_entries_def\<close>)
  have S: "?J (matchSell ?d m a)"
  proof (rule sell.loop_preserves [where J = ?J and A = ?A])
    show "?J (executeTrade ?d x s a q p)" if "?J x" "s \<in> ?A" for x s q p
      using that ne sub by (intro executeTrade_sync) (auto simp: involved_def)
  qed (use sync in \<open>auto simp: book_entries_def\<close>)
  have "?J (match_phase ?d m a)" using B S sync by (simp add: match_phase_def)
  then show ?thesis
    by (simp add: matchOrder_def match_phase_def [symmetric] Let_def publishOrderBook_orders)
qed

end
