(* ===== verification/Engine_Properties.thy ===== *)
theory Engine_Properties
  imports Exchange
begin

text \<open>
  The properties of the matching engine, with a small exchange on which their hypotheses hold:
  two resting sell orders, two resting buy orders, an incoming buy and an incoming sell.
\<close>

section \<open>A small exchange\<close>

definition sample_order :: "string \<Rightarrow> Side \<Rightarrow> int64 \<Rightarrow> int64 \<Rightarrow> Order" where
  "sample_order i side price qty =
     \<lparr>oID = i, oUserID = ''user-'' @ i, oStockCode = ''BBCA'', oSide = side, oPrice = price,
      oQuantity = qty, oFilledQuantity = 0, oStatus = OrderStatusOpen, oCreatedAt = 0, oUpdatedAt = 0\<rparr>"

definition sample_heap :: order_heap where
  "sample_heap a =
     (if a = 0 then sample_order ''a0'' SideSell 9500 50
      else if a = 1 then sample_order ''a1'' SideSell 9525 100
      else if a = 2 then sample_order ''b2'' SideBuy 9450 80
      else if a = 3 then sample_order ''b3'' SideBuy 9425 30
      else if a = 4 then sample_order ''b4'' SideBuy 9525 120
      else sample_order ''a5'' SideSell 9425 200)"

definition sample_book :: orderBook where
  "sample_book =
     \<lparr>bookStockCode = ''BBCA'',
      bids = [\<lparr>eOrder = 2, eRemaining = 80\<rparr>, \<lparr>eOrder = 3, eRemaining = 30\<rparr>],
      asks = [\<lparr>eOrder = 0, eRemaining = 50\<rparr>, \<lparr>eOrder = 1, eRemaining = 100\<rparr>],
      index = {''a0'', ''a1'', ''b2'', ''b3''}\<rparr>"

definition sample_orders :: OrderRepo where
  "sample_orders = foldl (\<lambda>r a. snd (OrderRepo_Save r (sample_heap a))) NewOrderRepo [0, 1, 2, 3, 4, 5]"

definition sample_world :: memory_world where
  "sample_world =
     \<lparr>wOrders = sample_orders, wTrades = NewTradeRepo,
      wMarket = MarketRepo_InitStock 0 0 NewMarketRepo
        \<lparr>sCode = ''BBCA'', sName = [], sBasePrice = 9500, sTickSize = 25\<rparr>,
      wBus = new_channel, wPanicked = False, wUuids = 0, wTicks = 0\<rparr>"

definition sample_uuid :: "nat \<Rightarrow> string" where "sample_uuid n = replicate n CHR ''u''"

definition sample_clock :: "nat \<Rightarrow> time" where "sample_clock n = int n"

definition sample_deps :: "memory_world deps" where
  "sample_deps = memory_deps sample_uuid sample_clock"

definition sample_state :: "memory_world mstate" where
  "sample_state = \<lparr>stockCode = ''BBCA'', book = sample_book, heap = sample_heap, world = sample_world\<rparr>"

lemma sample_sel [simp]:
  "book sample_state = sample_book" "heap sample_state = sample_heap" "world sample_state = sample_world"
  "stockCode sample_state = ''BBCA''"
  by (simp_all add: sample_state_def)

lemma sample_inv: "book_inv sample_heap sample_book"
  by code_simp

lemma sample_exact: "book_exact sample_heap sample_book"
  by code_simp

lemma sample_buy_ok: "incoming_ok sample_heap sample_book 4"
  by code_simp

lemma sample_sell_ok: "incoming_ok sample_heap sample_book 5"
  by code_simp

lemma sample_mem_ok: "mem_ok sample_uuid sample_world"
proof -
  have "inj sample_uuid"
  proof (rule injI)
    fix x y
    assume "sample_uuid x = sample_uuid y"
    then have "length (sample_uuid x) = length (sample_uuid y)" by simp
    then show "x = y" by (simp add: sample_uuid_def)
  qed
  then show ?thesis by (simp add: mem_ok_def sample_world_def tr_wf_New) (simp add: NewTradeRepo_def)
qed

lemma sample_sync: "in_sync (involved sample_state a) sample_heap (wOrders sample_world)"
  if "a = 4 \<or> a = 5"
proof -
  have wf: "or_wf sample_orders"
    by (simp add: sample_orders_def or_wf_Save or_wf_New)
  have inv: "involved sample_state a = {a, 0, 1, 2, 3}"
    by (auto simp: involved_def sample_book_def book_entries_def)
  have found: "OrderRepo_FindByID sample_orders (oID (sample_heap x)) = Inr (sample_heap x)"
    if "x \<in> {0, 1, 2, 3, 4, 5}" for x
    using that by (elim insertE) (simp_all, code_simp+)
  have "inj_on (\<lambda>a. oID (sample_heap a)) {a, 0, 1, 2, 3}"
    using that by (auto simp: inj_on_def sample_heap_def sample_order_def)
  then show ?thesis
    using wf found that by (auto simp: in_sync_def inv sample_world_def agrees_def)
qed

section \<open>Matching an order\<close>

text \<open>
  C1: the matching of a buy order, on the in-memory repositories, is price-time priority. The
  asks are served in book order while their price is at most the limit and something is left
  (\<open>match_spec\<close>); each fill is one recorded trade, at the resting order's price and between the
  right two orders, in the order of the fills; both orders of a trade are filled by its quantity
  and no other order changes; exactly the entries that were served in full leave the book.
\<close>

theorem matchBuy_price_time_priority:
  assumes "mem_ok uuid (world m)" and "book_inv (heap m) (book m)" and "incoming_ok (heap m) (book m) a"
    and "fs = fills (\<lambda>e. entry_price (heap m) e \<le> oPrice (heap m a)) (RemainingQuantity (heap m a)) (asks (book m))"
    and "m' = matchBuy (memory_deps uuid clock) m a"
  shows "filled_by (heap m) a fs (heap m') \<and>
    book m' = (book m)\<lparr>asks := rest_of (\<lambda>e. entry_price (heap m) e \<le> oPrice (heap m a))
                                  (RemainingQuantity (heap m a)) (asks (book m)),
                       index := index (book m) - served (heap m) fs\<rparr> \<and>
    (\<exists>ts. trAll (wTrades (world m')) = trAll (wTrades (world m)) @ ts \<and>
       list_all2 (\<lambda>(e, q). trade_of (stockCode m) (heap m a) (heap m (eOrder e)) q (entry_price (heap m) e)) fs ts)"
  unfolding assms(4,5) using mem.matchBuy_trades [OF assms(1-3), of clock] by blast

theorem matchBuy_price_time_priority_witness:
  "filled_by sample_heap 4 [(\<lparr>eOrder = 0, eRemaining = 50\<rparr>, 50), (\<lparr>eOrder = 1, eRemaining = 100\<rparr>, 70)]
     (heap (matchBuy sample_deps sample_state 4))"
proof -
  have "[(\<lparr>eOrder = 0, eRemaining = 50\<rparr>, 50), (\<lparr>eOrder = 1, eRemaining = 100\<rparr>, 70)] =
      fills (\<lambda>e. entry_price sample_heap e \<le> oPrice (sample_heap 4)) (RemainingQuantity (sample_heap 4)) (asks sample_book)"
    by code_simp
  from matchBuy_price_time_priority [of sample_uuid sample_state 4, simplified, OF sample_mem_ok sample_inv sample_buy_ok this]
  show ?thesis unfolding sample_deps_def by blast
qed

text \<open>
  C2: the matching of a sell order is price-time priority on the bids, with trades at the
  resting buy order's price.
\<close>

theorem matchSell_price_time_priority:
  assumes "mem_ok uuid (world m)" and "book_inv (heap m) (book m)" and "incoming_ok (heap m) (book m) a"
    and "fs = fills (\<lambda>e. oPrice (heap m a) \<le> entry_price (heap m) e) (RemainingQuantity (heap m a)) (bids (book m))"
    and "m' = matchSell (memory_deps uuid clock) m a"
  shows "filled_by (heap m) a fs (heap m') \<and>
    book m' = (book m)\<lparr>bids := rest_of (\<lambda>e. oPrice (heap m a) \<le> entry_price (heap m) e)
                                  (RemainingQuantity (heap m a)) (bids (book m)),
                       index := index (book m) - served (heap m) fs\<rparr> \<and>
    (\<exists>ts. trAll (wTrades (world m')) = trAll (wTrades (world m)) @ ts \<and>
       list_all2 (\<lambda>(e, q). trade_of (stockCode m) (heap m (eOrder e)) (heap m a) q (entry_price (heap m) e)) fs ts)"
  unfolding assms(4,5) using mem.matchSell_trades [OF assms(1-3), of clock] by blast

theorem matchSell_price_time_priority_witness:
  "filled_by sample_heap 5 [(\<lparr>eOrder = 2, eRemaining = 80\<rparr>, 80), (\<lparr>eOrder = 3, eRemaining = 30\<rparr>, 30)]
     (heap (matchSell sample_deps sample_state 5))"
proof -
  have "[(\<lparr>eOrder = 2, eRemaining = 80\<rparr>, 80), (\<lparr>eOrder = 3, eRemaining = 30\<rparr>, 30)] =
      fills (\<lambda>e. oPrice (sample_heap 5) \<le> entry_price sample_heap e) (RemainingQuantity (sample_heap 5)) (bids sample_book)"
    by code_simp
  from matchSell_price_time_priority [of sample_uuid sample_state 5, simplified, OF sample_mem_ok sample_inv sample_sell_ok this]
  show ?thesis unfolding sample_deps_def by blast
qed

text \<open>
  Whatever the repositories, the bus, the clock and the UUID generator do, errors included,
  \<open>matchOrder\<close> keeps the invariant of the book: both sides sorted best price first, each order
  once and on its own side, the index exact, no bid meeting an ask, and no entry offering more
  than its order has left, so that no order is ever filled beyond its quantity.
\<close>

lemma matchOrder_keeps_book_invariant:
  assumes "book_inv (heap m) (book m)" and "incoming_ok (heap m) (book m) a"
  shows "book_inv (heap (matchOrder d m a)) (book (matchOrder d m a)) \<and>
    order_wf (heap (matchOrder d m a) a) \<and> heap_frame (heap m) (heap (matchOrder d m a)) \<and>
    index (book (matchOrder d m a)) \<subseteq> insert (oID (heap m a)) (index (book m))"
  using matchOrder_inv [OF assms, of d] by blast

lemma matchOrder_keeps_book_invariant_witness:
  "book_inv (heap (matchOrder sample_deps sample_state 4)) (book (matchOrder sample_deps sample_state 4))"
  using matchOrder_keeps_book_invariant [of sample_state 4 sample_deps] sample_inv sample_buy_ok by simp

text \<open>
  C5: after \<open>matchOrder\<close> an order is either filled completely, marked FILLED and absent from
  the book, or it rests in the book with everything it has left.
\<close>

theorem matchOrder_fills_or_rests:
  assumes "book_inv (heap m) (book m)" and "incoming_ok (heap m) (book m) a"
    and "m' = matchOrder d m a"
  shows "RemainingQuantity (heap m' a) = 0 \<and> oStatus (heap m' a) = OrderStatusFilled \<and>
      oID (heap m a) \<notin> index (book m') \<or>
    0 < RemainingQuantity (heap m' a) \<and>
      \<lparr>eOrder = a, eRemaining = RemainingQuantity (heap m' a)\<rparr> \<in> set (book_entries (book m'))"
  unfolding assms(3) by (rule matchOrder_rests [OF assms(1,2)])

theorem matchOrder_fills_or_rests_witness:
  "\<exists>m'. m' = matchOrder sample_deps sample_state 5 \<and>
    (RemainingQuantity (heap m' 5) = 0 \<and> oStatus (heap m' 5) = OrderStatusFilled \<and> ''a5'' \<notin> index (book m') \<or>
     0 < RemainingQuantity (heap m' 5) \<and>
      \<lparr>eOrder = 5, eRemaining = RemainingQuantity (heap m' 5)\<rparr> \<in> set (book_entries (book m')))"
proof -
  have "oID (sample_heap 5) = ''a5''" by code_simp
  with matchOrder_fills_or_rests [of sample_state 5 _ sample_deps, simplified, OF sample_inv sample_sell_ok refl]
  show ?thesis by simp
qed

text \<open>
  C9: as long as trades are saved, the book and the order objects agree: the remaining quantity
  of every entry is exactly what its order has left.
\<close>

theorem matchOrder_keeps_book_exact:
  assumes "mem_ok uuid (world m)" and "book_inv (heap m) (book m)" and "incoming_ok (heap m) (book m) a"
    and "book_exact (heap m) (book m)"
  shows "book_exact (heap (matchOrder (memory_deps uuid clock) m a)) (book (matchOrder (memory_deps uuid clock) m a)) \<and>
    mem_ok uuid (world (matchOrder (memory_deps uuid clock) m a))"
  using mem.matchOrder_exact [OF assms, of clock] by blast

theorem matchOrder_keeps_book_exact_witness:
  "book_exact (heap (matchOrder sample_deps sample_state 4)) (book (matchOrder sample_deps sample_state 4))"
  using matchOrder_keeps_book_exact [of sample_uuid sample_state 4 sample_clock]
    sample_mem_ok sample_inv sample_buy_ok sample_exact by (simp add: sample_deps_def)

text \<open>
  The order repository follows the engine. If the stored copies of the incoming order and of
  all resting orders agree with the live ones before \<open>matchOrder\<close>, they agree after it.
\<close>

lemma matchOrder_keeps_repository_in_sync:
  assumes "book_inv (heap m) (book m)" and "incoming_ok (heap m) (book m) a"
    and "in_sync (involved m a) (heap m) (wOrders (world m))"
  shows "in_sync (involved m a) (heap (matchOrder (memory_deps uuid clock) m a))
    (wOrders (world (matchOrder (memory_deps uuid clock) m a)))"
  by (rule matchOrder_sync_aux [OF assms(1,2) order_refl assms(3)])

lemma matchOrder_keeps_repository_in_sync_witness:
  "in_sync (involved sample_state 4) (heap (matchOrder sample_deps sample_state 4))
    (wOrders (world (matchOrder sample_deps sample_state 4)))"
  using matchOrder_keeps_repository_in_sync [of sample_state 4 sample_uuid sample_clock]
    sample_inv sample_buy_ok sample_sync [of 4] by (simp add: sample_deps_def)

text \<open>
  C33: when the trade store fails, \<open>executeTrade\<close> gives up before filling anything, but the loop
  goes on consuming the book: every ask the order could trade with is thrown out of the book
  although no order was filled.
\<close>

theorem matchBuy_drains_book_when_saving_fails:
  assumes "\<forall>w tr. fst (tradeRepoSave d w tr) \<noteq> None"
    and "book_wf (heap m) (book m)" and "oID (heap m a) \<notin> index (book m)"
    and "0 < RemainingQuantity (heap m a)"
  shows "heap (matchBuy d m a) = heap m \<and>
    asks (book (matchBuy d m a)) =
      dropWhile (\<lambda>e. entry_price (heap m) e \<le> oPrice (heap m a)) (asks (book m))"
  using matchBuy_unsaved [of d m a] assms by blast

theorem matchBuy_drains_book_when_saving_fails_witness:
  "asks (book (matchBuy (sample_deps\<lparr>tradeRepoSave := \<lambda>w tr. (Some (ErrOther ''down''), w)\<rparr>) sample_state 4)) = []"
proof -
  let ?d = "sample_deps\<lparr>tradeRepoSave := \<lambda>w tr. (Some (ErrOther ''down''), w)\<rparr>"
  have "0 < RemainingQuantity (sample_heap 4)" by code_simp
  then have "asks (book (matchBuy ?d sample_state 4)) =
      dropWhile (\<lambda>e. entry_price sample_heap e \<le> oPrice (sample_heap 4)) (asks sample_book)"
    using matchBuy_drains_book_when_saving_fails [of ?d sample_state 4] sample_inv sample_buy_ok
    by (simp add: book_inv_def incoming_ok_def)
  also have "\<dots> = []" by code_simp
  finally show ?thesis .
qed

section \<open>The book\<close>

text \<open>
  An order enters its side behind every order with a price at least as good and before every
  order with a worse one: price priority, and first come first served within a price.
\<close>

lemma addOrder_price_time_position:
  assumes "book_wf h ob" and "oID (h a) \<notin> index ob"
  shows "(oSide (h a) = SideBuy \<longrightarrow> addOrder h ob a =
      ob\<lparr>index := insert (oID (h a)) (index ob),
         bids := takeWhile (\<lambda>e. entry_price h e \<ge> oPrice (h a)) (bids ob) @
                 \<lparr>eOrder = a, eRemaining = RemainingQuantity (h a)\<rparr> #
                 dropWhile (\<lambda>e. entry_price h e \<ge> oPrice (h a)) (bids ob)\<rparr>) \<and>
    (oSide (h a) = SideSell \<longrightarrow> addOrder h ob a =
      ob\<lparr>index := insert (oID (h a)) (index ob),
         asks := takeWhile (\<lambda>e. entry_price h e \<le> oPrice (h a)) (asks ob) @
                 \<lparr>eOrder = a, eRemaining = RemainingQuantity (h a)\<rparr> #
                 dropWhile (\<lambda>e. entry_price h e \<le> oPrice (h a)) (asks ob)\<rparr>)"
  using assms addOrder_buy [of h ob a] addOrder_sell [of h ob a] by (simp add: book_wf_def)

lemma addOrder_price_time_position_example:
  "bids (addOrder sample_heap sample_book 4) = \<lparr>eOrder = 4, eRemaining = 120\<rparr> # bids sample_book"
proof -
  have a: "oSide (sample_heap 4) = SideBuy" by code_simp
  have "takeWhile (\<lambda>e. entry_price sample_heap e \<ge> oPrice (sample_heap 4)) (bids sample_book) = []"
    "dropWhile (\<lambda>e. entry_price sample_heap e \<ge> oPrice (sample_heap 4)) (bids sample_book) = bids sample_book"
    "RemainingQuantity (sample_heap 4) = 120"
    by code_simp+
  then show ?thesis
    using addOrder_price_time_position [of sample_heap sample_book 4] sample_inv sample_buy_ok a
    by (simp add: book_inv_def incoming_ok_def)
qed

text \<open>
  C15: the depth snapshot lists, for each side, the distinct prices best first, up to the number
  of levels asked for, each with the total remaining quantity and the number of its orders.
\<close>

theorem getDepth_aggregates_levels:
  assumes "book_wf h ob"
  shows "getDepth h ob n = \<lparr>obStockCode = bookStockCode ob, obBids = depth_spec h (bids ob) n,
    obAsks = depth_spec h (asks ob) n, obUpdatedAt = 0\<rparr>"
  by (rule getDepth_spec [OF assms])

theorem getDepth_aggregates_levels_witness:
  "obAsks (getDepth sample_heap sample_book 1) = [\<lparr>plPrice = 9500, plQuantity = 50, plCount = 1\<rparr>]"
proof -
  have "depth_spec sample_heap (asks sample_book) 1 = [\<lparr>plPrice = 9500, plQuantity = 50, plCount = 1\<rparr>]"
    by code_simp
  then show ?thesis
    using getDepth_aggregates_levels [of sample_heap sample_book 1] sample_inv by (simp add: book_inv_def)
qed

section \<open>The engine\<close>

text \<open>
  C3: in every state an engine can reach, by any interleaving of submissions, turns of the
  matcher goroutines, \<open>Stop\<close> and changes by the rest of the program, with any repositories,
  every stock's book satisfies its invariant (sorted, uncrossed, never promising more than its
  orders have), holds only orders of that stock, and its queue stays within its capacity.
\<close>

theorem engine_books_always_consistent:
  assumes "engine_reachable d e" and "engMatchers e code = Some m"
  shows "book_inv (engHeap e) (mcBook m) \<and> bookStockCode (mcBook m) = code \<and>
    (\<forall>a\<in>held m. oStockCode (engHeap e a) = code) \<and> length (chQueue (mcCh m)) \<le> matcherChanCap"
  using engine_reachable_inv [OF assms(1)] assms(2) by (simp add: engine_inv_def matcher_inv_def)

definition sample_stock :: Stock where
  "sample_stock = \<lparr>sCode = ''BBCA'', sName = [], sBasePrice = 9500, sTickSize = 25\<rparr>"

theorem engine_books_always_consistent_witness:
  "\<exists>e m. engine_reachable sample_deps e \<and> engMatchers e ''BBCA'' = Some m \<and> map eOrder (bids (mcBook m)) = [4] \<and>
     book_inv (engHeap e) (mcBook m)"
proof -
  let ?e = "Start (NewEngine [sample_stock] sample_heap sample_world)"
  have m: "engMatchers ?e ''BBCA'' = Some (newMatcher ''BBCA'')" "engHeap ?e = sample_heap" "''BBCA'' \<in> engStarted ?e"
    "engExited ?e = {}"
    by (simp_all add: Start_def NewEngine_def sample_stock_def)
  have r1: "engine_reachable sample_deps ?e"
    by (rule engine_reachable.step [OF engine_reachable.init engine_step.start]) (simp add: NewEngine_def)
  have o4: "sample_heap 4 = sample_order ''b4'' SideBuy 9525 120" by (simp add: sample_heap_def)
  define q where "q = newMatcher ''BBCA'' \<lparr>mcCh := \<lparr>chQueue = [Some 4], chClosed = False\<rparr>\<rparr>"
  define e2 where "e2 = ?e\<lparr>engMatchers := (engMatchers ?e)(''BBCA'' \<mapsto> q)\<rparr>"
  have "SubmitOrder ?e 4 = Return (Inr (), e2)"
    by (simp add: SubmitOrder_def m o4 sample_order_def submit_def try_send_def newMatcher_def new_channel_def matcherChanCap_def
        e2_def q_def)
  moreover have "admissible ?e 4"
    using sample_buy_ok
    by (auto simp: admissible_def incoming_ok_def m o4 sample_order_def held_ids_def newMatcher_def new_channel_def newOrderBook_def)
  ultimately have r2: "engine_reachable sample_deps e2" by (intro engine_reachable.step [OF r1 engine_step.submit])
  define t where "t = matchOrder sample_deps (view e2 q) 4"
  define e3 where "e3 = e2\<lparr>engHeap := heap t, engWorld := world t, engMatchers := (engMatchers e2)(''BBCA'' \<mapsto>
      q\<lparr>mcBook := book t, mcCh := (mcCh q)\<lparr>chQueue := []\<rparr>\<rparr>)\<rparr>"
  have "run_turn sample_deps ''BBCA'' e2 = Some e3"
  proof -
    have "engMatchers e2 ''BBCA'' = Some q" "engStarted e2 = engStarted ?e" "engExited e2 = {}" by (simp_all add: e2_def m)
    moreover have "chQueue (mcCh q) = [Some 4]" by (simp add: q_def)
    ultimately show ?thesis using m(3) by (simp add: run_turn_def handle_def t_def [symmetric] e3_def)
  qed
  then have r3: "engine_reachable sample_deps e3" by (rule engine_reachable.step [OF r2 engine_step.turn])
  have "map eOrder (bids (book t)) = [4]"
  proof -
    have v: "view e2 q = \<lparr>stockCode = ''BBCA'', book = newOrderBook ''BBCA'', heap = sample_heap, world = sample_world\<rparr>"
      by (simp add: view_def e2_def q_def newMatcher_def Start_def NewEngine_def)
    show ?thesis unfolding t_def v by code_simp
  qed
  moreover have m3: "engMatchers e3 ''BBCA'' = Some (q\<lparr>mcBook := book t, mcCh := (mcCh q)\<lparr>chQueue := []\<rparr>\<rparr>)"
    by (simp add: e3_def)
  ultimately show ?thesis using engine_books_always_consistent [OF r3 m3] r3 by fastforce
qed

text \<open>
  C18: once \<open>Stop\<close> has closed a matcher's channel, its goroutine needs one turn for each queued
  order and one more: it matches all of them, in the order they were accepted, and exits, so
  that \<open>Stop\<close> does not wait for ever and no accepted order is dropped.
\<close>

theorem stop_drains_queue:
  assumes "engMatchers e code = Some m" and "code \<in> engStarted e" and "code \<notin> engExited e"
    and "chClosed (mcCh m)"
  shows "turns d code (Suc (length (chQueue (mcCh m)))) e = Some (drained d code m e)"
  by (rule drain [OF assms])

theorem stop_drains_queue_witness:
  "turns sample_deps ''BBCA'' 1 (Stop_close (Start (NewEngine [sample_stock] sample_heap sample_world))) =
   Some (drained sample_deps ''BBCA'' (newMatcher ''BBCA'' \<lparr>mcCh := \<lparr>chQueue = [], chClosed = True\<rparr>\<rparr>)
     (Stop_close (Start (NewEngine [sample_stock] sample_heap sample_world))))"
proof -
  let ?e = "Stop_close (Start (NewEngine [sample_stock] sample_heap sample_world))"
  let ?m = "newMatcher ''BBCA'' \<lparr>mcCh := \<lparr>chQueue = [], chClosed = True\<rparr>\<rparr>"
  have "engMatchers ?e ''BBCA'' = Some ?m" "''BBCA'' \<in> engStarted ?e" "''BBCA'' \<notin> engExited ?e"
    by (simp_all add: Stop_close_def Start_def NewEngine_def sample_stock_def newMatcher_def new_channel_def)
  from stop_drains_queue [OF this, of sample_deps] show ?thesis by simp
qed

text \<open>
  A submission that arrives after \<open>Stop\<close> has closed the channels does not return an error:
  it panics, for every stock the engine knows.
\<close>

lemma submit_after_stop_panics:
  assumes "engMatchers e (oStockCode (engHeap e a)) = Some m" and "\<not> engStopped e"
  shows "SubmitOrder (Stop_close e) a = Panic"
  by (rule SubmitOrder_stopped [OF assms])

lemma submit_after_stop_panics_witness:
  "SubmitOrder (Stop_close (NewEngine [sample_stock] sample_heap sample_world)) 4 = Panic"
proof -
  have "oStockCode (sample_heap 4) = ''BBCA''" by code_simp
  then have "engMatchers (NewEngine [sample_stock] sample_heap sample_world)
      (oStockCode (engHeap (NewEngine [sample_stock] sample_heap sample_world) 4)) = Some (newMatcher ''BBCA'')"
    by (simp add: NewEngine_def sample_stock_def)
  from submit_after_stop_panics [OF this] show ?thesis by (simp add: NewEngine_def)
qed

end
