(* ===== verification/Engine_Termination.thy ===== *)
theory Engine_Termination
  imports Engine_Matcher
begin

text \<open>
  The loops of \<open>matchBuy\<close> and \<open>matchSell\<close> (src/internal/engine/matcher.go) run a bounded number
  of times, whatever the repositories, the bus and the clock do. The loops are repeated here with
  a bound on their iterations; a bound that is reached before the loop's break gives \<open>None\<close>.
\<close>

definition buy_continues :: "'w mstate \<Rightarrow> addr \<Rightarrow> orderEntry option" where
  "buy_continues m buy =
     (case bestAsk (book m) of
        None \<Rightarrow> None
      | Some best \<Rightarrow>
          if entry_price (heap m) best > oPrice (heap m buy) \<or> RemainingQuantity (heap m buy) \<le> 0 then None else Some best)"

definition sell_continues :: "'w mstate \<Rightarrow> addr \<Rightarrow> orderEntry option" where
  "sell_continues m sell =
     (case bestBid (book m) of
        None \<Rightarrow> None
      | Some best \<Rightarrow>
          if entry_price (heap m) best < oPrice (heap m sell) \<or> RemainingQuantity (heap m sell) \<le> 0 then None else Some best)"

fun bounded_loop :: "('m \<Rightarrow> 'e option) \<Rightarrow> ('m \<Rightarrow> 'e \<Rightarrow> 'm) \<Rightarrow> nat \<Rightarrow> 'm \<Rightarrow> 'm option" where
  "bounded_loop continues body 0 m = (case continues m of None \<Rightarrow> Some m | Some e \<Rightarrow> None)"
| "bounded_loop continues body (Suc n) m =
     (case continues m of None \<Rightarrow> Some m | Some e \<Rightarrow> bounded_loop continues body n (body m e))"

text \<open>An iteration takes an entry off the side or at least one unit off its first entry.\<close>

definition side_turns :: "orderEntry list \<Rightarrow> nat" where
  "side_turns es = sum_list (map (\<lambda>e. max 1 (nat (eRemaining e))) es)"

lemma side_turns_consume:
  assumes "0 < rem"
  shows "side_turns (let r = sub64 (eRemaining e) (min64 rem (eRemaining e))
      in if r \<le> 0 then es else e\<lparr>eRemaining := r\<rparr> # es) < side_turns (e # es)"
proof -
  define r where "r = sub64 (eRemaining e) (min64 rem (eRemaining e))"
  have "0 < r \<Longrightarrow> nat r < nat (eRemaining e)" unfolding r_def by (rule consume_decreases [OF assms])
  then show ?thesis unfolding r_def [symmetric] by (auto simp: side_turns_def Let_def)
qed

lemma matchBuy_continues:
  "matchBuy d m buy = (case buy_continues m buy of None \<Rightarrow> m | Some best \<Rightarrow> matchBuy d (matchBuy_iteration d m buy best) buy)"
  by (subst matchBuy.simps) (simp add: buy_continues_def split: option.split)

lemma matchSell_continues:
  "matchSell d m sell = (case sell_continues m sell of None \<Rightarrow> m | Some best \<Rightarrow> matchSell d (matchSell_iteration d m sell best) sell)"
  by (subst matchSell.simps) (simp add: sell_continues_def split: option.split)

lemma buy_continues_decreases:
  "buy_continues m buy = Some best \<Longrightarrow>
   side_turns (asks (book (matchBuy_iteration d m buy best))) < side_turns (asks (book m))"
  using side_turns_consume [of "RemainingQuantity (heap m buy)" best]
  by (auto simp: buy_continues_def bestAsk_Some matchBuy_iteration_asks split: option.splits if_splits)

lemma sell_continues_decreases:
  "sell_continues m sell = Some best \<Longrightarrow>
   side_turns (bids (book (matchSell_iteration d m sell best))) < side_turns (bids (book m))"
  using side_turns_consume [of "RemainingQuantity (heap m sell)" best]
  by (auto simp: sell_continues_def bestBid_Some matchSell_iteration_bids split: option.splits if_splits)

text \<open>A loop whose body decreases a measure ends within that many iterations.\<close>

lemma bounded_loop_ends:
  fixes size_of :: "'m \<Rightarrow> nat"
  assumes unfold: "\<And>m. f m = (case continues m of None \<Rightarrow> m | Some e \<Rightarrow> f (body m e))"
    and decr: "\<And>m e. continues m = Some e \<Longrightarrow> size_of (body m e) < size_of m"
  shows "size_of m \<le> n \<Longrightarrow> bounded_loop continues body n m = Some (f m)"
proof (induction n arbitrary: m)
  case 0
  then show ?case using unfold [of m] decr [of m] by (cases "continues m") auto
next
  case (Suc n)
  then show ?case
  proof (cases "continues m")
    case (Some e)
    then have "size_of (body m e) \<le> n" using Suc.prems decr [OF Some] by simp
    then show ?thesis using Suc.IH unfold [of m] Some by simp
  qed (use unfold [of m] in simp)
qed

text \<open>
  C12: matching ends. The loop for a buy order reaches its break after at most one iteration for
  each unit that rests on the other side of the book, and so does the loop for a sell order, for
  every behaviour of the repositories (also when no trade can be saved) and on every book.
\<close>

theorem matching_loops_terminate:
  "bounded_loop (\<lambda>m. buy_continues m buy) (\<lambda>m. matchBuy_iteration d m buy) (side_turns (asks (book m))) m =
     Some (matchBuy d m buy) \<and>
   bounded_loop (\<lambda>m. sell_continues m sell) (\<lambda>m. matchSell_iteration d m sell) (side_turns (bids (book m))) m =
     Some (matchSell d m sell)"
  by (intro conjI bounded_loop_ends [where size_of = "\<lambda>m. side_turns (asks (book m))"]
      bounded_loop_ends [where size_of = "\<lambda>m. side_turns (bids (book m))"])
    (fact matchBuy_continues matchSell_continues buy_continues_decreases sell_continues_decreases order_refl)+

end
