(* ===== verification/Ticker_Race.thy ===== *)
theory Ticker_Race
  imports Memory_Repos
begin

text \<open>
  The two critical sections of a ticker write (src/internal/infra/storage/memory/market_repo.go).
  \<open>UpdateTickerFromTrade\<close> loads and stores under the write lock, but the store of \<open>UpdateTicker\<close>
  runs after its lock is released, so it can fall between them.
\<close>

definition trade_load :: "time \<Rightarrow> MarketRepo \<Rightarrow> string \<Rightarrow> int64 \<Rightarrow> int64 \<Rightarrow> repo_error + Ticker" where
  "trade_load now r code price qty =
     (case mkTickers r code of Some (Some current) \<Rightarrow> Inr (UpdateFromTrade now current price qty) | _ \<Rightarrow> Inl ErrNotFound)"

definition ticker_store :: "MarketRepo \<Rightarrow> string \<Rightarrow> Ticker \<Rightarrow> MarketRepo" where
  "ticker_store r code t = (if mkTickers r code = None then r else r\<lparr>mkTickers := (mkTickers r)(code \<mapsto> Some t)\<rparr>)"

text \<open>Without anything in between the two halves are the operations of theory \<open>Memory_Repos\<close>.\<close>

lemma trade_load_store:
  "MarketRepo_UpdateTickerFromTrade now r code price qty =
     (case trade_load now r code price qty of Inl e \<Rightarrow> (Inl e, r) | Inr t \<Rightarrow> (Inr t, ticker_store r code t))"
  by (auto simp: MarketRepo_UpdateTickerFromTrade_def trade_load_def ticker_store_def Let_def split: option.split)

lemma update_store:
  "snd (MarketRepo_UpdateTicker r t) = ticker_store r (tkStockCode t) t"
  by (auto simp: MarketRepo_UpdateTicker_def ticker_store_def split: option.split)

text \<open>
  A feed's update that falls between the load and the store of a trade is lost: the ticker ends
  as if the feed had not written, and the feed's own figures are nowhere.
\<close>

lemma feed_update_lost:
  assumes "trade_load now r code price qty = Inr t" and "tkStockCode tick = code"
  shows "ticker_store (ticker_store r code tick) code t = snd (MarketRepo_UpdateTickerFromTrade now r code price qty)"
  using assms by (auto simp: trade_load_store ticker_store_def)

text \<open>In both orders without the overlap the volume of the feed's ticker counts.\<close>

lemma feed_update_kept:
  assumes "mkTickers r code = Some (Some t0)" and "tkStockCode tick = code"
  shows "MarketRepo_GetTicker (snd (MarketRepo_UpdateTickerFromTrade now (snd (MarketRepo_UpdateTicker r tick)) code price qty)) code =
      Inr (UpdateFromTrade now tick price qty)"
    and "MarketRepo_GetTicker (snd (MarketRepo_UpdateTicker (snd (MarketRepo_UpdateTickerFromTrade now r code price qty)) tick)) code = Inr tick"
  using assms by (simp_all add: MarketRepo_UpdateTicker_def MarketRepo_UpdateTickerFromTrade_def MarketRepo_GetTicker_def Let_def)

end
