(* ===== verification/Validation.thy ===== *)
theory Validation
  imports Memory_Repos
begin

text \<open>
  Input validation (src/pkg/validator/validator.go) and the response envelopes
  (src/pkg/response/json.go). A response is the value handed to the JSON encoder with its
  status; the bytes of the encoding are not modelled.
\<close>

section \<open>Responses\<close>

record FieldError =
  feField :: string
  feMessage :: string

record apiError =
  aeCode :: string
  aeMessage :: string
  aeDetails :: "FieldError list"

record Meta =
  mTotal :: int64
  mPage :: int64
  mPerPage :: int64
  mPages :: int64

text \<open>What the handlers put into \<open>data\<close>.\<close>

datatype data =
    DOrder Order | DOrders "Order list" | DTicker Ticker | DTickers "Ticker list"
  | DBook OrderBook | DTrades "Trade list" | DAuth "User option" string time

record envelope =
  enSuccess :: bool
  enData :: "data option"
  enError :: "apiError option"
  enMeta :: "Meta option"

record http_response =
  rsStatus :: int64
  rsBody :: envelope

definition JSON :: "int64 \<Rightarrow> data \<Rightarrow> http_response" where
  "JSON status d =
     \<lparr>rsStatus = status, rsBody = \<lparr>enSuccess = True, enData = Some d, enError = None, enMeta = None\<rparr>\<rparr>"

definition Paginated :: "int64 \<Rightarrow> data \<Rightarrow> Meta \<Rightarrow> http_response" where
  "Paginated status d meta =
     \<lparr>rsStatus = status, rsBody = \<lparr>enSuccess = True, enData = Some d, enError = None, enMeta = Some meta\<rparr>\<rparr>"

definition Error :: "int64 \<Rightarrow> string \<Rightarrow> string \<Rightarrow> http_response" where
  "Error status code message =
     \<lparr>rsStatus = status, rsBody = \<lparr>enSuccess = False, enData = None,
        enError = Some \<lparr>aeCode = code, aeMessage = message, aeDetails = []\<rparr>, enMeta = None\<rparr>\<rparr>"

definition ValidationError :: "FieldError list \<Rightarrow> http_response" where
  "ValidationError details =
     \<lparr>rsStatus = 422, rsBody = \<lparr>enSuccess = False, enData = None,
        enError = Some \<lparr>aeCode = ''VALIDATION_ERROR'', aeMessage = ''request validation failed'',
                        aeDetails = details\<rparr>, enMeta = None\<rparr>\<rparr>"

definition NewMeta :: "int64 \<Rightarrow> int64 \<Rightarrow> int64 \<Rightarrow> Meta" where
  "NewMeta tot page perPage =
     (let pages = (if perPage > 0 then quot64 (sub64 (add64 tot perPage) 1) perPage else 0)
      in \<lparr>mTotal = tot, mPage = page, mPerPage = perPage, mPages = pages\<rparr>)"

section \<open>Validation\<close>

definition MinPrice :: int64 where "MinPrice = 1"
definition MaxPrice :: int64 where "MaxPrice = 999999999"
definition MinQuantity :: int64 where "MinQuantity = 1"
definition MaxQuantity :: int64 where "MaxQuantity = 1000000"
definition DefaultPage :: int64 where "DefaultPage = 1"
definition DefaultPerPage :: int64 where "DefaultPerPage = 20"
definition MaxPerPage :: int64 where "MaxPerPage = 100"

record CreateOrderRequest =
  rqStockCode :: string
  rqSide :: Side
  rqPrice :: int64
  rqQuantity :: int64

definition field_error :: "string \<Rightarrow> string \<Rightarrow> FieldError" where
  "field_error f m = \<lparr>feField = f, feMessage = m\<rparr>"

text \<open>The \<open>Sprintf\<close> of the limits is written out: the limits are constants.\<close>

definition ValidateCreateOrder ::
  "string \<Rightarrow> string \<Rightarrow> int64 \<Rightarrow> int64 \<Rightarrow> CreateOrderRequest \<times> FieldError list" where
  "ValidateCreateOrder stockCode side price quantity =
     (let errs = [];
          errs = (if stockCode = [] then errs @ [field_error ''stock_code'' ''stock_code is required'']
                  else if \<not> IsValidStockCode stockCode
                  then errs @ [field_error ''stock_code'' (''unknown stock code: '' @ stockCode)]
                  else errs);
          errs = (if side = [] then errs @ [field_error ''side'' ''side is required'']
                  else if \<not> Side_IsValid side then errs @ [field_error ''side'' ''side must be BUY or SELL'']
                  else errs);
          errs = (if price < MinPrice then errs @ [field_error ''price'' ''price must be at least 1'']
                  else if price > MaxPrice
                  then errs @ [field_error ''price'' ''price must not exceed 999999999'']
                  else errs);
          errs = (if quantity < MinQuantity
                  then errs @ [field_error ''quantity'' ''quantity must be at least 1'']
                  else if quantity > MaxQuantity
                  then errs @ [field_error ''quantity'' ''quantity must not exceed 1000000'']
                  else errs)
      in if length errs > 0
         then (\<lparr>rqStockCode = [], rqSide = [], rqPrice = 0, rqQuantity = 0\<rparr>, errs)
         else (\<lparr>rqStockCode = stockCode, rqSide = side, rqPrice = price, rqQuantity = quantity\<rparr>, []))"

definition ParsePage :: "int64 \<Rightarrow> int64" where
  "ParsePage v = (if v < 1 then DefaultPage else v)"

definition ParsePerPage :: "int64 \<Rightarrow> int64" where
  "ParsePerPage v = (if v < 1 then DefaultPerPage else if v > MaxPerPage then MaxPerPage else v)"

lemmas limit_defs = MinPrice_def MaxPrice_def MinQuantity_def MaxQuantity_def
  DefaultPage_def DefaultPerPage_def MaxPerPage_def

section \<open>What validation guarantees\<close>

definition request_ok :: "CreateOrderRequest \<Rightarrow> bool" where
  "request_ok r \<longleftrightarrow>
     IsValidStockCode (rqStockCode r) \<and> Side_IsValid (rqSide r) \<and>
     1 \<le> rqPrice r \<and> rqPrice r \<le> 999999999 \<and> 1 \<le> rqQuantity r \<and> rqQuantity r \<le> 1000000"

text \<open>The fields that are reported are exactly those that are wrong, each once, in order.\<close>

lemma ValidateCreateOrder_fields:
  "map feField (snd (ValidateCreateOrder stock side price qty)) =
     (if IsValidStockCode stock then [] else [''stock_code'']) @
     (if Side_IsValid side then [] else [''side'']) @
     (if 1 \<le> price \<and> price \<le> 999999999 then [] else [''price'']) @
     (if 1 \<le> qty \<and> qty \<le> 1000000 then [] else [''quantity''])"
proof -
  have "\<not> IsValidStockCode []" by code_simp
  moreover have "\<not> Side_IsValid []" by code_simp
  ultimately show ?thesis
    unfolding ValidateCreateOrder_def Let_def by (simp add: field_error_def limit_defs not_le)
qed

lemma ValidateCreateOrder_accepts:
  "snd (ValidateCreateOrder stock side price qty) = [] \<longleftrightarrow>
   request_ok \<lparr>rqStockCode = stock, rqSide = side, rqPrice = price, rqQuantity = qty\<rparr>"
proof -
  have "snd (ValidateCreateOrder stock side price qty) = [] \<longleftrightarrow>
      map feField (snd (ValidateCreateOrder stock side price qty)) = []" by simp
  then show ?thesis unfolding ValidateCreateOrder_fields by (simp add: request_ok_def)
qed

lemma ValidateCreateOrder_request:
  assumes "ValidateCreateOrder stock side price qty = (req, [])"
  shows "req = \<lparr>rqStockCode = stock, rqSide = side, rqPrice = price, rqQuantity = qty\<rparr> \<and> request_ok req"
proof -
  have "req = \<lparr>rqStockCode = stock, rqSide = side, rqPrice = price, rqQuantity = qty\<rparr>"
    using assms unfolding ValidateCreateOrder_def Let_def
    by (simp add: field_error_def split: if_splits)
  then show ?thesis using ValidateCreateOrder_accepts [of stock side price qty] assms by simp
qed

section \<open>Pagination\<close>

text \<open>The page numbers and sizes that reach the repositories.\<close>

lemma Parse_bounds: "1 \<le> ParsePage v" "1 \<le> ParsePerPage v" "ParsePerPage v \<le> 100"
  by (simp_all add: ParsePage_def ParsePerPage_def limit_defs)

lemma NewMeta_pages:
  assumes "0 \<le> tot" and "1 \<le> perPage" and "in64 (tot + perPage)"
  shows "mPages (NewMeta tot page perPage) = (tot + perPage - 1) div perPage"
proof -
  have "in64 (tot + perPage - 1)" using assms by (auto simp: in64_def)
  then show ?thesis using assms by (simp add: NewMeta_def Let_def add64_id sub64_id quot64_nonneg)
qed

lemma concat_segments:
  "0 < n \<Longrightarrow> concat (map (\<lambda>k. take n (drop (k * n) xs)) [0..<m]) = take (m * n) xs"
proof (induction m)
  case (Suc m)
  have "take (m * n) xs @ take n (drop (m * n) xs) = take (m * n + n) xs" by (rule take_add [symmetric])
  with Suc show ?case by (simp add: add.commute)
qed simp

text \<open>The pages that \<open>NewMeta\<close> announces reach exactly to the end, within 64 bits.\<close>

lemma pages_bounds:
  assumes perPage: "1 \<le> perPage" and room: "in64 (int len + perPage)"
    and pages: "pages = nat (mPages (NewMeta (int len) page perPage))"
  shows "len \<le> pages * nat perPage" and "k < pages \<Longrightarrow> in64 ((int k + 1) * perPage)"
proof -
  define n where "n = nat perPage"
  have n: "perPage = int n" "0 < n" using perPage by (auto simp: n_def)
  have pg: "pages = (len + n - 1) div n"
  proof -
    have eq: "int len + int n - 1 = int (len + n - 1)" using n(2) by (simp add: of_nat_diff)
    have "mPages (NewMeta (int len) page perPage) = (int len + perPage - 1) div perPage"
      by (rule NewMeta_pages [OF _ assms(1,2)]) simp
    also have "\<dots> = int ((len + n - 1) div n)" unfolding n(1) eq by (rule zdiv_int [symmetric])
    finally show ?thesis by (simp add: pages)
  qed
  have "len + n - 1 < n + pages * n"
    unfolding pg by (rule dividend_less_div_times [OF n(2)])
  then show "len \<le> pages * nat perPage" using n by simp
  show "in64 ((int k + 1) * perPage)" if "k < pages"
  proof -
    have "(k + 1) * n \<le> pages * n" using that by (intro mult_le_mono1) simp
    also have "\<dots> \<le> len + n - 1" unfolding pg by (rule div_times_less_eq_dividend)
    finally have "(k + 1) * n \<le> len + n" by simp
    then have "int ((k + 1) * n) \<le> int (len + n)" by (simp only: of_nat_le_iff)
    then have "(int k + 1) * perPage \<le> int len + perPage" by (simp add: n(1) algebra_simps)
    then show ?thesis using perPage by (intro in64_nonneg [OF _ _ room]) auto
  qed
qed

text \<open>
  Walking through these pages yields every match once, in order.
\<close>

lemma pages_cover:
  assumes perPage: "1 \<le> perPage" and room: "in64 (int (length xs) + perPage)"
    and pages: "pages = nat (mPages (NewMeta (int (length xs)) page perPage))"
  shows "concat (map (\<lambda>k. take (nat perPage) (drop (k * nat perPage) xs)) [0..<pages]) = xs"
    and "k < pages \<Longrightarrow> page_of (int k + 1) perPage xs = Return (take (nat perPage) (drop (k * nat perPage) xs))"
proof -
  note B = pages_bounds [OF assms]
  show "concat (map (\<lambda>k. take (nat perPage) (drop (k * nat perPage) xs)) [0..<pages]) = xs"
    using concat_segments [of "nat perPage" xs pages] B(1) perPage by simp
  show "page_of (int k + 1) perPage xs = Return (take (nat perPage) (drop (k * nat perPage) xs))" if "k < pages"
  proof -
    have "page_of (int k + 1) perPage xs =
        Return (take (nat perPage) (drop (nat ((int k + 1 - 1) * perPage)) xs))"
      using perPage B(2) [OF that] by (intro page_of_segment) auto
    then show ?thesis using perPage by (simp add: nat_mult_distrib)
  qed
qed

text \<open>A page number so large that its offset wraps to a negative one panics.\<close>

lemma page_overflow:
  assumes "mul64 (page - 1) perPage < 0" and "1 \<le> page" and "1 \<le> perPage"
  shows "page_of page perPage xs = Panic"
proof -
  have "\<not> int (length xs) \<le> mul64 (page - 1) perPage" using assms(1) by (simp add: not_le)
  with assms show ?thesis by (simp add: page_of_def Let_def slice_def not_le)
qed

end
