(* ===== verification/Services.thy ===== *)
theory Services
  imports Validation Exchange
begin

text \<open>
  The application services (src/internal/app). The order service reaches the repository, the
  engine (or the partition router in front of it), the bus, the clock and the UUID generator
  through interfaces, modelled by a record of functions on a world \<open>'w\<close>; \<open>osAlloc\<close> is the
  allocation of an order object. Calls that can panic return an outcome.
\<close>

section \<open>Orders\<close>

record 'w order_deps =
  osNow :: "'w \<Rightarrow> time \<times> 'w"
  osNewString :: "'w \<Rightarrow> string \<times> 'w"
  osAlloc :: "'w \<Rightarrow> Order \<Rightarrow> addr \<times> 'w"
  osSave :: "'w \<Rightarrow> Order \<Rightarrow> repo_error option \<times> 'w"
  osSubmit :: "'w \<Rightarrow> addr \<Rightarrow> (bool \<times> 'w) outcome"
  osPublish :: "'w \<Rightarrow> Event \<Rightarrow> 'w outcome"
  osFindAll :: "'w \<Rightarrow> OrderFilter \<Rightarrow> (repo_error + (Order list \<times> int64)) outcome"
  osFindByID :: "'w \<Rightarrow> string \<Rightarrow> repo_error + Order"

text \<open>
  \<open>osSubmit\<close> answers whether the engine took the order; the service ignores which error it was.
\<close>

definition new_order :: "time \<Rightarrow> string \<Rightarrow> string \<Rightarrow> CreateOrderRequest \<Rightarrow> Order" where
  "new_order now uid userID req =
     \<lparr>oID = uid, oUserID = userID, oStockCode = rqStockCode req, oSide = rqSide req,
      oPrice = rqPrice req, oQuantity = rqQuantity req, oFilledQuantity = 0,
      oStatus = OrderStatusOpen, oCreatedAt = now, oUpdatedAt = now\<rparr>"

definition CreateOrder ::
  "'w order_deps \<Rightarrow> 'w \<Rightarrow> string \<Rightarrow> CreateOrderRequest \<Rightarrow> ((repo_error + Order) \<times> 'w) outcome" where
  "CreateOrder d w userID req =
     (let (now, w) = osNow d w;
          (uid, w) = osNewString d w;
          ord = new_order now uid userID req;
          (a, w) = osAlloc d w ord;
          (err, w) = osSave d w ord
      in case err of
           Some e \<Rightarrow> Return (Inl e, w)
         | None \<Rightarrow>
             (let (snapshot, w) = osAlloc d w ord
              in case osSubmit d w a of
                   Panic \<Rightarrow> Panic
                 | Return (False, w) \<Rightarrow> Return (Inr ord, w)
                 | Return (True, w) \<Rightarrow>
                     (case osPublish d w
                        \<lparr>evType = OrderCreated, evStockCode = oStockCode ord, evUserID = oUserID ord,
                         evPayload = POrder snapshot, evTimestamp = now\<rparr> of
                        Panic \<Rightarrow> Panic
                      | Return w \<Rightarrow> Return (Inr ord, w))))"

definition GetOrders :: "'w order_deps \<Rightarrow> 'w \<Rightarrow> OrderFilter \<Rightarrow> (repo_error + (Order list \<times> int64)) outcome" where
  "GetOrders d w f = osFindAll d w f"

definition GetOrderByID :: "'w order_deps \<Rightarrow> 'w \<Rightarrow> string \<Rightarrow> repo_error + Order" where
  "GetOrderByID d w i = osFindByID d w i"

section \<open>Market data\<close>

text \<open>A cache answers with an error, a miss (nil) or a value.\<close>

record MarketCache =
  cacheTicker :: "string \<Rightarrow> repo_error + Ticker option"
  cacheOrderBook :: "string \<Rightarrow> repo_error + OrderBook option"

record MarketService =
  msRepo :: MarketRepo
  msTrades :: TradeRepo
  msCache :: "MarketCache option"

definition NewMarketService :: "MarketRepo \<Rightarrow> TradeRepo \<Rightarrow> MarketService" where
  "NewMarketService r t = \<lparr>msRepo = r, msTrades = t, msCache = None\<rparr>"

definition SetCache :: "MarketService \<Rightarrow> MarketCache \<Rightarrow> MarketService" where
  "SetCache s c = s\<lparr>msCache := Some c\<rparr>"

definition GetTicker :: "MarketService \<Rightarrow> string \<Rightarrow> repo_error + Ticker" where
  "GetTicker s code =
     (case msCache s of
        None \<Rightarrow> MarketRepo_GetTicker (msRepo s) code
      | Some c \<Rightarrow>
          (case cacheTicker c code of
             Inr (Some t) \<Rightarrow> Inr t
           | Inr None \<Rightarrow> MarketRepo_GetTicker (msRepo s) code
           | Inl err \<Rightarrow> MarketRepo_GetTicker (msRepo s) code))"

definition GetAllTickers :: "MarketService \<Rightarrow> string list \<Rightarrow> Ticker list" where
  "GetAllTickers s codes = MarketRepo_GetAllTickers (msRepo s) codes"

text \<open>\<open>Engine.GetOrderBook\<close> reads the market repository.\<close>

definition Engine_GetOrderBook :: "MarketRepo \<Rightarrow> string \<Rightarrow> repo_error + OrderBook" where
  "Engine_GetOrderBook r code = MarketRepo_GetOrderBook r code"

definition GetOrderBook :: "MarketService \<Rightarrow> string \<Rightarrow> repo_error + OrderBook" where
  "GetOrderBook s code =
     (case msCache s of
        None \<Rightarrow> Engine_GetOrderBook (msRepo s) code
      | Some c \<Rightarrow>
          (case cacheOrderBook c code of
             Inr (Some b) \<Rightarrow> Inr b
           | Inr None \<Rightarrow> Engine_GetOrderBook (msRepo s) code
           | Inl err \<Rightarrow> Engine_GetOrderBook (msRepo s) code))"

definition GetRecentTrades :: "MarketService \<Rightarrow> string \<Rightarrow> int64 \<Rightarrow> Trade list" where
  "GetRecentTrades s code limit = TradeRepo_FindByStockCode (msTrades s) code limit"

section \<open>Trades\<close>

definition GetTradeHistory :: "TradeRepo \<Rightarrow> TradeFilter \<Rightarrow> (Trade list \<times> int64) outcome" where
  "GetTradeHistory r f = TradeRepo_FindAll r f"

definition GetTradesByStock :: "TradeRepo \<Rightarrow> string \<Rightarrow> int64 \<Rightarrow> Trade list" where
  "GetTradesByStock r code limit = TradeRepo_FindByStockCode r code limit"

section \<open>The order service on the in-memory exchange\<close>

text \<open>
  The engine with its heap and the repositories, and the next free address. Addresses below it
  are in use.
\<close>

record service_world =
  swEngine :: "memory_world Engine"
  swNext :: addr

definition sw_upd :: "(memory_world \<Rightarrow> memory_world) \<Rightarrow> service_world \<Rightarrow> service_world" where
  "sw_upd f w = w\<lparr>swEngine := (swEngine w)\<lparr>engWorld := f (engWorld (swEngine w))\<rparr>\<rparr>"

definition service_deps :: "(nat \<Rightarrow> string) \<Rightarrow> (nat \<Rightarrow> time) \<Rightarrow> service_world order_deps" where
  "service_deps uuid clock =
     \<lparr>osNow = (\<lambda>w. (clock (wTicks (engWorld (swEngine w))),
                    sw_upd (\<lambda>m. m\<lparr>wTicks := Suc (wTicks m)\<rparr>) w)),
      osNewString = (\<lambda>w. (uuid (wUuids (engWorld (swEngine w))),
                    sw_upd (\<lambda>m. m\<lparr>wUuids := Suc (wUuids m)\<rparr>) w)),
      osAlloc = (\<lambda>w ord. (swNext w, w\<lparr>swNext := Suc (swNext w),
                    swEngine := (swEngine w)\<lparr>engHeap := (engHeap (swEngine w))(swNext w := ord)\<rparr>\<rparr>)),
      osSave = (\<lambda>w ord. let (err, r) = OrderRepo_Save (wOrders (engWorld (swEngine w))) ord
                        in (err, sw_upd (\<lambda>m. m\<lparr>wOrders := r\<rparr>) w)),
      osSubmit = (\<lambda>w a. case SubmitOrder (swEngine w) a of
                          Panic \<Rightarrow> Panic
                        | Return (Inl err, e) \<Rightarrow> Return (False, w\<lparr>swEngine := e\<rparr>)
                        | Return (Inr u, e) \<Rightarrow> Return (True, w\<lparr>swEngine := e\<rparr>)),
      osPublish = (\<lambda>w e. case try_send dispatchBufferSize (wBus (engWorld (swEngine w))) e of
                          (SendPanic, ch) \<Rightarrow> Panic
                        | (_, ch) \<Rightarrow> Return (sw_upd (\<lambda>m. m\<lparr>wBus := ch\<rparr>) w)),
      osFindAll = (\<lambda>w f. case OrderRepo_FindAll (wOrders (engWorld (swEngine w))) f of
                          Panic \<Rightarrow> Panic | Return r \<Rightarrow> Return (Inr r)),
      osFindByID = (\<lambda>w i. OrderRepo_FindByID (wOrders (engWorld (swEngine w))) i)\<rparr>"

text \<open>
  What holds of the running system: identifiers in use have been issued by the generator, and
  addresses in use are below the next free one.
\<close>

definition service_inv :: "(nat \<Rightarrow> string) \<Rightarrow> service_world \<Rightarrow> bool" where
  "service_inv uuid w \<longleftrightarrow>
     inj uuid \<and> or_wf (wOrders (engWorld (swEngine w))) \<and>
     oID ` set (orders_of (wOrders (engWorld (swEngine w)))) \<subseteq> uuid ` {..<wUuids (engWorld (swEngine w))} \<and>
     (\<forall>code m. engMatchers (swEngine w) code = Some m \<longrightarrow>
        held_ids (engHeap (swEngine w)) m \<subseteq> uuid ` {..<wUuids (engWorld (swEngine w))} \<and>
        (\<forall>a\<in>held m. a < swNext w))"

text \<open>The order object a validated request yields is one the engine may be handed.\<close>

lemma new_order_ok:
  assumes "request_ok req"
  shows "order_wf (new_order now uid userID req) \<and> Side_IsValid (oSide (new_order now uid userID req))"
  using assms by (auto simp: request_ok_def new_order_def order_wf_def in64_def)

definition created :: "(nat \<Rightarrow> string) \<Rightarrow> (nat \<Rightarrow> time) \<Rightarrow> service_world \<Rightarrow> string \<Rightarrow> CreateOrderRequest \<Rightarrow> Order" where
  "created uuid clock w userID req =
     new_order (clock (wTicks (engWorld (swEngine w)))) (uuid (wUuids (engWorld (swEngine w)))) userID req"

text \<open>The engine as \<open>SubmitOrder\<close> finds it: two objects allocated, the order saved.\<close>

definition prepared :: "(nat \<Rightarrow> string) \<Rightarrow> (nat \<Rightarrow> time) \<Rightarrow> service_world \<Rightarrow> string \<Rightarrow> CreateOrderRequest \<Rightarrow> memory_world Engine" where
  "prepared uuid clock w userID req =
     (let e = swEngine w; m = engWorld e; ord = created uuid clock w userID req
      in e\<lparr>engHeap := (engHeap e)(swNext w := ord, Suc (swNext w) := ord),
           engWorld := m\<lparr>wTicks := Suc (wTicks m), wUuids := Suc (wUuids m),
                         wOrders := snd (OrderRepo_Save (wOrders m) ord)\<rparr>\<rparr>)"

lemma created_fresh:
  assumes "service_inv uuid w"
  shows "orByID (wOrders (engWorld (swEngine w))) (oID (created uuid clock w userID req)) = None"
proof -
  let ?r = "wOrders (engWorld (swEngine w))" and ?n = "wUuids (engWorld (swEngine w))"
  have wf: "or_wf ?r" and sub: "oID ` set (orders_of ?r) \<subseteq> uuid ` {..<?n}" and inj: "inj uuid"
    using assms by (simp_all add: service_inv_def)
  have "uuid ?n \<notin> oID ` set (orders_of ?r)" using sub inj by (auto dest: injD)
  then show ?thesis using or_wf_fresh [OF wf] by (simp add: created_def new_order_def)
qed

lemma CreateOrder_unfold:
  assumes "service_inv uuid w"
  shows "CreateOrder (service_deps uuid clock) w userID req =
    (case SubmitOrder (prepared uuid clock w userID req) (swNext w) of
       Panic \<Rightarrow> Panic
     | Return (Inl err, e) \<Rightarrow>
         Return (Inr (created uuid clock w userID req), \<lparr>swEngine = e, swNext = Suc (Suc (swNext w))\<rparr>)
     | Return (Inr u, e) \<Rightarrow>
         (case try_send dispatchBufferSize (wBus (engWorld e))
            \<lparr>evType = OrderCreated, evStockCode = rqStockCode req, evUserID = userID,
             evPayload = POrder (Suc (swNext w)), evTimestamp = clock (wTicks (engWorld (swEngine w)))\<rparr> of
            (SendPanic, ch) \<Rightarrow> Panic
          | (_, ch) \<Rightarrow> Return (Inr (created uuid clock w userID req),
              \<lparr>swEngine = e\<lparr>engWorld := (engWorld e)\<lparr>wBus := ch\<rparr>\<rparr>, swNext = Suc (Suc (swNext w))\<rparr>)))"
proof -
  let ?o = "created uuid clock w userID req"
  have sv: "fst (OrderRepo_Save (wOrders (engWorld (swEngine w))) ?o) = None"
    using created_fresh [OF assms, of clock userID req] by (simp add: OrderRepo_Save_def Let_def)
  have ord: "new_order (clock (wTicks (engWorld (swEngine w)))) (uuid (wUuids (engWorld (swEngine w)))) userID req = ?o"
    by (simp add: created_def)
  have fields: "oStockCode ?o = rqStockCode req" "oUserID ?o = userID"
    by (simp_all add: created_def new_order_def)
  define e1 where "e1 = prepared uuid clock w userID req"
  define w1 where "w1 = w\<lparr>swEngine := e1, swNext := Suc (Suc (swNext w))\<rparr>"
  let ?ev = "\<lparr>evType = OrderCreated, evStockCode = rqStockCode req, evUserID = userID,
     evPayload = POrder (Suc (swNext w)), evTimestamp = clock (wTicks (engWorld (swEngine w)))\<rparr>"
  have D: "osNow (service_deps uuid clock) v =
      (clock (wTicks (engWorld (swEngine v))), sw_upd (\<lambda>m. m\<lparr>wTicks := Suc (wTicks m)\<rparr>) v)"
    "osNewString (service_deps uuid clock) v =
      (uuid (wUuids (engWorld (swEngine v))), sw_upd (\<lambda>m. m\<lparr>wUuids := Suc (wUuids m)\<rparr>) v)"
    "osAlloc (service_deps uuid clock) v x = (swNext v, v\<lparr>swNext := Suc (swNext v),
        swEngine := (swEngine v)\<lparr>engHeap := (engHeap (swEngine v))(swNext v := x)\<rparr>\<rparr>)"
    "osSave (service_deps uuid clock) v x = (fst (OrderRepo_Save (wOrders (engWorld (swEngine v))) x),
        sw_upd (\<lambda>m. m\<lparr>wOrders := snd (OrderRepo_Save (wOrders (engWorld (swEngine v))) x)\<rparr>) v)" for v x
    by (simp_all add: service_deps_def split_beta)
  have C: "CreateOrder (service_deps uuid clock) w userID req =
      (case osSubmit (service_deps uuid clock) w1 (swNext w) of
         Panic \<Rightarrow> Panic
       | Return (False, w) \<Rightarrow> Return (Inr ?o, w)
       | Return (True, w) \<Rightarrow>
           (case osPublish (service_deps uuid clock) w ?ev of
              Panic \<Rightarrow> Panic | Return w \<Rightarrow> Return (Inr ?o, w)))"
  proof -
    define t where "t = clock (wTicks (engWorld (swEngine w)))"
    define u where "u = uuid (wUuids (engWorld (swEngine w)))"
    define wa where "wa = sw_upd (\<lambda>m. m\<lparr>wTicks := Suc (wTicks m)\<rparr>) w"
    define wb where "wb = sw_upd (\<lambda>m. m\<lparr>wUuids := Suc (wUuids m)\<rparr>) wa"
    define wc where "wc = snd (osAlloc (service_deps uuid clock) wb ?o)"
    define wd where "wd = snd (osSave (service_deps uuid clock) wc ?o)"
    have "osNow (service_deps uuid clock) w = (t, wa)" by (simp add: D t_def wa_def)
    moreover have "osNewString (service_deps uuid clock) wa = (u, wb)"
      by (simp add: D u_def wb_def wa_def sw_upd_def)
    moreover have "new_order t u userID req = ?o" using ord by (simp add: t_def u_def)
    moreover have "osAlloc (service_deps uuid clock) wb ?o = (swNext w, wc)"
      by (simp add: D wc_def wb_def wa_def sw_upd_def)
    moreover have "osSave (service_deps uuid clock) wc ?o = (None, wd)"
      using sv by (simp add: D wd_def wc_def wb_def wa_def sw_upd_def)
    moreover have "osAlloc (service_deps uuid clock) wd ?o = (Suc (swNext w), w1)"
      by (simp add: D wd_def wc_def wb_def wa_def sw_upd_def w1_def e1_def prepared_def Let_def)
    ultimately show ?thesis by (simp add: CreateOrder_def fields t_def) (simp only: Let_def fields)
  qed
  have sub: "osSubmit (service_deps uuid clock) w1 (swNext w) =
      (case SubmitOrder e1 (swNext w) of
         Panic \<Rightarrow> Panic
       | Return (Inl err, e) \<Rightarrow> Return (False, \<lparr>swEngine = e, swNext = Suc (Suc (swNext w))\<rparr>)
       | Return (Inr u, e) \<Rightarrow> Return (True, \<lparr>swEngine = e, swNext = Suc (Suc (swNext w))\<rparr>))"
    by (cases w) (simp add: service_deps_def w1_def split: outcome.split sum.split prod.split)
  have pub: "osPublish (service_deps uuid clock) \<lparr>swEngine = e, swNext = Suc (Suc (swNext w))\<rparr> ?ev =
      (case try_send dispatchBufferSize (wBus (engWorld e)) ?ev of
         (SendPanic, ch) \<Rightarrow> Panic
       | (_, ch) \<Rightarrow> Return \<lparr>swEngine = e\<lparr>engWorld := (engWorld e)\<lparr>wBus := ch\<rparr>\<rparr>, swNext = Suc (Suc (swNext w))\<rparr>)" for e
    by (simp add: service_deps_def sw_upd_def split: prod.split send_result.split)
  show ?thesis
  proof (cases "SubmitOrder e1 (swNext w)")
    case Panic
    then show ?thesis unfolding C sub e1_def [symmetric] by simp
  next
    case (Return re)
    obtain r e where re: "re = (r, e)" by (cases re)
    obtain x ch where t: "try_send dispatchBufferSize (wBus (engWorld e)) ?ev = (x, ch)" by fastforce
    show ?thesis
      unfolding C sub e1_def [symmetric] Return re
      by (cases r; cases x) (simp_all add: pub t)
  qed
qed

text \<open>
  Creating an order is a run of the engine: allocation and saving are steps of the environment,
  the submission is an admissible one, publishing is again a step of the environment.
\<close>

lemma admissible_prepared:
  assumes inv: "service_inv uuid w" and ok: "request_ok req"
  shows "admissible (prepared uuid clock w userID req) (swNext w)"
proof -
  let ?o = "created uuid clock w userID req" and ?e = "prepared uuid clock w userID req"
  let ?n = "wUuids (engWorld (swEngine w))"
  have h: "engHeap ?e (swNext w) = ?o" by (simp add: prepared_def Let_def)
  have "oID ?o \<notin> held_ids (engHeap ?e) m" if m: "engMatchers ?e code = Some m" for code m
  proof -
    have m': "engMatchers (swEngine w) code = Some m" using m by (simp add: prepared_def Let_def)
    then have "held_ids (engHeap (swEngine w)) m \<subseteq> uuid ` {..<?n}" "\<forall>a\<in>held m. a < swNext w"
      using inv unfolding service_inv_def by blast+
    note held = this
    have "engHeap ?e a = engHeap (swEngine w) a" if "Some a \<in> set (chQueue (mcCh m))" for a
    proof -
      have "a < swNext w" using held(2) that by (auto simp: held_def)
      then show ?thesis by (simp add: prepared_def Let_def)
    qed
    then have "held_ids (engHeap ?e) m = held_ids (engHeap (swEngine w)) m"
      unfolding held_ids_def by (metis (no_types, lifting))
    moreover have "uuid ?n \<notin> uuid ` {..<?n}" using inv by (auto simp: service_inv_def dest: injD)
    ultimately show ?thesis using held(1) by (auto simp: created_def new_order_def)
  qed
  then show ?thesis using new_order_ok [OF ok] by (simp add: admissible_def h) (simp add: created_def)
qed

lemma prepared_step:
  assumes "service_inv uuid w"
  shows "engine_step d (swEngine w) (prepared uuid clock w userID req)"
proof -
  have "a \<noteq> swNext w \<and> a \<noteq> Suc (swNext w)" if "engMatchers (swEngine w) code = Some m" "a \<in> held m" for code m a
    using assms that by (fastforce simp: service_inv_def)
  then show ?thesis
    unfolding prepared_def Let_def by (intro engine_step.environment) auto
qed

lemma CreateOrder_engine_run:
  assumes inv: "service_inv uuid w" and ok: "request_ok req"
    and ret: "CreateOrder (service_deps uuid clock) w userID req = Return (r, w')"
  shows "(engine_step d)\<^sup>*\<^sup>* (swEngine w) (swEngine w')"
proof -
  let ?e = "prepared uuid clock w userID req"
  obtain x e2 where sub: "SubmitOrder ?e (swNext w) = Return (x, e2)"
    using ret unfolding CreateOrder_unfold [OF inv] by (cases "SubmitOrder ?e (swNext w)") auto
  have "engine_step d (swEngine w) ?e" by (rule prepared_step [OF inv])
  moreover have s2: "engine_step d ?e e2" by (rule engine_step.submit [OF admissible_prepared [OF inv ok] sub])
  moreover have "swEngine w' = e2 \<or> (\<exists>wld. swEngine w' = e2\<lparr>engHeap := engHeap e2, engWorld := wld\<rparr>)"
    using ret unfolding CreateOrder_unfold [OF inv] sub
    by (auto split: sum.splits prod.splits send_result.splits)
  moreover have "engine_step d e2 (e2\<lparr>engHeap := engHeap e2, engWorld := wld\<rparr>)" for wld
    by (rule engine_step.environment) simp
  ultimately show ?thesis
    by (metis r_into_rtranclp rtranclp.rtrancl_into_rtrancl)
qed

lemma SubmitOrder_world:
  "SubmitOrder e a = Return (r, e') \<Longrightarrow> engWorld e' = engWorld e \<and> engHeap e' = engHeap e"
  using SubmitOrder_Return by fastforce

lemma CreateOrder_result:
  assumes inv: "service_inv uuid w"
    and ret: "CreateOrder (service_deps uuid clock) w userID req = Return (r, w')"
  shows "r = Inr (created uuid clock w userID req) \<and>
    OrderRepo_FindByID (wOrders (engWorld (swEngine w'))) (oID (created uuid clock w userID req)) =
      Inr (created uuid clock w userID req)"
proof -
  let ?e = "prepared uuid clock w userID req" and ?o = "created uuid clock w userID req"
  obtain x e2 where sub: "SubmitOrder ?e (swNext w) = Return (x, e2)"
    using ret unfolding CreateOrder_unfold [OF inv] by (cases "SubmitOrder ?e (swNext w)") auto
  have res: "r = Inr ?o \<and> wOrders (engWorld (swEngine w')) = wOrders (engWorld e2)"
    using ret unfolding CreateOrder_unfold [OF inv] sub
    by (auto split: sum.splits prod.splits send_result.splits)
  have "wOrders (engWorld e2) = snd (OrderRepo_Save (wOrders (engWorld (swEngine w))) ?o)"
    using SubmitOrder_world [OF sub] by (simp add: prepared_def Let_def)
  moreover have "or_wf (wOrders (engWorld (swEngine w)))" using inv by (simp add: service_inv_def)
  ultimately show ?thesis
    using res OrderRepo_FindByID_Save [OF _ created_fresh [OF inv, of clock userID req]] by simp
qed

lemma CreateOrder_full_queue:
  assumes inv: "service_inv uuid w"
    and m: "engMatchers (swEngine w) (rqStockCode req) = Some m" and "\<not> chClosed (mcCh m)"
    and "matcherChanCap \<le> length (chQueue (mcCh m))"
  shows "CreateOrder (service_deps uuid clock) w userID req =
    Return (Inr (created uuid clock w userID req),
      \<lparr>swEngine = prepared uuid clock w userID req, swNext = Suc (Suc (swNext w))\<rparr>)"
proof -
  have "oStockCode (engHeap (prepared uuid clock w userID req) (swNext w)) = rqStockCode req"
    by (simp add: prepared_def Let_def created_def new_order_def)
  moreover have "engMatchers (prepared uuid clock w userID req) = engMatchers (swEngine w)"
    by (simp add: prepared_def Let_def)
  ultimately have "SubmitOrder (prepared uuid clock w userID req) (swNext w) =
      Return (Inl ErrQueueFull, prepared uuid clock w userID req)"
    using assms(2-4) by (simp add: SubmitOrder_def submit_def try_send_def)
  then show ?thesis by (simp add: CreateOrder_unfold [OF inv])
qed

section \<open>Cache-aside reads\<close>

text \<open>
  A read through a cache answers what the repository would, provided the cache, when it holds
  something, holds what the repository has; errors and misses of the cache never surface.
\<close>

definition cache_coherent :: "MarketService \<Rightarrow> bool" where
  "cache_coherent s \<longleftrightarrow>
     (\<forall>c code. msCache s = Some c \<longrightarrow>
        (\<forall>t. cacheTicker c code = Inr (Some t) \<longrightarrow> MarketRepo_GetTicker (msRepo s) code = Inr t) \<and>
        (\<forall>b. cacheOrderBook c code = Inr (Some b) \<longrightarrow> MarketRepo_GetOrderBook (msRepo s) code = Inr b))"

lemma cache_aside:
  assumes "cache_coherent s"
  shows "GetTicker s code = MarketRepo_GetTicker (msRepo s) code"
    and "GetOrderBook s code = MarketRepo_GetOrderBook (msRepo s) code"
  using assms
  by (auto simp: cache_coherent_def GetTicker_def GetOrderBook_def Engine_GetOrderBook_def
      split: option.splits sum.splits)

end
