(* ===== verification/App_Run.thy ===== *)
theory App_Run
  imports Services
begin

text \<open>
  The running exchange on the in-memory repositories: the calls of the order service
  (src/internal/app/order/service.go) that HTTP requests make concurrently, the goroutines of the
  matching engine (src/internal/engine) and the rest of the process, in any interleaving. A call
  of \<open>CreateOrder\<close> is three steps, because other goroutines run between them: building and
  saving the order, submitting it, publishing its creation.
\<close>

section \<open>Steps\<close>

text \<open>\<open>apPending\<close> are the orders that are saved and not yet submitted.\<close>

record app =
  apWorld :: service_world
  apPending :: "addr set"

definition all_held :: "'w Engine \<Rightarrow> addr set" where
  "all_held e = (\<Union>code. case engMatchers e code of None \<Rightarrow> {} | Some m \<Rightarrow> held m)"

definition live :: "app \<Rightarrow> addr set" where
  "live s = apPending s \<union> all_held (swEngine (apWorld s))"

definition app_start :: "Stock list \<Rightarrow> order_heap \<Rightarrow> memory_world \<Rightarrow> app" where
  "app_start stocks h w = \<lparr>apWorld = \<lparr>swEngine = NewEngine stocks h w, swNext = 0\<rparr>, apPending = {}\<rparr>"

definition app_engine :: "memory_world Engine \<Rightarrow> app \<Rightarrow> app" where
  "app_engine e s = s\<lparr>apWorld := (apWorld s)\<lparr>swEngine := e\<rparr>\<rparr>"

text \<open>\<open>create_prepare\<close> is \<open>CreateOrder\<close> up to the snapshot, \<open>create_submit\<close> its submission.\<close>

definition create_prepare :: "(nat \<Rightarrow> string) \<Rightarrow> (nat \<Rightarrow> time) \<Rightarrow> string \<Rightarrow> CreateOrderRequest \<Rightarrow> app \<Rightarrow> app" where
  "create_prepare uuid clock userID req s =
     (let w = apWorld s
      in \<lparr>apWorld = \<lparr>swEngine = prepared uuid clock w userID req, swNext = Suc (Suc (swNext w))\<rparr>,
          apPending = insert (swNext w) (apPending s)\<rparr>)"

definition create_submit :: "addr \<Rightarrow> app \<Rightarrow> app outcome" where
  "create_submit a s =
     (case SubmitOrder (swEngine (apWorld s)) a of
        Panic \<Rightarrow> Panic
      | Return (r, e) \<Rightarrow> Return ((app_engine e s)\<lparr>apPending := apPending s - {a}\<rparr>))"

text \<open>
  The rest of the process (the bus, the feeds, other users of the generator and the clock) leaves
  the order repository alone.
\<close>

inductive app_step :: "(nat \<Rightarrow> string) \<Rightarrow> (nat \<Rightarrow> time) \<Rightarrow> app \<Rightarrow> app \<Rightarrow> bool" for uuid clock where
  prepare: "request_ok req \<Longrightarrow> app_step uuid clock s (create_prepare uuid clock userID req s)"
| submit: "a \<in> apPending s \<Longrightarrow> create_submit a s = Return s' \<Longrightarrow> app_step uuid clock s s'"
| turn: "run_turn (memory_deps uuid clock) code (swEngine (apWorld s)) = Some e \<Longrightarrow>
    app_step uuid clock s (app_engine e s)"
| start: "app_step uuid clock s (app_engine (Start (swEngine (apWorld s))) s)"
| stop: "app_step uuid clock s (app_engine (Stop_close (swEngine (apWorld s))) s)"
| others: "wOrders m = wOrders (engWorld (swEngine (apWorld s))) \<Longrightarrow> wUuids (engWorld (swEngine (apWorld s))) \<le> wUuids m \<Longrightarrow>
    app_step uuid clock s (app_engine ((swEngine (apWorld s))\<lparr>engWorld := m\<rparr>) s)"

inductive app_reachable :: "(nat \<Rightarrow> string) \<Rightarrow> (nat \<Rightarrow> time) \<Rightarrow> app \<Rightarrow> bool" for uuid clock where
  init: "wOrders w = NewOrderRepo \<Longrightarrow> app_reachable uuid clock (app_start stocks h w)"
| step: "app_reachable uuid clock s \<Longrightarrow> app_step uuid clock s s' \<Longrightarrow> app_reachable uuid clock s'"

section \<open>The invariant\<close>

definition issued :: "(nat \<Rightarrow> string) \<Rightarrow> memory_world \<Rightarrow> bool" where
  "issued uuid w \<longleftrightarrow> oID ` set (orders_of (wOrders w)) \<subseteq> uuid ` {..<wUuids w}"

definition app_inv :: "(nat \<Rightarrow> string) \<Rightarrow> app \<Rightarrow> bool" where
  "app_inv uuid s \<longleftrightarrow>
     engine_inv (swEngine (apWorld s)) \<and> issued uuid (engWorld (swEngine (apWorld s))) \<and>
     in_sync (live s) (engHeap (swEngine (apWorld s))) (wOrders (engWorld (swEngine (apWorld s)))) \<and>
     (\<forall>a\<in>live s. a < swNext (apWorld s)) \<and> apPending s \<inter> all_held (swEngine (apWorld s)) = {} \<and>
     (\<forall>a\<in>apPending s. order_wf (engHeap (swEngine (apWorld s)) a) \<and> Side_IsValid (oSide (engHeap (swEngine (apWorld s)) a)))"

lemma all_held_iff: "a \<in> all_held e \<longleftrightarrow> (\<exists>code m. engMatchers e code = Some m \<and> a \<in> held m)"
  by (auto simp: all_held_def split: option.splits)

lemma held_all: "engMatchers e code = Some m \<Longrightarrow> held m \<subseteq> all_held e"
  unfolding all_held_iff subset_iff by blast

lemma all_held_upd:
  assumes "engMatchers e code = Some m" and "engMatchers e' = (engMatchers e)(code \<mapsto> m')" and "held m' \<subseteq> A"
    and "held m \<subseteq> A" and "all_held e \<subseteq> A"
  shows "all_held e' \<subseteq> A"
proof
  fix x
  assume "x \<in> all_held e'"
  then obtain c y where y: "engMatchers e' c = Some y" "x \<in> held y" by (auto simp: all_held_iff)
  then show "x \<in> A" using assms held_all [of e c y] by (cases "c = code") auto
qed

lemma in_sync_mono: "in_sync A h r \<Longrightarrow> B \<subseteq> A \<Longrightarrow> in_sync B h r"
  by (auto simp: in_sync_def intro: inj_on_subset)

lemma in_sync_heap: "in_sync A h r \<Longrightarrow> (\<And>a. a \<in> A \<Longrightarrow> h' a = h a) \<Longrightarrow> in_sync A h' r"
  by (auto simp: in_sync_def inj_on_def)

text \<open>The identifiers a matcher holds are those of the orders it holds.\<close>

lemma held_ids_image: "book_wf h (mcBook m) \<Longrightarrow> held_ids h m = (\<lambda>a. oID (h a)) ` held m"
  by (auto simp: held_ids_def held_def book_wf_def entry_id_def)

lemma pending_admissible:
  assumes inv: "app_inv uuid s" and a: "a \<in> apPending s"
  shows "admissible (swEngine (apWorld s)) a"
proof -
  let ?e = "swEngine (apWorld s)"
  have inj: "inj_on (\<lambda>a. oID (engHeap ?e a)) (live s)" using inv by (simp add: app_inv_def in_sync_def)
  have "oID (engHeap ?e a) \<notin> held_ids (engHeap ?e) m" if m: "engMatchers ?e code = Some m" for code m
  proof
    assume "oID (engHeap ?e a) \<in> held_ids (engHeap ?e) m"
    moreover have "book_wf (engHeap ?e) (mcBook m)"
      using inv m by (simp add: app_inv_def engine_inv_def matcher_inv_def book_inv_def)
    ultimately obtain b where b: "b \<in> held m" "oID (engHeap ?e a) = oID (engHeap ?e b)" by (auto simp: held_ids_image)
    then have h: "b \<in> all_held ?e" using m by (auto simp: all_held_iff)
    then have "a = b" using inj b(2) a by (auto simp: live_def inj_on_def)
    then show False using h a inv by (auto simp: app_inv_def)
  qed
  then show ?thesis using inv a by (simp add: admissible_def app_inv_def)
qed

text \<open>A state of the running exchange is one on which \<open>CreateOrder\<close> behaves as proved in theory \<open>Services\<close>.\<close>

lemma app_service_inv:
  assumes "app_inv uuid s" and "inj uuid"
  shows "service_inv uuid (apWorld s)"
proof -
  let ?e = "swEngine (apWorld s)" and ?r = "wOrders (engWorld (swEngine (apWorld s)))"
  have "held_ids (engHeap ?e) m \<subseteq> uuid ` {..<wUuids (engWorld ?e)} \<and> (\<forall>a\<in>held m. a < swNext (apWorld s))"
    if m: "engMatchers ?e code = Some m" for code m
  proof -
    have l: "held m \<subseteq> live s" using m by (auto simp: live_def all_held_iff)
    have "oID (engHeap ?e a) \<in> oID ` set (orders_of ?r)" if al: "a \<in> live s" for a
    proof -
      have wf: "or_wf ?r" using assms(1) by (simp add: app_inv_def in_sync_def)
      moreover obtain st where "OrderRepo_FindByID ?r (oID (engHeap ?e a)) = Inr st"
        using assms(1) al by (auto simp: app_inv_def in_sync_def)
      ultimately show ?thesis
        using or_wf_fresh [OF wf, of "oID (engHeap ?e a)"] OrderRepo_FindByID_None [of ?r "oID (engHeap ?e a)"] by fastforce
    qed
    moreover have "book_wf (engHeap ?e) (mcBook m)"
      using assms(1) m by (simp add: app_inv_def engine_inv_def matcher_inv_def book_inv_def)
    ultimately show ?thesis using l assms(1) by (fastforce simp: held_ids_image app_inv_def issued_def)
  qed
  then show ?thesis using assms by (auto simp: service_inv_def app_inv_def in_sync_def issued_def)
qed


section \<open>Every step keeps it\<close>

lemma Update_ids: "oID ` set (orders_of (snd (OrderRepo_Update t r ord))) \<subseteq> oID ` set (orders_of r)"
proof -
  have "map oID (orders_of (snd (OrderRepo_Update t r ord))) = map oID (orders_of r)"
  proof (cases "orByID r (oID ord)")
    case (Some p)
    have "oID ((orCells r)[p := (orCells r ! p)\<lparr>oStatus := st, oFilledQuantity := q, oUpdatedAt := t\<rparr>] ! i) =
        oID (orCells r ! i)" for i st q
      by (cases "i = p"; cases "p < length (orCells r)") (simp_all add: nth_list_update list_update_beyond)
    then show ?thesis by (simp add: OrderRepo_Update_def Some orders_of_def)
  qed (simp add: OrderRepo_Update_def)
  then show ?thesis by (metis list.set_map order_refl)
qed

lemma issued_mono:
  assumes "issued uuid w" and "oID ` set (orders_of (wOrders w')) \<subseteq> oID ` set (orders_of (wOrders w))"
    and "wUuids w \<le> wUuids w'"
  shows "issued uuid w'"
  using assms unfolding issued_def by (meson image_mono lessThan_subset_iff order_trans)

lemma executeTrade_issued:
  assumes "issued uuid (world m)"
  shows "issued uuid (world (executeTrade (memory_deps uuid clock) m b s q p))"
proof -
  let ?d = "memory_deps uuid clock"
  let ?I = "\<lambda>w. issued uuid w"
  have D: "?I w \<Longrightarrow> ?I (snd (NewString ?d w))" "?I w \<Longrightarrow> ?I (snd (Now ?d w))"
    "?I w \<Longrightarrow> ?I (snd (tradeRepoSave ?d w t))"
    "?I w \<Longrightarrow> ?I (snd (marketUpdateTickerFromTrade ?d w c pr qt))" for w t c pr qt
    by (rule issued_mono, assumption, simp_all add: memory_deps_def split_beta)+
  have P: "?I w \<Longrightarrow> ?I (busPublish ?d w ev)" for w ev
    by (rule issued_mono, assumption) (auto simp: memory_deps_def split: prod.splits send_result.splits)
  have O: "?I w \<Longrightarrow> ?I (snd (orderRepoUpdate ?d w ord))" for w ord
    by (rule issued_mono, assumption) (simp_all add: memory_deps_def split_beta Update_ids)
  have U: "?I (world x) \<Longrightarrow> ?I (world (updateTicker ?d x pr qt))" for x :: "memory_world mstate" and pr qt
    using D(4) [of "world x" "stockCode x" pr qt] by (auto simp: updateTicker_def split_beta split: sum.split intro!: D(2) P)
  show ?thesis using assms by (auto simp: executeTrade_def Let_def split_beta split: option.split intro!: D(1,2,3) O P U)
qed

lemma matchOrder_issued:
  assumes "issued uuid (world m)"
  shows "issued uuid (world (matchOrder (memory_deps uuid clock) m a))"
proof -
  let ?d = "memory_deps uuid clock"
  have "issued uuid (world (matchBuy ?d m a))" "issued uuid (world (matchSell ?d m a))"
    by (rule buy.loop_preserves [where A = UNIV] sell.loop_preserves [where A = UNIV]; simp add: assms executeTrade_issued)+
  then have "issued uuid (world (match_phase ?d m a))" using assms by (simp add: match_phase_def)
  moreover have "issued uuid (world x) \<Longrightarrow> issued uuid (world (publishOrderBook ?d x))" for x :: "memory_world mstate"
    by (rule issued_mono [of uuid "world x"], assumption)
      (auto simp: publishOrderBook_def memory_deps_def Let_def split: prod.splits send_result.splits)
  ultimately show ?thesis by (simp add: matchOrder_def match_phase_def [symmetric] Let_def)
qed

text \<open>What a turn of a matcher does to the orders: it changes none that it does not hold, and no identity.\<close>

lemma handle_live:
  fixes uuid :: "nat \<Rightarrow> string" and clock :: "nat \<Rightarrow> time"
  assumes inv: "matcher_inv (engHeap e) code m" and q: "chQueue (mcCh m) = x # xs"
    and sub: "held m \<subseteq> L" and sync: "in_sync L (engHeap e) (wOrders (engWorld e))" and iss: "issued uuid (engWorld e)"
  defines "s \<equiv> handle (memory_deps uuid clock) (view e m) x"
  shows "in_sync L (heap s) (wOrders (world s))" and "issued uuid (world s)"
    and "y \<notin> held m \<Longrightarrow> heap s y = engHeap e y"
    and "held (m\<lparr>mcBook := book s, mcCh := (mcCh m)\<lparr>chQueue := xs\<rparr>\<rparr>) \<subseteq> held m"
proof -
  have "in_sync L (heap s) (wOrders (world s)) \<and> issued uuid (world s) \<and> (y \<notin> held m \<longrightarrow> heap s y = engHeap e y) \<and>
    held (m\<lparr>mcBook := book s, mcCh := (mcCh m)\<lparr>chQueue := xs\<rparr>\<rparr>) \<subseteq> held m"
  proof (cases x)
    case None
    then show ?thesis using sync iss q by (auto simp: s_def handle_def view_def held_def)
  next
    case (Some a)
    define v where "v = view e m"
    have s: "s = matchOrder (memory_deps uuid clock) v a" by (simp add: s_def handle_def Some v_def)
    have bi: "book_inv (heap v) (book v)" and inc: "incoming_ok (heap v) (book v) a"
      using inv q by (auto simp: matcher_inv_def v_def view_def Some)
    have "involved v a \<subseteq> L" using sub q by (auto simp: involved_def held_def v_def view_def Some)
    then have "in_sync L (heap s) (wOrders (world s))"
      unfolding s by (rule matchOrder_sync_aux [OF bi inc]) (use sync in \<open>simp add: v_def view_def\<close>)
    moreover have "issued uuid (world s)" unfolding s by (rule matchOrder_issued) (use iss in \<open>simp add: v_def view_def\<close>)
    moreover have "heap s y = engHeap e y" if "y \<notin> held m"
      using match_phase_local [OF bi inc, of y "memory_deps uuid clock"] that q
      by (simp add: s matchOrder_phases v_def view_def held_def Some)
    moreover have "held (m\<lparr>mcBook := book s, mcCh := (mcCh m)\<lparr>chQueue := xs\<rparr>\<rparr>) \<subseteq> held m"
      using matchOrder_entries [OF bi inc, of "memory_deps uuid clock", folded s] q
      by (auto simp: held_def v_def view_def Some)
    ultimately show ?thesis by blast
  qed
  then show "in_sync L (heap s) (wOrders (world s))" and "issued uuid (world s)"
    and "y \<notin> held m \<Longrightarrow> heap s y = engHeap e y"
    and "held (m\<lparr>mcBook := book s, mcCh := (mcCh m)\<lparr>chQueue := xs\<rparr>\<rparr>) \<subseteq> held m" by auto
qed

lemma app_inv_turn:
  assumes inv: "app_inv uuid s" and turn: "run_turn (memory_deps uuid clock) code (swEngine (apWorld s)) = Some e'"
  shows "app_inv uuid (app_engine e' s)"
proof -
  let ?e = "swEngine (apWorld s)"
  have "engine_inv ?e" using inv by (simp add: app_inv_def)
  note ei = engine_inv_turn [OF this turn]
  obtain m where m: "engMatchers ?e code = Some m" using turn by (auto simp: run_turn_def split: option.splits)
  have mi: "matcher_inv (engHeap ?e) code m" using inv m by (simp add: app_inv_def engine_inv_def)
  show ?thesis
  proof (cases "chQueue (mcCh m)")
    case Nil
    then have same: "engMatchers e' = engMatchers ?e" "engHeap e' = engHeap ?e" "engWorld e' = engWorld ?e"
      using turn m by (auto simp: run_turn_def split: if_splits)
    have held: "all_held e' = all_held ?e" unfolding all_held_def same(1) ..
    then have "live (app_engine e' s) = live s" by (simp only: live_def app_engine_def) simp
    then show ?thesis using inv ei same held by (simp add: app_inv_def app_engine_def)
  next
    case (Cons x xs)
    define t where "t = handle (memory_deps uuid clock) (view ?e m) x"
    have e': "engHeap e' = heap t" "engWorld e' = world t" "engMatchers e' =
        (engMatchers ?e)(code \<mapsto> m\<lparr>mcBook := book t, mcCh := (mcCh m)\<lparr>chQueue := xs\<rparr>\<rparr>)"
      using turn m Cons by (auto simp: run_turn_def t_def Let_def split: if_splits)
    have sub: "held m \<subseteq> live s" using m by (auto simp: live_def all_held_iff)
    note T = handle_live [OF mi Cons sub, where uuid = uuid and clock = clock, folded t_def]
    have sync: "in_sync (live s) (heap t) (wOrders (world t))" "issued uuid (world t)"
      using inv T(1,2) by (simp_all add: app_inv_def)
    have out: "heap t y = engHeap ?e y" if "y \<notin> held m" for y using inv T(3) that by (simp add: app_inv_def)
    have "held (m\<lparr>mcBook := book t, mcCh := (mcCh m)\<lparr>chQueue := xs\<rparr>\<rparr>) \<subseteq> held m" using inv T(4) by (simp add: app_inv_def)
    moreover have "held m \<subseteq> all_held ?e" using m by (rule held_all)
    ultimately have h: "all_held e' \<subseteq> all_held ?e" using all_held_upd [OF m e'(3)] by blast
    then have l: "live (app_engine e' s) \<subseteq> live s" by (auto simp: live_def app_engine_def)
    have "heap t a = engHeap ?e a" if "a \<in> apPending s" for a
      using out [of a] that inv held_all [OF m] by (auto simp: app_inv_def)
    then show ?thesis
      using inv ei sync in_sync_mono [OF sync(1) l] l h
      by (auto simp: app_inv_def app_engine_def e' dest: subsetD)
  qed
qed

text \<open>Preparing an order: its two objects are new, its identifier is fresh.\<close>

lemma app_inv_prepare:
  assumes inv: "app_inv uuid s" and inj: "inj uuid" and ok: "request_ok req"
  shows "app_inv uuid (create_prepare uuid clock userID req s)"
proof -
  let ?w = "apWorld s" and ?e = "swEngine (apWorld s)" and ?n = "swNext (apWorld s)"
  define x where "x = created uuid clock ?w userID req"
  define e' where "e' = prepared uuid clock ?w userID req"
  define r where "r = wOrders (engWorld ?e)"
  have si: "service_inv uuid ?w" by (rule app_service_inv [OF inv inj])
  have e': "engHeap e' = (engHeap ?e)(?n := x, Suc ?n := x)" "engMatchers e' = engMatchers ?e"
    "wOrders (engWorld e') = snd (OrderRepo_Save r x)" "wUuids (engWorld e') = Suc (wUuids (engWorld ?e))"
    by (simp_all add: e'_def x_def r_def prepared_def Let_def)
  have fresh: "orByID r (oID x) = None" using created_fresh [OF si] by (simp add: r_def x_def)
  have sync: "in_sync (live s) (engHeap ?e) r" and lt: "\<forall>a\<in>live s. a < ?n" and wf: "or_wf r"
    using inv by (simp_all add: app_inv_def r_def in_sync_def)
  have old: "engHeap e' a = engHeap ?e a" if "a \<in> live s" for a using lt that by (auto simp: e')
  have held: "all_held e' = all_held ?e" unfolding all_held_def e' ..
  have live: "live (create_prepare uuid clock userID req s) = insert ?n (live s)"
    using held by (simp add: live_def create_prepare_def Let_def e'_def)
  have find: "OrderRepo_FindByID (snd (OrderRepo_Save r x)) = (OrderRepo_FindByID r)(oID x := Inr x)"
    by (rule OrderRepo_FindByID_Save [OF wf fresh])
  have ne: "oID (engHeap ?e a) \<noteq> oID x" if "a \<in> live s" for a
    using sync that fresh OrderRepo_FindByID_None [of r "oID x"] by (auto simp: in_sync_def)
  have n: "?n \<notin> live s" using lt by auto
  have "in_sync (insert ?n (live s)) (engHeap e') (snd (OrderRepo_Save r x))"
    unfolding in_sync_def
  proof (intro conjI ballI)
    show "inj_on (\<lambda>a. oID (engHeap e' a)) (insert ?n (live s))"
    proof -
      have "inj_on (\<lambda>a. oID (engHeap e' a)) (live s)"
        using sync inj_on_cong [of "live s" "\<lambda>a. oID (engHeap e' a)" "\<lambda>a. oID (engHeap ?e a)"] old
        by (simp add: in_sync_def)
      moreover have "oID (engHeap e' ?n) \<notin> (\<lambda>a. oID (engHeap e' a)) ` live s"
        using ne old by (force simp: e'(1))
      ultimately show ?thesis using n by (simp add: inj_on_insert)
    qed
    fix a
    assume "a \<in> insert ?n (live s)"
    then show "\<exists>stored. OrderRepo_FindByID (snd (OrderRepo_Save r x)) (oID (engHeap e' a)) = Inr stored \<and>
        agrees (engHeap e' a) stored"
      using sync ne old by (cases "a = ?n") (auto simp: find e'(1) agrees_def in_sync_def)
  qed (rule or_wf_Save [OF wf])
  moreover have "engine_inv e'"
    using engine_inv_step [OF prepared_step [OF si]] inv by (simp add: e'_def app_inv_def)
  moreover have "issued uuid (engWorld e')"
  proof -
    have "oID x = uuid (wUuids (engWorld ?e))" by (simp add: x_def created_def new_order_def)
    moreover have "set (orders_of (snd (OrderRepo_Save r x))) \<subseteq> insert x (set (orders_of r))"
      using orders_of_cells [OF wf] orders_of_cells [OF or_wf_Save [OF wf, of x]]
      by (auto simp: OrderRepo_Save_def Let_def fresh)
    moreover have "oID ` set (orders_of r) \<subseteq> uuid ` {..<wUuids (engWorld ?e)}"
      using inv by (simp add: app_inv_def issued_def r_def)
    ultimately show ?thesis by (auto simp: issued_def e'(3,4) lessThan_Suc)
  qed
  moreover have "order_wf x \<and> Side_IsValid (oSide x)" using new_order_ok [OF ok] by (simp add: x_def created_def)
  moreover have "apPending s \<subseteq> live s" "apPending s \<inter> all_held ?e = {}" "?n \<notin> all_held ?e"
    using inv n by (auto simp: live_def app_inv_def)
  moreover have "\<forall>a\<in>apPending s. order_wf (engHeap ?e a) \<and> Side_IsValid (oSide (engHeap ?e a))"
    using inv by (simp add: app_inv_def)
  moreover have "engHeap e' ?n = x" by (simp add: e'(1))
  moreover have "swEngine (apWorld (create_prepare uuid clock userID req s)) = e'"
    "swNext (apWorld (create_prepare uuid clock userID req s)) = Suc (Suc ?n)"
    "apPending (create_prepare uuid clock userID req s) = insert ?n (apPending s)"
    by (simp_all add: create_prepare_def Let_def e'_def)
  moreover have "\<forall>a\<in>insert ?n (live s). a < Suc (Suc ?n)" using lt by auto
  ultimately show ?thesis
    using old unfolding app_inv_def live by (simp add: e'(3) held subset_iff)
qed

lemma app_inv_submit:
  assumes inv: "app_inv uuid s" and a: "a \<in> apPending s" and sub: "create_submit a s = Return s'"
  shows "app_inv uuid s'"
proof -
  let ?e = "swEngine (apWorld s)"
  obtain r e' where e': "SubmitOrder ?e a = Return (r, e')"
    and s': "s' = (app_engine e' s)\<lparr>apPending := apPending s - {a}\<rparr>"
    using sub by (auto simp: create_submit_def split: outcome.splits)
  have ei: "engine_inv e'"
    using engine_inv_submit [OF _ pending_admissible [OF inv a] e'] inv by (simp add: app_inv_def)
  have same: "engWorld e' = engWorld ?e" "engHeap e' = engHeap ?e" using SubmitOrder_world [OF e'] by simp_all
  have dis: "apPending s \<inter> all_held ?e = {}" using inv by (simp add: app_inv_def)
  have held: "all_held e' \<subseteq> insert a (all_held ?e)"
    using SubmitOrder_Return [OF e']
  proof (elim disjE exE conjE)
    fix m
    assume m: "engMatchers ?e (oStockCode (engHeap ?e a)) = Some m"
      and e'': "e' = ?e\<lparr>engMatchers := (engMatchers ?e)(oStockCode (engHeap ?e a) \<mapsto>
            m\<lparr>mcCh := (mcCh m)\<lparr>chQueue := chQueue (mcCh m) @ [Some a]\<rparr>\<rparr>)\<rparr>"
    have h: "held m \<subseteq> all_held ?e" using m by (rule held_all)
    show ?thesis
    proof (rule all_held_upd [OF m])
      show "engMatchers e' = (engMatchers ?e)(oStockCode (engHeap ?e a) \<mapsto>
            m\<lparr>mcCh := (mcCh m)\<lparr>chQueue := chQueue (mcCh m) @ [Some a]\<rparr>\<rparr>)" by (simp add: e'')
      show "held (m\<lparr>mcCh := (mcCh m)\<lparr>chQueue := chQueue (mcCh m) @ [Some a]\<rparr>\<rparr>) \<subseteq> insert a (all_held ?e)"
        using h by (auto simp: held_def)
    qed (use h in auto)
  qed auto
  then have live: "live s' \<subseteq> live s" using a by (auto simp: live_def s' app_engine_def)
  have "apPending s' \<inter> all_held (swEngine (apWorld s')) = {}" using held dis by (auto simp: s' app_engine_def)
  moreover have "in_sync (live s') (engHeap ?e) (wOrders (engWorld ?e))"
    using inv by (intro in_sync_mono [OF _ live]) (simp add: app_inv_def)
  moreover have "\<forall>b\<in>live s'. b < swNext (apWorld s')" using inv live by (auto simp: app_inv_def s' app_engine_def)
  moreover have "\<forall>b\<in>apPending s'. order_wf (engHeap ?e b) \<and> Side_IsValid (oSide (engHeap ?e b))"
    using inv by (simp add: app_inv_def s')
  moreover have "swEngine (apWorld s') = e'" by (simp add: s' app_engine_def)
  moreover have "issued uuid (engWorld ?e)" using inv by (simp add: app_inv_def)
  ultimately show ?thesis using ei by (simp add: app_inv_def same)
qed

lemma app_inv_engine:
  assumes "app_inv uuid s" and "engine_inv e'" and "all_held e' = all_held (swEngine (apWorld s))"
    and "engHeap e' = engHeap (swEngine (apWorld s))" and "wOrders (engWorld e') = wOrders (engWorld (swEngine (apWorld s)))"
    and "wUuids (engWorld (swEngine (apWorld s))) \<le> wUuids (engWorld e')"
  shows "app_inv uuid (app_engine e' s)"
proof -
  have "live (app_engine e' s) = live s" using assms(3) by (simp add: live_def app_engine_def)
  moreover have "issued uuid (engWorld e')"
    by (rule issued_mono [of uuid "engWorld (swEngine (apWorld s))"]) (use assms(1,5,6) in \<open>simp_all add: app_inv_def\<close>)
  ultimately show ?thesis using assms by (simp add: app_inv_def app_engine_def)
qed

lemma app_inv_step: "app_step uuid clock s s' \<Longrightarrow> inj uuid \<Longrightarrow> app_inv uuid s \<Longrightarrow> app_inv uuid s'"
proof (induction rule: app_step.induct)
  case (prepare req s userID)
  then show ?case by (intro app_inv_prepare)
next
  case (submit a s s')
  then show ?case by (blast intro: app_inv_submit)
next
  case (turn code s e)
  then show ?case by (blast intro: app_inv_turn)
next
  case (start s)
  let ?e = "swEngine (apWorld s)"
  have "engine_inv (Start ?e)" using start by (simp add: app_inv_def engine_inv_def Start_def)
  then show ?case by (rule app_inv_engine [OF start(2)]) (simp_all add: Start_def all_held_def)
next
  case (stop s)
  let ?e = "swEngine (apWorld s)"
  have "engine_inv (Stop_close ?e)" using stop engine_inv_step [OF engine_step.stop, of ?e] by (simp add: app_inv_def)
  moreover have "all_held (Stop_close ?e) = all_held ?e"
    by (auto simp: all_held_iff Stop_close_def held_def split: if_splits) fastforce+
  ultimately show ?case by (rule app_inv_engine [OF stop(2)]) (simp_all add: Stop_close_def)
next
  case (others m s)
  let ?e = "swEngine (apWorld s)"
  have "engine_inv (?e\<lparr>engWorld := m\<rparr>)" using others by (simp add: app_inv_def engine_inv_def)
  then show ?case by (rule app_inv_engine [OF others(4)]) (use others in \<open>simp_all add: all_held_def\<close>)
qed

lemma app_reachable_inv: "app_reachable uuid clock s \<Longrightarrow> inj uuid \<Longrightarrow> app_inv uuid s"
proof (induction rule: app_reachable.induct)
  case (init w stocks h)
  have "held (newMatcher c) = {}" for c by (simp add: held_def newMatcher_def new_channel_def newOrderBook_def book_entries_def)
  then have "all_held (NewEngine stocks h w) = {}"
    by (simp add: all_held_def NewEngine_matchers cong: if_cong)
  moreover have "or_wf NewOrderRepo" by (rule or_wf_New)
  ultimately show ?case
    using init engine_inv_New [of stocks h w]
    by (simp add: app_inv_def app_start_def live_def issued_def in_sync_def NewEngine_def orders_of_def NewOrderRepo_def)
next
  case (step s s')
  then show ?case by (blast intro: app_inv_step)
qed

section \<open>The service's calls are runs\<close>

lemma or_wf_distinct: "or_wf r \<Longrightarrow> distinct (map oID (orders_of r))"
proof -
  assume wf: "or_wf r"
  have "i = j" if "i < length (orCells r)" "j < length (orCells r)" "oID (orCells r ! i) = oID (orCells r ! j)" for i j
    using wf that unfolding or_wf_def by (metis option.inject)
  then show ?thesis by (auto simp: orders_of_cells [OF wf] distinct_conv_nth)
qed

lemma CreateOrder_app_run:
  assumes reach: "app_reachable uuid clock s" and inj: "inj uuid" and ok: "request_ok req"
    and ret: "CreateOrder (service_deps uuid clock) (apWorld s) userID req = Return (r, w')"
  shows "app_reachable uuid clock (s\<lparr>apWorld := w'\<rparr>)"
proof -
  let ?w = "apWorld s"
  define e1 where "e1 = prepared uuid clock ?w userID req"
  define s1 where "s1 = create_prepare uuid clock userID req s"
  have inv: "app_inv uuid s" by (rule app_reachable_inv [OF reach inj])
  note unf = CreateOrder_unfold [OF app_service_inv [OF inv inj], of clock userID req, folded e1_def]
  have r1: "app_reachable uuid clock s1" unfolding s1_def by (rule app_reachable.step [OF reach app_step.prepare [OF ok]])
  have a: "swNext ?w \<notin> apPending s" using inv by (auto simp: app_inv_def live_def)
  have s1: "swEngine (apWorld s1) = e1" "apPending s1 = insert (swNext ?w) (apPending s)"
    "swNext (apWorld s1) = Suc (Suc (swNext ?w))"
    by (simp_all add: s1_def create_prepare_def Let_def e1_def)
  obtain x e2 where sub: "SubmitOrder e1 (swNext ?w) = Return (x, e2)"
    using ret unfolding unf by (cases "SubmitOrder e1 (swNext ?w)") auto
  define s2 where "s2 = s\<lparr>apWorld := \<lparr>swEngine = e2, swNext = Suc (Suc (swNext ?w))\<rparr>\<rparr>"
  have "create_submit (swNext ?w) s1 = Return s2"
    using a s1 sub by (simp add: create_submit_def app_engine_def s2_def)
  then have r2: "app_reachable uuid clock s2"
    using r1 s1 by (intro app_reachable.step [OF r1 app_step.submit]) auto
  show ?thesis
  proof (cases x)
    case (Inl err)
    then have "w' = apWorld s2" using ret unfolding unf by (simp add: sub s2_def)
    then show ?thesis using r2 by (simp add: s2_def)
  next
    case (Inr u)
    then obtain ch where "w' = \<lparr>swEngine = e2\<lparr>engWorld := (engWorld e2)\<lparr>wBus := ch\<rparr>\<rparr>, swNext = Suc (Suc (swNext ?w))\<rparr>"
      using ret unfolding unf by (auto simp: sub split: prod.splits send_result.splits)
    then have "s\<lparr>apWorld := w'\<rparr> = app_engine ((swEngine (apWorld s2))\<lparr>engWorld := (engWorld e2)\<lparr>wBus := ch\<rparr>\<rparr>) s2"
      by (simp add: s2_def app_engine_def)
    then show ?thesis
      using app_reachable.step [OF r2 app_step.others [of "(engWorld e2)\<lparr>wBus := ch\<rparr>" s2]] by (simp add: s2_def)
  qed
qed

section \<open>Properties\<close>


definition empty_world :: memory_world where
  "empty_world = \<lparr>wOrders = NewOrderRepo, wTrades = NewTradeRepo, wMarket = NewMarketRepo, wBus = new_channel,
     wPanicked = False, wUuids = 0, wTicks = 0\<rparr>"

definition unary :: "nat \<Rightarrow> string" where "unary n = replicate n (CHR ''x'')"

lemma inj_unary: "inj unary"
  by (rule injI) (metis length_replicate unary_def)

definition app_request :: CreateOrderRequest where
  "app_request = \<lparr>rqStockCode = ''BBCA'', rqSide = ''BUY'', rqPrice = 9500, rqQuantity = 10\<rparr>"

definition app_sample :: app where
  "app_sample = create_prepare unary int ''ann'' app_request (app_start DefaultStocks (\<lambda>_. undefined) empty_world)"

lemma app_sample_reachable: "app_reachable unary int app_sample"
proof -
  have "request_ok app_request" by (simp add: request_ok_def app_request_def) code_simp
  then show ?thesis
    unfolding app_sample_def
    by (intro app_reachable.step [OF app_reachable.init app_step.prepare]) (simp_all add: empty_world_def)
qed


end
