(* ===== verification/Auth.thy ===== *)
theory Auth
  imports Validation
begin

text \<open>
  Registration, login and token validation (src/internal/infra/auth/jwt.go). The password hash
  and the token library are third-party packages: \<open>bcrypt\<close> and \<open>jwt\<close> are parameters,
  and what the code relies on of them is stated as hypotheses (\<open>bcrypt_ok\<close>, \<open>jwt_ok\<close>).
\<close>

datatype auth_error = ErrUserNotFound | ErrUserExists | ErrInvalidCredentials | ErrInvalidToken | ErrAuthOther string

record Claims =
  clUserID :: string
  clUsername :: string
  clSubject :: string
  clIssuedAt :: time
  clExpiresAt :: time

datatype sign_method = HMAC string | OtherMethod string

record bcrypt =
  GenerateFromPassword :: "string \<Rightarrow> string option"
  CompareHashAndPassword :: "string \<Rightarrow> string \<Rightarrow> bool"

text \<open>
  \<open>tokenMethod\<close> is the signing method named in a token's header, \<open>None\<close> for a malformed token;
  \<open>verify\<close> checks the signature and the times under a key. \<open>NewNumericDate\<close> cuts a time to the
  precision tokens have.
\<close>

record jwt =
  NewNumericDate :: "time \<Rightarrow> time"
  SignedString :: "string \<Rightarrow> Claims \<Rightarrow> string option"
  tokenMethod :: "string \<Rightarrow> sign_method option"
  verify :: "sign_method \<Rightarrow> string \<Rightarrow> time \<Rightarrow> string \<Rightarrow> Claims option"

definition ParseWithClaims ::
  "jwt \<Rightarrow> time \<Rightarrow> string \<Rightarrow> (sign_method \<Rightarrow> auth_error + string) \<Rightarrow> Claims option" where
  "ParseWithClaims j now tok keyfunc =
     (case tokenMethod j tok of
        None \<Rightarrow> None
      | Some m \<Rightarrow> (case keyfunc m of Inl e \<Rightarrow> None | Inr key \<Rightarrow> verify j m key now tok))"

section \<open>The service\<close>

record AuthService =
  asSecret :: string
  asExpiry :: duration
  asUsers :: "string \<rightharpoonup> User"
  asByID :: "string \<rightharpoonup> User"

definition NewAuthService :: "string \<Rightarrow> duration \<Rightarrow> AuthService" where
  "NewAuthService secret expiry =
     \<lparr>asSecret = secret, asExpiry = expiry, asUsers = Map.empty, asByID = Map.empty\<rparr>"

text \<open>\<open>LoadUsers\<close>, for what the attached repository answered (\<open>None\<close>: no repository).\<close>

definition LoadUsers :: "(repo_error + User list) option \<Rightarrow> AuthService \<Rightarrow> repo_error option \<times> AuthService" where
  "LoadUsers found s =
     (case found of
        None \<Rightarrow> (None, s)
      | Some (Inl err) \<Rightarrow> (Some err, s)
      | Some (Inr users) \<Rightarrow>
          (None, fold (\<lambda>u s. s\<lparr>asUsers := (asUsers s)(uUsername u \<mapsto> u),
                               asByID := (asByID s)(uID u \<mapsto> u)\<rparr>) users s))"

text \<open>
  \<open>Register\<close> takes the lock twice: a read lock for a first check, a write lock at the end for a
  second check and the insertion. Between the two, other goroutines run; the two critical
  sections are separate functions, and \<open>Register\<close> puts them together for one goroutine alone.
\<close>

definition Register_check :: "AuthService \<Rightarrow> string \<Rightarrow> bool" where
  "Register_check s username \<longleftrightarrow> asUsers s username \<noteq> None"

definition Register_insert :: "AuthService \<Rightarrow> User \<Rightarrow> (auth_error + User) \<times> AuthService" where
  "Register_insert s u =
     (if asUsers s (uUsername u) \<noteq> None then (Inl ErrUserExists, s)
      else (Inr u, s\<lparr>asUsers := (asUsers s)(uUsername u \<mapsto> u), asByID := (asByID s)(uID u \<mapsto> u)\<rparr>))"

text \<open>\<open>saved\<close> is the answer of the user repository, \<open>None\<close> when there is none or it succeeds.\<close>

definition Register ::
  "bcrypt \<Rightarrow> string \<Rightarrow> time \<Rightarrow> (User \<Rightarrow> repo_error option) \<Rightarrow> AuthService \<Rightarrow> string \<Rightarrow> string
     \<Rightarrow> (auth_error + User) \<times> AuthService" where
  "Register b uid now saved s username password =
     (if Register_check s username then (Inl ErrUserExists, s)
      else case GenerateFromPassword b password of
        None \<Rightarrow> (Inl (ErrAuthOther ''bcrypt''), s)
      | Some hash \<Rightarrow>
          let u = \<lparr>uID = uid, uUsername = username, uPasswordHash = hash, uCreatedAt = now\<rparr>
          in case saved u of
               Some ErrDuplicate \<Rightarrow> (Inl ErrUserExists, s)
             | Some e \<Rightarrow> (Inl (ErrAuthOther ''repository''), s)
             | None \<Rightarrow> Register_insert s u)"

definition Login ::
  "bcrypt \<Rightarrow> jwt \<Rightarrow> time \<Rightarrow> time \<Rightarrow> AuthService \<Rightarrow> string \<Rightarrow> string \<Rightarrow> auth_error + (string \<times> time)" where
  "Login b j now1 now2 s username password =
     (case asUsers s username of
        None \<Rightarrow> Inl ErrInvalidCredentials
      | Some u \<Rightarrow>
          if \<not> CompareHashAndPassword b (uPasswordHash u) password then Inl ErrInvalidCredentials
          else let expiresAt = now1 + asExpiry s;
                   claims = \<lparr>clUserID = uID u, clUsername = uUsername u, clSubject = uID u,
                             clIssuedAt = NewNumericDate j now2, clExpiresAt = NewNumericDate j expiresAt\<rparr>
               in case SignedString j (asSecret s) claims of
                    None \<Rightarrow> Inl (ErrAuthOther ''sign'')
                  | Some signed \<Rightarrow> Inr (signed, expiresAt))"

definition ValidateToken :: "jwt \<Rightarrow> time \<Rightarrow> AuthService \<Rightarrow> string \<Rightarrow> auth_error + Claims" where
  "ValidateToken j now s tok =
     (case ParseWithClaims j now tok
             (\<lambda>m. case m of HMAC _ \<Rightarrow> Inr (asSecret s) | OtherMethod _ \<Rightarrow> Inl ErrInvalidToken) of
        None \<Rightarrow> Inl ErrInvalidToken
      | Some c \<Rightarrow> Inr c)"

definition GetUserByID :: "AuthService \<Rightarrow> string \<Rightarrow> auth_error + User" where
  "GetUserByID s i = (case asByID s i of None \<Rightarrow> Inl ErrUserNotFound | Some u \<Rightarrow> Inr u)"

section \<open>What is relied on\<close>

text \<open>A password compares equal with its own hash, and only with a hash of itself.\<close>

definition bcrypt_ok :: "bcrypt \<Rightarrow> bool" where
  "bcrypt_ok b \<longleftrightarrow>
     (\<forall>p q h. GenerateFromPassword b p = Some h \<longrightarrow> (CompareHashAndPassword b h q \<longleftrightarrow> q = p))"

text \<open>
  Tokens are signed with HMAC and verify under the key they were signed with until they expire;
  a token verifies under a key only if it was signed with it.
\<close>

definition jwt_ok :: "jwt \<Rightarrow> bool" where
  "jwt_ok j \<longleftrightarrow>
     (\<forall>t. NewNumericDate j (NewNumericDate j t) = NewNumericDate j t) \<and>
     (\<forall>k c tok. SignedString j k c = Some tok \<and> NewNumericDate j (clIssuedAt c) = clIssuedAt c \<and>
        NewNumericDate j (clExpiresAt c) = clExpiresAt c \<longrightarrow>
        (\<exists>alg. tokenMethod j tok = Some (HMAC alg) \<and>
           (\<forall>now. now < clExpiresAt c \<longrightarrow> verify j (HMAC alg) k now tok = Some c))) \<and>
     (\<forall>alg k now tok c. verify j (HMAC alg) k now tok = Some c \<longrightarrow>
        (\<exists>c'. SignedString j k c' = Some tok \<and> clUserID c' = clUserID c) \<and> now < clExpiresAt c)"

section \<open>Results\<close>

text \<open>The two maps describe the same users.\<close>

definition auth_wf :: "AuthService \<Rightarrow> bool" where
  "auth_wf s \<longleftrightarrow>
     (\<forall>n u. asUsers s n = Some u \<longrightarrow> uUsername u = n \<and> asByID s (uID u) = Some u) \<and>
     (\<forall>i u. asByID s i = Some u \<longrightarrow> uID u = i \<and> asUsers s (uUsername u) = Some u)"

lemma auth_wf_New: "auth_wf (NewAuthService k x)"
  by (simp add: auth_wf_def NewAuthService_def)

lemma Register_insert_wf:
  assumes "auth_wf s" and "asByID s (uID u) = None"
  shows "auth_wf (snd (Register_insert s u))"
  using assms by (auto simp: auth_wf_def Register_insert_def) (metis option.distinct(1))+

text \<open>Whatever registrations interleave, a name that is taken keeps its user.\<close>

lemma Register_insert_keeps:
  "asUsers s n = Some u \<Longrightarrow> asUsers (snd (Register_insert s v)) n = Some u"
  by (auto simp: Register_insert_def)

lemma inserts_keep:
  "asUsers s n = Some u \<Longrightarrow> asUsers (fold (\<lambda>v s. snd (Register_insert s v)) vs s) n = Some u"
  by (induction vs arbitrary: s) (simp_all add: Register_insert_keeps)

text \<open>Of the insertions racing for a free name exactly the first succeeds.\<close>

lemma inserts_first_wins:
  assumes "asUsers s n = None" and "\<forall>v\<in>set (u # vs). uUsername v = n"
  shows "asUsers (fold (\<lambda>v s. snd (Register_insert s v)) (u # vs) s) n = Some u"
    and "fst (Register_insert s u) = Inr u"
    and "v \<in> set vs \<Longrightarrow> fst (Register_insert (fold (\<lambda>v s. snd (Register_insert s v)) (u # ws) s) v) = Inl ErrUserExists"
proof -
  have u: "asUsers (snd (Register_insert s u)) n = Some u" "fst (Register_insert s u) = Inr u"
    using assms by (auto simp: Register_insert_def)
  show "asUsers (fold (\<lambda>v s. snd (Register_insert s v)) (u # vs) s) n = Some u"
    using inserts_keep [OF u(1)] by simp
  show "fst (Register_insert s u) = Inr u" by (rule u(2))
  show "fst (Register_insert (fold (\<lambda>v s. snd (Register_insert s v)) (u # ws) s) v) = Inl ErrUserExists"
    if "v \<in> set vs"
  proof -
    have "asUsers (fold (\<lambda>v s. snd (Register_insert s v)) (u # ws) s) (uUsername v) = Some u"
      using inserts_keep [OF u(1), of ws] assms(2) that by simp
    then show ?thesis by (simp add: Register_insert_def)
  qed
qed

text \<open>A registered user can log in with the password, and the token names that user.\<close>

lemma login_roundtrip:
  assumes "bcrypt_ok b" and "jwt_ok j"
    and reg: "Register b uid now saved s username password = (Inr u, s')"
    and login: "Login b j now1 now2 s' username password' = r"
    and sign: "\<And>c. SignedString j (asSecret s') c \<noteq> None"
  shows "if password' = password
         then \<exists>tok. r = Inr (tok, now1 + asExpiry s') \<and>
           (\<forall>t < NewNumericDate j (now1 + asExpiry s'). \<exists>c. ValidateToken j t s' tok = Inr c \<and> clUserID c = uID u)
         else r = Inl ErrInvalidCredentials"
proof -
  obtain h where h: "GenerateFromPassword b password = Some h"
    and u: "u = \<lparr>uID = uid, uUsername = username, uPasswordHash = h, uCreatedAt = now\<rparr>"
    and s': "asUsers s' username = Some u"
    using reg by (auto simp: Register_def Register_insert_def Let_def split: if_splits option.splits repo_error.splits)
  have cmp: "CompareHashAndPassword b (uPasswordHash u) q = (q = password)" for q
    using assms(1) h unfolding bcrypt_ok_def by (simp add: u)
  show ?thesis
  proof (cases "password' = password")
    case True
    define c where "c = \<lparr>clUserID = uID u, clUsername = uUsername u, clSubject = uID u,
        clIssuedAt = NewNumericDate j now2, clExpiresAt = NewNumericDate j (now1 + asExpiry s')\<rparr>"
    obtain tok where tok: "SignedString j (asSecret s') c = Some tok" using sign [of c] by blast
    have r: "r = Inr (tok, now1 + asExpiry s')"
      using login cmp True tok s' by (simp add: Login_def Let_def c_def)
    obtain alg where "tokenMethod j tok = Some (HMAC alg)"
      "\<forall>t. t < clExpiresAt c \<longrightarrow> verify j (HMAC alg) (asSecret s') t tok = Some c"
      using assms(2) tok unfolding jwt_ok_def by (metis Claims.select_convs(4,5) c_def)
    then have "ValidateToken j t s' tok = Inr c" if "t < NewNumericDate j (now1 + asExpiry s')" for t
      using that by (simp add: ValidateToken_def ParseWithClaims_def c_def)
    then show ?thesis using True r by (auto simp: c_def)
  next
    case False
    then show ?thesis using login cmp s' by (auto simp: Login_def)
  qed
qed

text \<open>A token is accepted only if it was signed with the service's own secret and has not expired.\<close>

lemma ValidateToken_sound:
  assumes "jwt_ok j" and "ValidateToken j now s tok = Inr c"
  shows "(\<exists>c'. SignedString j (asSecret s) c' = Some tok \<and> clUserID c' = clUserID c) \<and> now < clExpiresAt c"
proof -
  obtain alg where "verify j (HMAC alg) (asSecret s) now tok = Some c"
    using assms(2) by (auto simp: ValidateToken_def ParseWithClaims_def split: option.splits sign_method.splits)
  then show ?thesis using assms(1) unfolding jwt_ok_def by blast
qed

end
