(* ===== verification/Go_Strings.thy ===== *)
theory Go_Strings
  imports Float64
begin

text \<open>
  The functions of Go's \<open>strings\<close> and \<open>strconv\<close> packages that the server uses, on strings of
  bytes.
\<close>

section \<open>Strings\<close>

text \<open>\<open>strings.SplitN(s, sep, 2)\<close> for a one-byte separator.\<close>

fun cut_at :: "char \<Rightarrow> string \<Rightarrow> string \<times> string option" where
  "cut_at c [] = ([], None)"
| "cut_at c (x # xs) =
     (if x = c then ([], Some xs) else let (a, b) = cut_at c xs in (x # a, b))"

definition to_lower :: "char \<Rightarrow> char" where
  "to_lower c = (if 65 \<le> (of_char c :: nat) \<and> (of_char c :: nat) \<le> 90
                 then char_of ((of_char c :: nat) + 32) else c)"

text \<open>\<open>strings.EqualFold\<close> on the ASCII letters, which is what a comparison with \<open>bearer\<close> needs.\<close>

definition EqualFold :: "string \<Rightarrow> string \<Rightarrow> bool" where
  "EqualFold s t \<longleftrightarrow> map to_lower s = map to_lower t"

definition is_space :: "char \<Rightarrow> bool" where
  "is_space c \<longleftrightarrow> (of_char c :: nat) \<in> {9, 10, 11, 12, 13, 32}"

definition TrimSpace :: "string \<Rightarrow> string" where
  "TrimSpace s = rev (dropWhile is_space (rev (dropWhile is_space s)))"

text \<open>\<open>strings.ToLower\<close> and \<open>strings.Split\<close>, for ASCII text and a one-byte separator.\<close>

definition ToLower :: "string \<Rightarrow> string" where
  "ToLower s = map to_lower s"

fun Split :: "char \<Rightarrow> string \<Rightarrow> string list" where
  "Split c [] = [[]]"
| "Split c (x # xs) =
     (if x = c then [] # Split c xs else (case Split c xs of [] \<Rightarrow> [[x]] | y # ys \<Rightarrow> (x # y) # ys))"

section \<open>Numbers\<close>

fun digits_value :: "string \<Rightarrow> int \<Rightarrow> int option" where
  "digits_value [] acc = Some acc"
| "digits_value (c # cs) acc =
     (let d = (of_char c :: int) - 48
      in if 0 \<le> d \<and> d \<le> 9 then digits_value cs (10 * acc + d) else None)"

text \<open>\<open>strconv.Atoi\<close>: an optional sign, at least one decimal digit, a value of 64 bits.\<close>

definition Atoi :: "string \<Rightarrow> int64 option" where
  "Atoi s =
     (let (neg, ds) = (case s of
                         c # cs \<Rightarrow> if c = CHR ''-'' then (True, cs) else if c = CHR ''+'' then (False, cs) else (False, s)
                       | [] \<Rightarrow> (False, []))
      in if ds = [] then None
         else case digits_value ds 0 of
                None \<Rightarrow> None
              | Some v \<Rightarrow> let v = (if neg then - v else v) in if in64 v then Some v else None)"

definition ParseBool :: "string \<Rightarrow> bool option" where
  "ParseBool s =
     (if s \<in> {''1'', ''t'', ''T'', ''TRUE'', ''true'', ''True''} then Some True
      else if s \<in> {''0'', ''f'', ''F'', ''FALSE'', ''false'', ''False''} then Some False else None)"

text \<open>
  \<open>strconv.ParseFloat(s, 64)\<close> for decimal numbers with an optional fraction and exponent: the
  nearest double, or an error when it is out of range. Infinities, NaN and hexadecimal numbers,
  which a rational number cannot stand for, are not accepted here.
\<close>

definition decimal_value :: "string \<Rightarrow> rat option" where
  "decimal_value s =
     (let (mant, expo) = (let (m, e) = cut_at CHR ''e'' (map (\<lambda>c. if c = CHR ''E'' then CHR ''e'' else c) s) in (m, e));
          (ip, fp) = cut_at CHR ''.'' mant;
          fp = (case fp of None \<Rightarrow> [] | Some f \<Rightarrow> f)
      in if ip @ fp = [] then None
         else case (digits_value (ip @ fp) 0, case expo of None \<Rightarrow> Some 0 | Some e \<Rightarrow> Atoi e) of
                (Some v, Some e) \<Rightarrow> Some (of_int v * 10 powi (e - int (length fp)))
              | _ \<Rightarrow> None)"

definition ParseFloat :: "string \<Rightarrow> float64 option" where
  "ParseFloat s =
     (let (neg, ds) = (case s of
                         c # cs \<Rightarrow> if c = CHR ''-'' then (True, cs) else if c = CHR ''+'' then (False, cs) else (False, s)
                       | [] \<Rightarrow> (False, []))
      in case decimal_value ds of
           None \<Rightarrow> None
         | Some v \<Rightarrow> let x = round53 (if neg then - v else v)
                     in if \<bar>x\<bar> < 2 ^ 1024 then Some x else None)"

lemma Atoi_in64: "Atoi s = Some n \<Longrightarrow> in64 n"
  by (auto simp: Atoi_def Let_def split: list.splits option.splits if_splits)

lemma Split_nonempty: "Split c s \<noteq> []"
  by (cases s) (simp_all split: list.split)

text \<open>No piece of a split contains the separator.\<close>

lemma Split_pieces: "p \<in> set (Split c s) \<Longrightarrow> c \<notin> set p"
proof (induction s arbitrary: p)
  case (Cons x xs)
  obtain y ys where y: "Split c xs = y # ys" using Split_nonempty by (meson list.exhaust)
  show ?case using Cons by (auto simp: y split: if_splits)
qed simp

lemma TrimSpace_set: "set (TrimSpace s) \<subseteq> set s"
proof -
  have drop: "set (dropWhile is_space xs) \<subseteq> set xs" for xs by (blast dest: set_dropWhileD)
  have "set (TrimSpace s) \<subseteq> set (dropWhile is_space s)" using drop [of "rev (dropWhile is_space s)"] by (simp add: TrimSpace_def)
  then show ?thesis using drop by (rule order_trans)
qed

end
