(* ===== verification/Middleware.thy ===== *)
theory Middleware
  imports Auth Go_Strings
begin

text \<open>
  HTTP requests, client addresses (src/pkg/netutil/ip.go) and the middleware of
  src/internal/transport/http/middleware: authentication, the status capture of the
  request logger, and the per-address rate limiter. The chain they form is in theory \<open>Http_Server\<close>.
\<close>

section \<open>Requests\<close>

text \<open>
  A request as the handlers see it: header and query lookups give the empty string for what is
  absent, \<open>hrParam\<close> are the URL parameters of the route, \<open>hrUser\<close> the context value that the
  authentication middleware stores.
\<close>

record http_request =
  hrMethod :: string
  hrPath :: string
  hrRemoteAddr :: string
  hrHeader :: "string \<Rightarrow> string"
  hrQuery :: "string \<Rightarrow> string"
  hrParam :: "string \<Rightarrow> string"
  hrUser :: "string option"

definition UserIDFromContext :: "http_request \<Rightarrow> string \<times> bool" where
  "UserIDFromContext r =
     (case hrUser r of None \<Rightarrow> ([], False) | Some i \<Rightarrow> (i, i \<noteq> []))"

section \<open>Authentication\<close>

definition extractBearerToken :: "http_request \<Rightarrow> string" where
  "extractBearerToken r =
     (let h = hrHeader r ''Authorization''
      in if h = [] then []
         else case cut_at CHR '' '' h of
                (p, Some rest) \<Rightarrow> if EqualFold p ''bearer'' then rest else []
              | (p, None) \<Rightarrow> [])"

text \<open>A handler answers a request on a world \<open>'w\<close>, or panics.\<close>

type_synonym 'w handler = "http_request \<Rightarrow> 'w \<Rightarrow> (http_response \<times> 'w) outcome"

definition Auth :: "jwt \<Rightarrow> time \<Rightarrow> AuthService \<Rightarrow> bool \<Rightarrow> 'w handler \<Rightarrow> 'w handler" where
  "Auth j now svc required nxt r w =
     (let token = extractBearerToken r;
          token = (if token = [] then hrQuery r ''token'' else token)
      in if token = [] then
           (if required
            then Return (Error 401 ''MISSING_TOKEN'' ''authorization token required'', w)
            else nxt r w)
         else case ValidateToken j now svc token of
                Inl e \<Rightarrow>
                  (if required
                   then Return (Error 401 ''INVALID_TOKEN'' ''authorization token is invalid or expired'', w)
                   else nxt r w)
              | Inr claims \<Rightarrow> nxt (r\<lparr>hrUser := Some (clUserID claims)\<rparr>) w)"

text \<open>
  The handler behind the middleware sees a user only if the request carries a token signed with
  the service's secret for that user; with \<open>required\<close> it is not called without one.
\<close>

lemma Auth_sound:
  assumes "jwt_ok j" and "hrUser r = None"
  shows "Auth j now svc required nxt r w = nxt r w \<and> \<not> required \<or>
    (\<exists>code msg. Auth j now svc required nxt r w = Return (Error 401 code msg, w)) \<or>
    (\<exists>tok uid c. Auth j now svc required nxt r w = nxt (r\<lparr>hrUser := Some uid\<rparr>) w \<and>
       (tok = extractBearerToken r \<or> tok = hrQuery r ''token'') \<and>
       SignedString j (asSecret svc) c = Some tok \<and> clUserID c = uid)"
proof -
  define tok where "tok = (if extractBearerToken r = [] then hrQuery r ''token'' else extractBearerToken r)"
  show ?thesis
  proof (cases "tok \<noteq> [] \<and> (\<exists>c. ValidateToken j now svc tok = Inr c)")
    case True
    then obtain c where c: "tok \<noteq> []" "ValidateToken j now svc tok = Inr c" by blast
    then have "Auth j now svc required nxt r w = nxt (r\<lparr>hrUser := Some (clUserID c)\<rparr>) w"
      by (simp add: Auth_def Let_def tok_def [symmetric])
    moreover have "tok = extractBearerToken r \<or> tok = hrQuery r ''token''" by (simp add: tok_def)
    ultimately show ?thesis using ValidateToken_sound [OF assms(1) c(2)] by blast
  next
    case False
    then show ?thesis
      by (cases required) (auto simp: Auth_def Let_def tok_def [symmetric] split: sum.split)
  qed
qed

section \<open>The logger\<close>

text \<open>The wrapper of the logger; \<open>rwSent\<close> are the status codes passed to the wrapped writer.\<close>

record responseWriter =
  rwStatus :: int64
  rwWrote :: bool
  rwSent :: "int64 list"
  rwBytes :: string

definition new_responseWriter :: responseWriter where
  "new_responseWriter = \<lparr>rwStatus = 200, rwWrote = False, rwSent = [], rwBytes = []\<rparr>"

definition WriteHeader :: "responseWriter \<Rightarrow> int64 \<Rightarrow> responseWriter" where
  "WriteHeader rw code =
     (if \<not> rwWrote rw then rw\<lparr>rwStatus := code, rwWrote := True, rwSent := rwSent rw @ [code]\<rparr> else rw)"

definition Write :: "responseWriter \<Rightarrow> string \<Rightarrow> responseWriter" where
  "Write rw b =
     (let rw = (if \<not> rwWrote rw then WriteHeader rw 200 else rw) in rw\<lparr>rwBytes := rwBytes rw @ b\<rparr>)"

datatype write_op = OpHeader int64 | OpWrite string

primrec write_step :: "responseWriter \<Rightarrow> write_op \<Rightarrow> responseWriter" where
  "write_step rw (OpHeader c) = WriteHeader rw c"
| "write_step rw (OpWrite b) = Write rw b"

definition first_status :: "write_op list \<Rightarrow> int64" where
  "first_status ops = (case ops of OpHeader c # _ \<Rightarrow> c | _ \<Rightarrow> 200)"

lemma write_steps_wrote:
  "rwWrote rw \<Longrightarrow> rwWrote (foldl write_step rw ops) \<and> rwStatus (foldl write_step rw ops) = rwStatus rw \<and>
     rwSent (foldl write_step rw ops) = rwSent rw"
proof (induction ops arbitrary: rw)
  case (Cons x ops)
  have "rwWrote (write_step rw x) \<and> rwStatus (write_step rw x) = rwStatus rw \<and> rwSent (write_step rw x) = rwSent rw"
    using Cons.prems by (cases x) (simp_all add: WriteHeader_def Write_def)
  with Cons.IH [of "write_step rw x"] show ?case by simp
qed simp

lemma logged_status:
  "rwStatus (foldl write_step new_responseWriter ops) = first_status ops \<and>
   rwSent (foldl write_step new_responseWriter ops) = (if ops = [] then [] else [first_status ops])"
proof (cases ops)
  case Nil
  then show ?thesis by (simp add: new_responseWriter_def first_status_def)
next
  case (Cons x xs)
  have "rwWrote (write_step new_responseWriter x) \<and> rwStatus (write_step new_responseWriter x) = first_status ops \<and>
      rwSent (write_step new_responseWriter x) = [first_status ops]"
    by (cases x) (simp_all add: WriteHeader_def Write_def Let_def new_responseWriter_def first_status_def Cons)
  then show ?thesis using write_steps_wrote [of "write_step new_responseWriter x" xs] by (simp add: Cons)
qed

section \<open>Client addresses\<close>

text \<open>
  The address parsers of the net package, over a type \<open>'n\<close> of networks and \<open>'a\<close> of addresses.
\<close>

record ('a, 'n) netlib =
  SplitHostPort :: "string \<Rightarrow> string option"
  ParseIP :: "string \<Rightarrow> 'a option"
  ParseCIDR :: "string \<Rightarrow> 'n option"
  Contains :: "'n \<Rightarrow> 'a \<Rightarrow> bool"

definition isTrusted :: "('a, 'n) netlib \<Rightarrow> string \<Rightarrow> 'n list \<Rightarrow> bool" where
  "isTrusted n ip cidrs =
     (case ParseIP n ip of None \<Rightarrow> False | Some a \<Rightarrow> list_ex (\<lambda>c. Contains n c a) cidrs)"

definition ParseCIDRs :: "('a, 'n) netlib \<Rightarrow> string list \<Rightarrow> 'n list" where
  "ParseCIDRs n cidrs = List.map_filter (\<lambda>c. ParseCIDR n (TrimSpace c)) cidrs"

definition remote_ip :: "('a, 'n) netlib \<Rightarrow> http_request \<Rightarrow> string" where
  "remote_ip n r = (case SplitHostPort n (hrRemoteAddr r) of None \<Rightarrow> hrRemoteAddr r | Some h \<Rightarrow> h)"

definition ExtractClientIP :: "('a, 'n) netlib \<Rightarrow> http_request \<Rightarrow> 'n list \<Rightarrow> string" where
  "ExtractClientIP n r trusted =
     (let remoteIP = remote_ip n r
      in if 0 < length trusted \<and> isTrusted n remoteIP trusted then
           (let fwd = hrHeader r ''X-Forwarded-For''
            in if fwd \<noteq> [] then
                 (let first = TrimSpace (fst (cut_at CHR '','' fwd)) in if first \<noteq> [] then first else remoteIP)
               else remoteIP)
         else remoteIP)"

lemma remote_ip_header [simp]: "remote_ip n (r\<lparr>hrHeader := any\<rparr>) = remote_ip n r"
  by (simp add: remote_ip_def split: option.split)

text \<open>An untrusted peer cannot choose the address it is accounted under, whatever headers it sends.\<close>

lemma ExtractClientIP_untrusted:
  "\<not> isTrusted n (remote_ip n r) trusted \<Longrightarrow>
   ExtractClientIP n (r\<lparr>hrHeader := any\<rparr>) trusted = remote_ip n r"
  by (simp add: ExtractClientIP_def Let_def)

section \<open>Rate limiter\<close>

text \<open>
  The token bucket is a third-party package: a limiter is a value of type \<open>'l\<close>, with the
  functions \<open>NewLimiter\<close> and \<open>Allow\<close> (at an instant).
\<close>

record 'l ratelib =
  NewLimiter :: "float64 \<Rightarrow> int64 \<Rightarrow> 'l"
  Allow :: "'l \<Rightarrow> time \<Rightarrow> bool \<times> 'l"

record 'l clientEntry =
  ceLimiter :: 'l
  ceLastSeen :: time

record 'l RateLimiter =
  rlClients :: "string \<rightharpoonup> 'l clientEntry"
  rlRps :: float64
  rlBurst :: int64
  rlDone :: bool

definition minute :: duration where "minute = 60 * 10 ^ 9"

definition cleanupInterval :: duration where "cleanupInterval = 5 * minute"

definition idleTTL :: duration where "idleTTL = 10 * minute"

definition NewRateLimiter :: "float64 \<Rightarrow> int64 \<Rightarrow> 'l RateLimiter" where
  "NewRateLimiter rps burst = \<lparr>rlClients = Map.empty, rlRps = rps, rlBurst = burst, rlDone = False\<rparr>"

definition RateLimiter_Stop :: "'l RateLimiter \<Rightarrow> 'l RateLimiter" where
  "RateLimiter_Stop rl = (if rlDone rl then rl else rl\<lparr>rlDone := True\<rparr>)"

definition getLimiter :: "'l ratelib \<Rightarrow> time \<Rightarrow> 'l RateLimiter \<Rightarrow> string \<Rightarrow> 'l \<times> 'l RateLimiter" where
  "getLimiter lib now rl ip =
     (let entry = (case rlClients rl ip of
                     None \<Rightarrow> \<lparr>ceLimiter = NewLimiter lib (rlRps rl) (rlBurst rl), ceLastSeen = 0\<rparr>
                   | Some e \<Rightarrow> e);
          entry = entry\<lparr>ceLastSeen := now\<rparr>
      in (ceLimiter entry, rl\<lparr>rlClients := (rlClients rl)(ip \<mapsto> entry)\<rparr>))"

text \<open>
  The decision of the middleware: the entry is a pointer, so what \<open>Allow\<close> does to the limiter
  stays in the map.
\<close>

definition admit :: "'l ratelib \<Rightarrow> time \<Rightarrow> time \<Rightarrow> 'l RateLimiter \<Rightarrow> string \<Rightarrow> bool \<times> 'l RateLimiter" where
  "admit lib now now' rl ip =
     (let (limiter, rl) = getLimiter lib now rl ip;
          (ok, limiter) = Allow lib limiter now'
      in (ok, rl\<lparr>rlClients := (rlClients rl)(ip \<mapsto> \<lparr>ceLimiter = limiter, ceLastSeen = now\<rparr>)\<rparr>))"

text \<open>One sweep of the cleanup goroutine at the instant \<open>now\<close>.\<close>

definition cleanup_sweep :: "time \<Rightarrow> 'l RateLimiter \<Rightarrow> 'l RateLimiter" where
  "cleanup_sweep now rl =
     rl\<lparr>rlClients := (\<lambda>ip. case rlClients rl ip of
          None \<Rightarrow> None
        | Some e \<Rightarrow> if now - ceLastSeen e > idleTTL then None else Some e)\<rparr>"

datatype limit_op = Request time time string | Sweep time

text \<open>The decisions along a sequence of requests and sweeps.\<close>

primrec decisions :: "'l ratelib \<Rightarrow> 'l RateLimiter \<Rightarrow> limit_op list \<Rightarrow> (string \<times> bool) list" where
  "decisions lib rl [] = []"
| "decisions lib rl (x # xs) =
     (case x of
        Request now now' ip \<Rightarrow>
          let (ok, rl) = admit lib now now' rl ip in (ip, ok) # decisions lib rl xs
      | Sweep now \<Rightarrow> decisions lib (cleanup_sweep now rl) xs)"

definition concerns :: "string \<Rightarrow> limit_op \<Rightarrow> bool" where
  "concerns ip x = (case x of Request _ _ ip' \<Rightarrow> ip' = ip | Sweep _ \<Rightarrow> True)"

lemma concerns_simps [simp]: "concerns ip (Sweep t)" "concerns ip (Request t t' i) \<longleftrightarrow> i = ip"
  by (simp_all add: concerns_def)

text \<open>
  Isolation: what one address is granted depends on its own requests only, so no client can use
  up the budget of another.
\<close>

lemma decisions_isolated_aux:
  assumes "rlClients rl ip = rlClients rl' ip" and "rlRps rl = rlRps rl'" and "rlBurst rl = rlBurst rl'"
  shows "filter (\<lambda>d. fst d = ip) (decisions lib rl xs) =
    filter (\<lambda>d. fst d = ip) (decisions lib rl' (filter (concerns ip) xs))"
  using assms
proof (induction xs arbitrary: rl rl')
  case (Cons x xs)
  show ?case
  proof (cases x)
    case (Sweep now)
    have "filter (\<lambda>d. fst d = ip) (decisions lib (cleanup_sweep now rl) xs) =
        filter (\<lambda>d. fst d = ip) (decisions lib (cleanup_sweep now rl') (filter (concerns ip) xs))"
      by (rule Cons.IH) (use Cons.prems in \<open>auto simp: cleanup_sweep_def split: option.splits\<close>)
    then show ?thesis by (simp add: Sweep)
  next
    case (Request now now' i)
    obtain ok rl1 where a: "admit lib now now' rl i = (ok, rl1)" by fastforce
    show ?thesis
    proof (cases "i = ip")
      case True
      obtain ok' rl1' where a': "admit lib now now' rl' i = (ok', rl1')" by fastforce
      have same: "ok' = ok \<and> rlClients rl1 ip = rlClients rl1' ip \<and> rlRps rl1 = rlRps rl1' \<and> rlBurst rl1 = rlBurst rl1'"
        using a a' True Cons.prems
        by (auto simp: admit_def getLimiter_def Let_def split: prod.splits option.splits)
      then show ?thesis using Cons.IH [of rl1 rl1'] by (simp add: Request True a [unfolded True] a' [unfolded True])
    next
      case False
      have "rlClients rl1 ip = rlClients rl' ip \<and> rlRps rl1 = rlRps rl' \<and> rlBurst rl1 = rlBurst rl'"
        using a False Cons.prems
        by (auto simp: admit_def getLimiter_def Let_def split: prod.splits option.splits)
      then show ?thesis using Cons.IH [of rl1 rl'] False by (simp add: Request a)
    qed
  qed
qed simp

text \<open>A sweep never forgets an address seen within the idle time.\<close>

lemma cleanup_sweep_keeps:
  "rlClients rl ip = Some e \<Longrightarrow> now - ceLastSeen e \<le> idleTTL \<Longrightarrow> rlClients (cleanup_sweep now rl) ip = Some e"
  by (simp add: cleanup_sweep_def)

end
