(* ===== verification/Handlers.thy ===== *)
theory Handlers
  imports Services Middleware
begin

text \<open>
  The HTTP handlers (src/internal/transport/http/handler) and the route table of
  src/internal/transport/http/router.go. A request body is given as the JSON decoder leaves it:
  \<open>None\<close> when decoding fails, otherwise the decoded struct.
\<close>

section \<open>Query parameters\<close>

definition intParam :: "string \<Rightarrow> int64 \<Rightarrow> int64" where
  "intParam s def = (if s = [] then def else case Atoi s of None \<Rightarrow> def | Some v \<Rightarrow> v)"

definition userIDFromContext :: "http_request \<Rightarrow> string" where
  "userIDFromContext r = (let (i, ok) = UserIDFromContext r in if ok then i else ''anonymous'')"

definition repo_error_text :: "repo_error \<Rightarrow> string" where
  "repo_error_text e =
     (case e of ErrNotFound \<Rightarrow> ''entity not found'' | ErrDuplicate \<Rightarrow> ''entity already exists''
      | ErrOther m \<Rightarrow> m)"

section \<open>Orders\<close>

record createOrderBody =
  bdStockCode :: string
  bdSide :: string
  bdPrice :: int64
  bdQuantity :: int64

definition OrderHandler_Create :: "'w order_deps \<Rightarrow> createOrderBody option \<Rightarrow> 'w handler" where
  "OrderHandler_Create d decoded r w =
     (case decoded of
        None \<Rightarrow> Return (Error 400 ''BAD_REQUEST'' ''invalid JSON body'', w)
      | Some body \<Rightarrow>
          let (req, fieldErrs) = ValidateCreateOrder (bdStockCode body) (bdSide body) (bdPrice body) (bdQuantity body)
          in if length fieldErrs > 0 then Return (ValidationError fieldErrs, w)
             else case CreateOrder d w (userIDFromContext r) req of
                    Panic \<Rightarrow> Panic
                  | Return (Inl err, w) \<Rightarrow> Return (Error 500 ''INTERNAL_ERROR'' (repo_error_text err), w)
                  | Return (Inr ord, w) \<Rightarrow> Return (JSON 201 (DOrder ord), w))"

definition OrderHandler_List :: "'w order_deps \<Rightarrow> 'w handler" where
  "OrderHandler_List d r w =
     (let page = ParsePage (intParam (hrQuery r ''page'') 1);
          perPage = ParsePerPage (intParam (hrQuery r ''per_page'') DefaultPerPage);
          userID = hrQuery r ''user_id'';
          userID = (if userID = []
                    then (let ctxUser = userIDFromContext r in if ctxUser \<noteq> ''anonymous'' then ctxUser else userID)
                    else userID);
          filt = \<lparr>ofStockCode = hrQuery r ''stock_code'', ofStatus = hrQuery r ''status'', ofUserID = userID,
                  ofPage = page, ofPerPage = perPage\<rparr>
      in case GetOrders d w filt of
           Panic \<Rightarrow> Panic
         | Return (Inl err) \<Rightarrow> Return (Error 500 ''INTERNAL_ERROR'' (repo_error_text err), w)
         | Return (Inr (orders, tot)) \<Rightarrow> Return (Paginated 200 (DOrders orders) (NewMeta tot page perPage), w))"

definition OrderHandler_GetByID :: "'w order_deps \<Rightarrow> 'w handler" where
  "OrderHandler_GetByID d r w =
     (let i = hrParam r ''id''
      in if i = [] then Return (Error 400 ''BAD_REQUEST'' ''missing order id'', w)
         else case GetOrderByID d w i of
                Inl err \<Rightarrow>
                  if err = ErrNotFound then Return (Error 404 ''NOT_FOUND'' ''order not found'', w)
                  else Return (Error 500 ''INTERNAL_ERROR'' (repo_error_text err), w)
              | Inr ord \<Rightarrow> Return (JSON 200 (DOrder ord), w))"

section \<open>Trades and market data\<close>

definition TradeHandler_List :: "TradeRepo handler" where
  "TradeHandler_List r w =
     (let page = ParsePage (intParam (hrQuery r ''page'') 1);
          perPage = ParsePerPage (intParam (hrQuery r ''per_page'') DefaultPerPage);
          filt = \<lparr>tfStockCode = hrQuery r ''stock_code'', tfUserID = hrQuery r ''user_id'',
                  tfPage = page, tfPerPage = perPage\<rparr>
      in case GetTradeHistory w filt of
           Panic \<Rightarrow> Panic
         | Return (trades, tot) \<Rightarrow> Return (Paginated 200 (DTrades trades) (NewMeta tot page perPage), w))"

definition MarketHandler_AllTickers :: "string list \<Rightarrow> MarketService handler" where
  "MarketHandler_AllTickers codes r w = Return (JSON 200 (DTickers (GetAllTickers w codes)), w)"

definition stock_or_error :: "('a \<Rightarrow> data) \<Rightarrow> repo_error + 'a \<Rightarrow> http_response" where
  "stock_or_error f res =
     (case res of
        Inl err \<Rightarrow>
          if err = ErrNotFound then Error 404 ''NOT_FOUND'' ''stock not found''
          else Error 500 ''INTERNAL_ERROR'' (repo_error_text err)
      | Inr x \<Rightarrow> JSON 200 (f x))"

definition MarketHandler_Ticker :: "MarketService handler" where
  "MarketHandler_Ticker r w = Return (stock_or_error DTicker (GetTicker w (hrParam r ''stock'')), w)"

definition MarketHandler_OrderBook :: "MarketService handler" where
  "MarketHandler_OrderBook r w = Return (stock_or_error DBook (GetOrderBook w (hrParam r ''stock'')), w)"

definition MarketHandler_RecentTrades :: "MarketService handler" where
  "MarketHandler_RecentTrades r w =
     (let stock = hrParam r ''stock'';
          limit = intParam (hrQuery r ''limit'') 20;
          limit = (if limit > 100 then 100 else limit)
      in Return (JSON 200 (DTrades (GetRecentTrades w stock limit)), w))"

section \<open>Accounts\<close>

record credentials =
  crUsername :: string
  crPassword :: string

text \<open>
  \<open>Register\<close> logs the new user in at once. The arguments are the libraries, the identifier and
  the clock readings of the call, and the answers of the user repository.
\<close>

definition AuthHandler_Register ::
  "bcrypt \<Rightarrow> jwt \<Rightarrow> string \<Rightarrow> time \<times> time \<times> time \<Rightarrow> (User \<Rightarrow> repo_error option) \<Rightarrow> string + credentials
     \<Rightarrow> AuthService handler" where
  "AuthHandler_Register b j uid ts saved decoded r s =
     (case decoded of
        Inl err \<Rightarrow> Return (Error 400 ''INVALID_BODY'' err, s)
      | Inr req \<Rightarrow>
          if crUsername req = [] \<or> crPassword req = []
          then Return (Error 400 ''VALIDATION_ERROR'' ''username and password are required'', s)
          else case Register b uid (fst ts) saved s (crUsername req) (crPassword req) of
                 (Inl err, s) \<Rightarrow>
                   if err = ErrUserExists then Return (Error 409 ''USER_EXISTS'' ''username already taken'', s)
                   else Return (Error 500 ''INTERNAL_ERROR'' ''registration failed'', s)
               | (Inr u, s) \<Rightarrow>
                   (case Login b j (fst (snd ts)) (snd (snd ts)) s (crUsername req) (crPassword req) of
                      Inl err \<Rightarrow> Return (Error 500 ''INTERNAL_ERROR'' ''auto-login after register failed'', s)
                    | Inr (token, expiresAt) \<Rightarrow> Return (JSON 201 (DAuth (Some u) token expiresAt), s)))"

definition AuthHandler_Login ::
  "bcrypt \<Rightarrow> jwt \<Rightarrow> time \<times> time \<Rightarrow> string + credentials \<Rightarrow> AuthService handler" where
  "AuthHandler_Login b j ts decoded r s =
     (case decoded of
        Inl err \<Rightarrow> Return (Error 400 ''INVALID_BODY'' err, s)
      | Inr req \<Rightarrow>
          (case Login b j (fst ts) (snd ts) s (crUsername req) (crPassword req) of
             Inl err \<Rightarrow>
               if err = ErrInvalidCredentials
               then Return (Error 401 ''INVALID_CREDENTIALS'' ''username or password is incorrect'', s)
               else Return (Error 500 ''INTERNAL_ERROR'' ''login failed'', s)
           | Inr (token, expiresAt) \<Rightarrow> Return (JSON 200 (DAuth None token expiresAt), s)))"

section \<open>Routes\<close>

datatype route_auth = NoAuth | OptionalAuth

record route =
  rtMethod :: string
  rtPattern :: string
  rtAuth :: route_auth

text \<open>
  The routes \<open>NewRouter\<close> registers, given whether there is an authentication service and a
  WebSocket handler. An empty method stands for any method.
\<close>

definition routes :: "bool \<Rightarrow> bool \<Rightarrow> route list" where
  "routes authSvc wsHandler =
     (let opt = (if authSvc then OptionalAuth else NoAuth);
          mk = (\<lambda>m p a. \<lparr>rtMethod = m, rtPattern = p, rtAuth = a\<rparr>)
      in [mk ''GET'' ''/healthz'' NoAuth, mk [] ''/metrics'' NoAuth]
         @ (if wsHandler then [mk [] ''/ws'' opt] else [])
         @ (if authSvc then [mk ''POST'' ''/api/v1/auth/register'' NoAuth, mk ''POST'' ''/api/v1/auth/login'' NoAuth]
            else [])
         @ [mk ''POST'' ''/api/v1/orders'' opt, mk ''GET'' ''/api/v1/orders'' opt, mk ''GET'' ''/api/v1/orders/{id}'' opt,
            mk ''GET'' ''/api/v1/trades'' NoAuth,
            mk ''GET'' ''/api/v1/market/ticker'' NoAuth, mk ''GET'' ''/api/v1/market/ticker/{stock}'' NoAuth,
            mk ''GET'' ''/api/v1/market/orderbook/{stock}'' NoAuth, mk ''GET'' ''/api/v1/market/trades/{stock}'' NoAuth])"

section \<open>Results\<close>

text \<open>A rejected request changes nothing and names the wrong fields.\<close>

lemma Create_rejects:
  assumes "\<not> request_ok \<lparr>rqStockCode = bdStockCode b, rqSide = bdSide b, rqPrice = bdPrice b, rqQuantity = bdQuantity b\<rparr>"
  shows "\<exists>errs. errs \<noteq> [] \<and> OrderHandler_Create d (Some b) r w = Return (ValidationError errs, w)"
proof -
  obtain req errs where v: "ValidateCreateOrder (bdStockCode b) (bdSide b) (bdPrice b) (bdQuantity b) = (req, errs)"
    by fastforce
  have "errs \<noteq> []"
    using ValidateCreateOrder_accepts [of "bdStockCode b" "bdSide b" "bdPrice b" "bdQuantity b"] v assms by auto
  then show ?thesis by (intro exI [of _ errs]) (simp add: OrderHandler_Create_def v)
qed

text \<open>An accepted one answers 201 with the order that is then found in the repository.\<close>

lemma Create_accepts:
  assumes inv: "service_inv uuid w"
    and ok: "request_ok \<lparr>rqStockCode = bdStockCode b, rqSide = bdSide b, rqPrice = bdPrice b, rqQuantity = bdQuantity b\<rparr>"
    and ret: "OrderHandler_Create (service_deps uuid clock) (Some b) r w = Return (resp, w')"
  shows "\<exists>ord. resp = JSON 201 (DOrder ord) \<and> oStatus ord = OrderStatusOpen \<and> oFilledQuantity ord = 0 \<and>
    oUserID ord = userIDFromContext r \<and> oStockCode ord = bdStockCode b \<and> oSide ord = bdSide b \<and>
    oPrice ord = bdPrice b \<and> oQuantity ord = bdQuantity b \<and>
    OrderRepo_FindByID (wOrders (engWorld (swEngine w'))) (oID ord) = Inr ord"
proof -
  let ?req = "\<lparr>rqStockCode = bdStockCode b, rqSide = bdSide b, rqPrice = bdPrice b, rqQuantity = bdQuantity b\<rparr>"
  have "snd (ValidateCreateOrder (bdStockCode b) (bdSide b) (bdPrice b) (bdQuantity b)) = []"
    using ok by (simp add: ValidateCreateOrder_accepts)
  then obtain req where v: "ValidateCreateOrder (bdStockCode b) (bdSide b) (bdPrice b) (bdQuantity b) = (req, [])"
    by (metis prod.collapse)
  then have req: "req = ?req" using ValidateCreateOrder_request by blast
  obtain x w1 where c: "CreateOrder (service_deps uuid clock) w (userIDFromContext r) ?req = Return (x, w1)"
    using ret by (auto simp: OrderHandler_Create_def v req split: outcome.splits)
  note res = CreateOrder_result [OF inv c]
  then have "resp = JSON 201 (DOrder (created uuid clock w (userIDFromContext r) ?req))" "w' = w1"
    using ret by (auto simp: OrderHandler_Create_def v req c)
  then show ?thesis using res by (auto simp: created_def new_order_def)
qed

text \<open>
  \<open>limit\<close> is only bounded from above: a limit that is not positive returns the whole history.
\<close>

lemma RecentTrades_unbounded:
  assumes "Atoi (hrQuery r ''limit'') = Some l" and "l \<le> 0"
  shows "MarketHandler_RecentTrades r s =
    Return (JSON 200 (DTrades (rev (trByStock (msTrades s) (hrParam r ''stock'')))), s)"
proof -
  have "hrQuery r ''limit'' \<noteq> []" using assms(1) by (auto simp: Atoi_def)
  then have "intParam (hrQuery r ''limit'') 20 = l" using assms(1) by (simp add: intParam_def)
  then show ?thesis
    using assms(2)
    by (simp add: MarketHandler_RecentTrades_def Let_def GetRecentTrades_def TradeRepo_FindByStockCode_newest)
qed

text \<open>The page of orders a list request returns, when its bounds fit in 64 bits.\<close>

lemma OrderList_page:
  assumes "in64 (ParsePage (intParam (hrQuery r ''page'') 1) * ParsePerPage (intParam (hrQuery r ''per_page'') 20))"
    and "hrQuery r ''user_id'' \<noteq> []"
    and "page = ParsePage (intParam (hrQuery r ''page'') 1)"
    and "perPage = ParsePerPage (intParam (hrQuery r ''per_page'') 20)"
    and "matched = filter (\<lambda>x. (hrQuery r ''stock_code'' = [] \<or> oStockCode x = hrQuery r ''stock_code'') \<and>
       (hrQuery r ''status'' = [] \<or> oStatus x = hrQuery r ''status'') \<and> oUserID x = hrQuery r ''user_id'')
         (orders_of (wOrders (engWorld (swEngine w))))"
  shows "OrderHandler_List (service_deps uuid clock) r w =
    Return (Paginated 200 (DOrders (take (nat perPage) (drop (nat ((page - 1) * perPage)) matched)))
      (NewMeta (int (length matched)) page perPage), w)"
proof -
  let ?f = "\<lparr>ofStockCode = hrQuery r ''stock_code'', ofStatus = hrQuery r ''status'', ofUserID = hrQuery r ''user_id'',
      ofPage = page, ofPerPage = perPage\<rparr>"
  have m: "filter (order_matches ?f) (orders_of (wOrders (engWorld (swEngine w)))) = matched"
    unfolding assms(5) using assms(2) by (intro filter_cong) (auto simp: order_matches_def)
  have "page_of page perPage matched = Return (take (nat perPage) (drop (nat ((page - 1) * perPage)) matched))"
    using assms(1) unfolding assms(3,4) by (intro page_of_segment Parse_bounds)
  then have "OrderRepo_FindAll (wOrders (engWorld (swEngine w))) ?f =
      Return (take (nat perPage) (drop (nat ((page - 1) * perPage)) matched), int (length matched))"
    by (simp add: OrderRepo_FindAll_orders m Let_def)
  then show ?thesis
    using assms(2) by (simp add: OrderHandler_List_def GetOrders_def service_deps_def Let_def
        assms(3,4) [symmetric] DefaultPerPage_def)
qed

end
