(* ===== verification/Http_Server.thy ===== *)
theory Http_Server
  imports Handlers
begin

text \<open>
  The middleware chain that \<open>NewRouter\<close> (src/internal/transport/http/router.go) puts in front of
  every route: recovery, request log, CORS, metrics, rate limit. Chi's dispatch to the routes is
  third-party code: the routed handler is a parameter. A handler returns whether it panicked and
  the state it leaves, because what it has changed by then stays changed.
\<close>

section \<open>A request being served\<close>

text \<open>The first answer written wins; a response without any write counts as 200.\<close>

datatype answer = Answer int64 "envelope option"

record ('l, 'w) exchange =
  exHeaders :: "(string \<times> string) list"
  exAnswer :: "answer option"
  exLog :: "(string \<times> string \<times> int64) list"
  exRequests :: "string \<times> string \<times> int64 \<Rightarrow> nat"
  exLimiter :: "'l RateLimiter"
  exApp :: 'w

type_synonym ('l, 'w) routed = "http_request \<Rightarrow> ('l, 'w) exchange \<Rightarrow> bool \<times> ('l, 'w) exchange"

definition answer_with :: "answer \<Rightarrow> ('l, 'w) exchange \<Rightarrow> ('l, 'w) exchange" where
  "answer_with a s = (case exAnswer s of None \<Rightarrow> s\<lparr>exAnswer := Some a\<rparr> | Some _ \<Rightarrow> s)"

definition respond :: "http_response \<Rightarrow> ('l, 'w) exchange \<Rightarrow> ('l, 'w) exchange" where
  "respond resp s = answer_with (Answer (rsStatus resp) (Some (rsBody resp))) s"

definition status_of :: "('l, 'w) exchange \<Rightarrow> int64" where
  "status_of s = (case exAnswer s of None \<Rightarrow> 200 | Some (Answer st _) \<Rightarrow> st)"

section \<open>The middleware\<close>

definition Recovery :: "('l, 'w) routed \<Rightarrow> ('l, 'w) routed" where
  "Recovery nxt r s =
     (let (panicked, s) = nxt r s
      in (False, if panicked then respond (Error 500 ''INTERNAL_ERROR'' ''an unexpected error occurred'') s else s))"

definition Logger :: "('l, 'w) routed \<Rightarrow> ('l, 'w) routed" where
  "Logger nxt r s =
     (let (panicked, s) = nxt r s
      in if panicked then (True, s)
         else (False, s\<lparr>exLog := exLog s @ [(hrMethod r, hrPath r, status_of s)]\<rparr>))"

definition cors_headers :: "(string \<times> string) list" where
  "cors_headers =
     [(''Access-Control-Allow-Origin'', ''*''),
      (''Access-Control-Allow-Methods'', ''GET, POST, PUT, PATCH, DELETE, OPTIONS''),
      (''Access-Control-Allow-Headers'', ''Content-Type, Authorization, X-Request-ID''),
      (''Access-Control-Max-Age'', ''86400'')]"

definition CORS :: "('l, 'w) routed \<Rightarrow> ('l, 'w) routed" where
  "CORS nxt r s =
     (let s = s\<lparr>exHeaders := exHeaders s @ cors_headers\<rparr>
      in if hrMethod r = ''OPTIONS'' then (False, answer_with (Answer 204 None) s) else nxt r s)"

definition PrometheusMiddleware :: "('l, 'w) routed \<Rightarrow> ('l, 'w) routed" where
  "PrometheusMiddleware nxt r s =
     (let (panicked, s) = nxt r s
      in if panicked then (True, s)
         else let k = (hrMethod r, hrPath r, status_of s)
              in (False, s\<lparr>exRequests := (exRequests s)(k := exRequests s k + 1)\<rparr>))"

text \<open>The limiter's instants \<open>now\<close> and \<open>now'\<close> are those of the bookkeeping and of \<open>Allow\<close>.\<close>

definition RateLimiter_Middleware ::
  "('a, 'n) netlib \<Rightarrow> 'n list \<Rightarrow> 'l ratelib \<Rightarrow> time \<Rightarrow> time \<Rightarrow> ('l, 'w) routed \<Rightarrow> ('l, 'w) routed" where
  "RateLimiter_Middleware n trusted lib now now' nxt r s =
     (let ip = ExtractClientIP n r trusted;
          (ok, rl) = admit lib now now' (exLimiter s) ip;
          s = s\<lparr>exLimiter := rl\<rparr>
      in if \<not> ok
         then (False, respond (Error 429 ''RATE_LIMITED''
                 (''too many requests '' @ [CHR 0xE2, CHR 0x80, CHR 0x94] @ '' please slow down'')) s)
         else nxt r s)"

text \<open>The stack in the order of the \<open>Use\<close> calls; the rate limiter is optional.\<close>

definition NewRouter_chain ::
  "(('l, 'w) routed \<Rightarrow> ('l, 'w) routed) option \<Rightarrow> ('l, 'w) routed \<Rightarrow> ('l, 'w) routed" where
  "NewRouter_chain limit app =
     Recovery (Logger (CORS (PrometheusMiddleware (case limit of None \<Rightarrow> app | Some m \<Rightarrow> m app))))"

text \<open>
  A handler of theory \<open>Handlers\<close> as a route; \<open>left\<close> is the state in which it leaves the
  application when it panics.
\<close>

definition route_handler :: "('w \<Rightarrow> 'w) \<Rightarrow> 'w handler \<Rightarrow> ('l, 'w) routed" where
  "route_handler left h r s =
     (case h r (exApp s) of
        Panic \<Rightarrow> (True, s\<lparr>exApp := left (exApp s)\<rparr>)
      | Return (resp, w) \<Rightarrow> (False, respond resp (s\<lparr>exApp := w\<rparr>)))"

section \<open>What every request gets\<close>

definition fresh_exchange :: "('l, 'w) exchange \<Rightarrow> bool" where
  "fresh_exchange s \<longleftrightarrow> exHeaders s = [] \<and> exAnswer s = None"

section \<open>Properties\<close>

text \<open>
  C22: every request is answered and no panic escapes. A pre-flight request gets 204 before the rate
  limit and the handlers; a client over its limit gets 429 and the application is not called;
  otherwise the handler's response is sent, counted and logged with its status; a panic becomes 500,
  but is neither counted nor logged. All of them carry the CORS headers.
\<close>

theorem every_request_is_answered:
  assumes "fresh_exchange s"
    and "admit lib now now' (exLimiter s) (ExtractClientIP n r trusted) = (ok, rl)"
    and "NewRouter_chain (Some (RateLimiter_Middleware n trusted lib now now')) (route_handler left h) r s = (panicked, s')"
    and "k = (\<lambda>st. (hrMethod r, hrPath r, st))"
  shows "\<not> panicked \<and> exHeaders s' = cors_headers \<and>
    (if hrMethod r = ''OPTIONS''
     then exAnswer s' = Some (Answer 204 None) \<and> exApp s' = exApp s \<and> exLimiter s' = exLimiter s
     else if \<not> ok
     then (\<exists>b. exAnswer s' = Some (Answer 429 b)) \<and> exApp s' = exApp s \<and> exLog s' = exLog s @ [k 429] \<and> exLimiter s' = rl
     else case h r (exApp s) of
            Return (resp, w) \<Rightarrow>
              exAnswer s' = Some (Answer (rsStatus resp) (Some (rsBody resp))) \<and> exApp s' = w \<and>
              exLog s' = exLog s @ [k (rsStatus resp)] \<and>
              exRequests s' = (exRequests s)(k (rsStatus resp) := exRequests s (k (rsStatus resp)) + 1)
          | Panic \<Rightarrow>
              (\<exists>b. exAnswer s' = Some (Answer 500 b)) \<and> exApp s' = left (exApp s) \<and>
              exLog s' = exLog s \<and> exRequests s' = exRequests s)"
proof -
  note defs = NewRouter_chain_def Recovery_def Logger_def CORS_def PrometheusMiddleware_def RateLimiter_Middleware_def
    route_handler_def respond_def answer_with_def status_of_def Let_def
  note start = assms(1) [unfolded fresh_exchange_def]
  consider "hrMethod r = ''OPTIONS''" | "hrMethod r \<noteq> ''OPTIONS''" "\<not> ok"
    | "hrMethod r \<noteq> ''OPTIONS''" ok "h r (exApp s) = Panic"
    | resp w where "hrMethod r \<noteq> ''OPTIONS''" ok "h r (exApp s) = Return (resp, w)"
    by (cases "h r (exApp s)") auto
  then show ?thesis
  proof cases
    case 1
    then show ?thesis using assms(3) start by (auto simp: defs)
  next
    case 2
    then show ?thesis using assms(2,3,4) start by (auto simp: defs Error_def)
  next
    case 3
    then show ?thesis using assms(2,3) start by (auto simp: defs Error_def)
  next
    case 4
    then show ?thesis using assms(2,3,4) start by (auto simp: defs)
  qed
qed

definition sample_request :: http_request where
  "sample_request =
     \<lparr>hrMethod = ''GET'', hrPath = ''/api/v1/orders'', hrRemoteAddr = ''10.0.0.9:4711'', hrHeader = (\<lambda>_. []), hrQuery = (\<lambda>_. []),
      hrParam = (\<lambda>_. []), hrUser = None\<rparr>"

definition sample_netlib :: "(string, string) netlib" where
  "sample_netlib = \<lparr>SplitHostPort = (\<lambda>a. None), ParseIP = (\<lambda>s. Some s), ParseCIDR = (\<lambda>s. Some s), Contains = (\<lambda>n a. n = a)\<rparr>"

definition sample_ratelib :: "int ratelib" where
  "sample_ratelib = \<lparr>NewLimiter = (\<lambda>rps burst. burst), Allow = (\<lambda>l now. (0 < l, l - 1))\<rparr>"

definition sample_exchange :: "(int, nat) exchange" where
  "sample_exchange =
     \<lparr>exHeaders = [], exAnswer = None, exLog = [], exRequests = (\<lambda>_. 0), exLimiter = NewRateLimiter 100 200, exApp = 0\<rparr>"

theorem every_request_is_answered_witness:
  "\<not> fst (NewRouter_chain (Some (RateLimiter_Middleware sample_netlib [] sample_ratelib 0 0)) (route_handler id (\<lambda>_ _. Panic))
       sample_request sample_exchange) \<and>
   (\<exists>b. exAnswer (snd (NewRouter_chain (Some (RateLimiter_Middleware sample_netlib [] sample_ratelib 0 0)) (route_handler id (\<lambda>_ _. Panic))
       sample_request sample_exchange)) = Some (Answer 500 b))"
proof -
  let ?run = "NewRouter_chain (Some (RateLimiter_Middleware sample_netlib [] sample_ratelib 0 0)) (route_handler id (\<lambda>_ _. Panic))
       sample_request sample_exchange"
  have f: "fresh_exchange sample_exchange" by (simp add: fresh_exchange_def sample_exchange_def)
  obtain ok rl where a: "admit sample_ratelib 0 0 (exLimiter sample_exchange) (ExtractClientIP sample_netlib sample_request []) = (ok, rl)"
    by fastforce
  have ok using a by (auto simp: admit_def getLimiter_def sample_exchange_def NewRateLimiter_def sample_ratelib_def)
  from every_request_is_answered [OF f a, of id "\<lambda>_ _. Panic" "fst ?run" "snd ?run", OF _ refl] this show ?thesis
    by (simp add: sample_request_def [THEN arg_cong, of hrMethod])
qed

end
