(* ===== verification/Api_Properties.thy ===== *)
theory Api_Properties
  imports App_Run Http_Server
begin

text \<open>
  Properties of the API as clients see it: what creating an order does on the running exchange,
  accounts and tokens, and the budgets of the rate limiter
  (src/internal/transport/http/handler, src/internal/transport/http/middleware, src/internal/infra/auth).
\<close>

section \<open>Creating orders\<close>

text \<open>
  C6: the handler accepts exactly the valid orders. On any reachable state of the exchange, a
  request that breaks a rule gets 422 with the names of the wrong fields and changes nothing; a
  valid one gets 201 with an open, well-formed order that carries the request's values and the
  caller's name, is found in the repository, and leaves the exchange in a reachable state.
\<close>

theorem create_accepts_exactly_valid_orders:
  assumes "app_reachable uuid clock s" and "inj uuid"
    and "req = \<lparr>rqStockCode = bdStockCode b, rqSide = bdSide b, rqPrice = bdPrice b, rqQuantity = bdQuantity b\<rparr>"
    and "OrderHandler_Create (service_deps uuid clock) (Some b) r (apWorld s) = Return (resp, w')"
  shows "if request_ok req
    then \<exists>ord. resp = JSON 201 (DOrder ord) \<and> order_wf ord \<and> Side_IsValid (oSide ord) \<and> oStatus ord = OrderStatusOpen \<and>
      oFilledQuantity ord = 0 \<and> oUserID ord = userIDFromContext r \<and> oStockCode ord = bdStockCode b \<and> oSide ord = bdSide b \<and>
      oPrice ord = bdPrice b \<and> oQuantity ord = bdQuantity b \<and>
      OrderRepo_FindByID (wOrders (engWorld (swEngine w'))) (oID ord) = Inr ord \<and>
      app_reachable uuid clock (s\<lparr>apWorld := w'\<rparr>)
    else \<exists>errs. resp = ValidationError errs \<and> w' = apWorld s \<and> map feField errs =
      (if IsValidStockCode (bdStockCode b) then [] else [''stock_code'']) @ (if Side_IsValid (bdSide b) then [] else [''side'']) @
      (if 1 \<le> bdPrice b \<and> bdPrice b \<le> 999999999 then [] else [''price'']) @
      (if 1 \<le> bdQuantity b \<and> bdQuantity b \<le> 1000000 then [] else [''quantity''])"
proof -
  define v where "v = ValidateCreateOrder (bdStockCode b) (bdSide b) (bdPrice b) (bdQuantity b)"
  have acc: "snd v = [] \<longleftrightarrow> request_ok req" by (simp add: v_def ValidateCreateOrder_accepts assms(3))
  show ?thesis
  proof (cases "request_ok req")
    case False
    then have "resp = ValidationError (snd v) \<and> w' = apWorld s"
      using assms(4) acc by (auto simp: OrderHandler_Create_def v_def [symmetric] split_beta)
    moreover note ValidateCreateOrder_fields [of "bdStockCode b" "bdSide b" "bdPrice b" "bdQuantity b", folded v_def]
    ultimately show ?thesis unfolding if_not_P [OF False] by blast
  next
    case True
    have inv: "service_inv uuid (apWorld s)" by (rule app_service_inv [OF app_reachable_inv [OF assms(1,2)] assms(2)])
    obtain ord where ord: "resp = JSON 201 (DOrder ord)" "oStatus ord = OrderStatusOpen" "oFilledQuantity ord = 0"
      "oUserID ord = userIDFromContext r" "oStockCode ord = bdStockCode b" "oSide ord = bdSide b"
      "oPrice ord = bdPrice b" "oQuantity ord = bdQuantity b"
      "OrderRepo_FindByID (wOrders (engWorld (swEngine w'))) (oID ord) = Inr ord"
      using Create_accepts [OF inv True [unfolded assms(3)] assms(4)] by blast
    have v: "v = (req, [])"
      using True acc ValidateCreateOrder_request [of "bdStockCode b" "bdSide b" "bdPrice b" "bdQuantity b" "fst v"]
      by (metis assms(3) prod.collapse v_def)
    obtain x w1 where c: "CreateOrder (service_deps uuid clock) (apWorld s) (userIDFromContext r) req = Return (x, w1)"
      using assms(4) by (auto simp: OrderHandler_Create_def v_def [symmetric] v split: outcome.splits)
    have "w' = w1" using assms(4) by (auto simp: OrderHandler_Create_def v_def [symmetric] v c split: sum.splits)
    then have "app_reachable uuid clock (s\<lparr>apWorld := w'\<rparr>)"
      using CreateOrder_app_run [OF assms(1,2) True c] by simp
    moreover have "order_wf ord \<and> Side_IsValid (oSide ord)"
      using True ord(2-8) by (auto simp: request_ok_def order_wf_def in64_def assms(3))
    ultimately show ?thesis using True ord by auto
  qed
qed

definition sample_body :: createOrderBody where
  "sample_body = \<lparr>bdStockCode = ''BBCA'', bdSide = ''BUY'', bdPrice = 9500, bdQuantity = 10\<rparr>"

text \<open>On the sample exchange the handler returns for every valid order in BBCA.\<close>

lemma sample_create_returns:
  assumes "request_ok \<lparr>rqStockCode = ''BBCA'', rqSide = side, rqPrice = price, rqQuantity = qty\<rparr>"
  shows "\<exists>resp w'. OrderHandler_Create (service_deps unary int)
    (Some \<lparr>bdStockCode = ''BBCA'', bdSide = side, bdPrice = price, bdQuantity = qty\<rparr>) sample_request (apWorld app_sample) = Return (resp, w')"
proof -
  let ?w = "apWorld app_sample" and ?u = "userIDFromContext sample_request"
  define req where "req = \<lparr>rqStockCode = ''BBCA'', rqSide = side, rqPrice = price, rqQuantity = qty\<rparr>"
  define e where "e = prepared unary int ?w ?u req"
  have "snd (ValidateCreateOrder ''BBCA'' side price qty) = []" using assms by (simp add: ValidateCreateOrder_accepts)
  then have v: "ValidateCreateOrder ''BBCA'' side price qty = (req, [])"
    using ValidateCreateOrder_request [of "''BBCA''" side price qty] unfolding req_def by (metis prod.collapse)
  have "''BBCA'' \<in> sCode ` set DefaultStocks" by code_simp
  then have "engMatchers e ''BBCA'' = Some (newMatcher ''BBCA'')"
    by (simp add: e_def app_sample_def create_prepare_def Let_def prepared_def app_start_def NewEngine_matchers)
  moreover have "oStockCode (engHeap e (swNext ?w)) = ''BBCA''"
    by (simp add: e_def Let_def prepared_def created_def new_order_def req_def)
  ultimately obtain e' where sub: "SubmitOrder e (swNext ?w) = Return (Inr (), e')"
    by (simp add: SubmitOrder_def submit_def try_send_def newMatcher_def new_channel_def matcherChanCap_def)
  have "wBus (engWorld e) = new_channel"
    by (simp add: e_def app_sample_def create_prepare_def Let_def prepared_def app_start_def NewEngine_def empty_world_def)
  then have "wBus (engWorld e') = new_channel" using SubmitOrder_world [OF sub] by simp
  then have "\<exists>x w'. CreateOrder (service_deps unary int) ?w ?u req = Return (Inr x, w')"
    by (simp add: CreateOrder_unfold [OF app_service_inv [OF app_reachable_inv [OF app_sample_reachable inj_unary] inj_unary]]
        e_def [symmetric] sub try_send_def new_channel_def dispatchBufferSize_def)
  then show ?thesis by (auto simp: OrderHandler_Create_def v)
qed

lemma sample_create:
  "\<exists>resp w'. OrderHandler_Create (service_deps unary int) (Some sample_body) sample_request (apWorld app_sample) = Return (resp, w')"
  unfolding sample_body_def by (rule sample_create_returns) code_simp

theorem create_accepts_exactly_valid_orders_witness:
  "\<exists>ord w'. OrderHandler_Create (service_deps unary int) (Some sample_body) sample_request (apWorld app_sample) =
       Return (JSON 201 (DOrder ord), w') \<and> oPrice ord = 9500 \<and>
     OrderRepo_FindByID (wOrders (engWorld (swEngine w'))) (oID ord) = Inr ord"
proof -
  obtain resp w' where ret: "OrderHandler_Create (service_deps unary int) (Some sample_body) sample_request (apWorld app_sample) =
      Return (resp, w')" using sample_create by blast
  have "request_ok \<lparr>rqStockCode = bdStockCode sample_body, rqSide = bdSide sample_body, rqPrice = bdPrice sample_body,
      rqQuantity = bdQuantity sample_body\<rparr>"
    by (simp add: request_ok_def sample_body_def) code_simp
  with create_accepts_exactly_valid_orders [OF app_sample_reachable inj_unary refl ret] ret show ?thesis
    by (auto simp: sample_body_def)
qed

text \<open>
  C34: an order the engine has no room for is reported as created. When the queue of its stock is
  full, the request still answers with an open order, which is stored, but no matcher receives it
  and no event announces it: it stays open for ever.
\<close>

theorem order_refused_by_the_engine_is_reported_open:
  assumes "service_inv uuid w" and "engMatchers (swEngine w) (rqStockCode req) = Some m" and "\<not> chClosed (mcCh m)"
    and "1000 \<le> length (chQueue (mcCh m))"
  shows "\<exists>ord w'. CreateOrder (service_deps uuid clock) w userID req = Return (Inr ord, w') \<and> oStatus ord = ''OPEN'' \<and>
    OrderRepo_FindByID (wOrders (engWorld (swEngine w'))) (oID ord) = Inr ord \<and>
    engMatchers (swEngine w') = engMatchers (swEngine w) \<and> wBus (engWorld (swEngine w')) = wBus (engWorld (swEngine w))"
proof -
  let ?w' = "\<lparr>swEngine = prepared uuid clock w userID req, swNext = Suc (Suc (swNext w))\<rparr>"
  have run: "CreateOrder (service_deps uuid clock) w userID req = Return (Inr (created uuid clock w userID req), ?w')"
    using assms by (intro CreateOrder_full_queue) (simp_all add: matcherChanCap_def)
  then show ?thesis
    using CreateOrder_result [OF assms(1) run]
    by (intro exI [of _ "created uuid clock w userID req"] exI [of _ ?w'])
      (simp add: prepared_def Let_def created_def new_order_def OrderStatusOpen_def)
qed

definition full_world :: service_world where
  "full_world =
     \<lparr>swEngine = (NewEngine DefaultStocks (\<lambda>_. undefined) empty_world)
        \<lparr>engMatchers := [''BBCA'' \<mapsto> newMatcher ''BBCA'' \<lparr>mcCh := \<lparr>chQueue = replicate 1000 None, chClosed = False\<rparr>\<rparr>]\<rparr>,
      swNext = 0\<rparr>"

theorem order_refused_by_the_engine_is_reported_open_witness:
  "\<exists>ord w'. CreateOrder (service_deps unary int) full_world ''ann'' app_request = Return (Inr ord, w') \<and> oStatus ord = ''OPEN'' \<and>
    OrderRepo_FindByID (wOrders (engWorld (swEngine w'))) (oID ord) = Inr ord \<and>
    engMatchers (swEngine w') = engMatchers (swEngine full_world) \<and> wBus (engWorld (swEngine w')) = wBus (engWorld (swEngine full_world))"
proof -
  have "service_inv unary full_world"
    using inj_unary or_wf_New
    by (auto simp: service_inv_def full_world_def NewEngine_def empty_world_def orders_of_def NewOrderRepo_def held_ids_def held_def
        newMatcher_def newOrderBook_def book_entries_def split: if_splits)
  then show ?thesis
    by (rule order_refused_by_the_engine_is_reported_open
        [where m = "newMatcher ''BBCA'' \<lparr>mcCh := \<lparr>chQueue = replicate 1000 None, chClosed = False\<rparr>\<rparr>"]) (simp_all add: full_world_def app_request_def)
qed

section \<open>Accounts\<close>



text \<open>A token library and a password hash with the documented behaviour: fields are escaped and joined.\<close>

definition esc :: "string \<Rightarrow> string" where "esc s = concat (map (\<lambda>c. [CHR ''1'', c]) s) @ [CHR ''0'']"

fun unesc :: "string \<Rightarrow> string \<times> string" where
  "unesc (a # b # s) = (if a = CHR ''1'' then (let (f, rest) = unesc s in (b # f, rest)) else ([], b # s))"
| "unesc [a] = ([], [])"
| "unesc [] = ([], [])"

lemma unesc_esc [simp]: "unesc (esc f @ rest) = (f, rest)"
proof (induction f)
  case Nil
  then show ?case by (cases rest) (simp_all add: esc_def)
qed (simp add: esc_def)

definition esc_int :: "int \<Rightarrow> string" where
  "esc_int i = esc ((if i < 0 then CHR ''-'' else CHR ''+'') # replicate (nat \<bar>i\<bar>) (CHR ''1''))"

definition unesc_int :: "string \<Rightarrow> int" where
  "unesc_int s = (case s of [] \<Rightarrow> 0 | c # t \<Rightarrow> if c = CHR ''-'' then - int (length t) else int (length t))"

lemma unesc_int [simp]: "unesc_int ((if i < 0 then CHR ''-'' else CHR ''+'') # replicate (nat \<bar>i\<bar>) (CHR ''1'')) = i"
  by (simp add: unesc_int_def)

definition sign :: "string \<Rightarrow> Claims \<Rightarrow> string" where
  "sign k c = esc k @ esc (clUserID c) @ esc (clUsername c) @ esc (clSubject c) @ esc_int (clIssuedAt c) @ esc_int (clExpiresAt c)"

definition unsign :: "string \<Rightarrow> Claims" where
  "unsign t =
     (let (k, t) = unesc t; (u, t) = unesc t; (n, t) = unesc t; (s, t) = unesc t; (i, t) = unesc t; (x, t) = unesc t
      in \<lparr>clUserID = u, clUsername = n, clSubject = s, clIssuedAt = unesc_int i, clExpiresAt = unesc_int x\<rparr>)"

lemma unsign_sign [simp]: "unsign (sign k c) = c"
proof -
  have "unesc (esc f) = (f, [])" for f using unesc_esc [of f "[]"] by simp
  moreover have "unesc (esc_int i @ rest) =
      ((if i < 0 then CHR ''-'' else CHR ''+'') # replicate (nat \<bar>i\<bar>) (CHR ''1''), rest)" for i rest
    by (simp only: esc_int_def unesc_esc)
  moreover have "unesc (esc_int i) = ((if i < 0 then CHR ''-'' else CHR ''+'') # replicate (nat \<bar>i\<bar>) (CHR ''1''), [])" for i
    by (simp only: esc_int_def calculation(1))
  ultimately show ?thesis by (simp add: unsign_def sign_def del: if_split)
qed

definition sample_jwt :: jwt where
  "sample_jwt =
     \<lparr>NewNumericDate = (\<lambda>t. t div 10 ^ 9 * 10 ^ 9), SignedString = (\<lambda>k c. Some (sign k c)), tokenMethod = (\<lambda>t. Some (HMAC ''HS256'')),
      verify = (\<lambda>m k now t. if sign k (unsign t) = t \<and> now < clExpiresAt (unsign t) then Some (unsign t) else None)\<rparr>"

definition sample_bcrypt :: bcrypt where
  "sample_bcrypt =
     \<lparr>GenerateFromPassword = (\<lambda>p. if length p \<le> 72 then Some p else None), CompareHashAndPassword = (\<lambda>h p. h = p)\<rparr>"

lemma sample_libs: "jwt_ok sample_jwt" "bcrypt_ok sample_bcrypt"
  by (auto simp: jwt_ok_def sample_jwt_def bcrypt_ok_def sample_bcrypt_def split: if_splits)



section \<open>Budgets\<close>

text \<open>
  C21: the rate limiter keeps a budget for every address. What an address is granted in a
  sequence of requests and cleanup sweeps is what it would be granted if no other address had
  sent anything, so no client can use up the budget of another; and a peer that is not a trusted
  proxy is accounted under its own address whatever headers it sends.
\<close>

theorem rate_limits_are_isolated:
  assumes "\<not> isTrusted n (remote_ip n r) trusted"
  shows "filter (\<lambda>d. fst d = ip) (decisions lib rl ops) = filter (\<lambda>d. fst d = ip) (decisions lib rl (filter (concerns ip) ops)) \<and>
    ExtractClientIP n (r\<lparr>hrHeader := h\<rparr>) trusted = remote_ip n r"
  using decisions_isolated_aux [of rl ip rl lib ops] ExtractClientIP_untrusted [OF assms, of h] by simp

theorem rate_limits_are_isolated_witness:
  "filter (\<lambda>d. fst d = ''a'') (decisions sample_ratelib (NewRateLimiter 1 1)
       [Request 0 0 ''b'', Request 0 0 ''a'', Request 0 0 ''b'', Request 0 0 ''a'']) =
     filter (\<lambda>d. fst d = ''a'') (decisions sample_ratelib (NewRateLimiter 1 1) [Request 0 0 ''a'', Request 0 0 ''a'']) \<and>
   ExtractClientIP sample_netlib (sample_request\<lparr>hrHeader := (\<lambda>_. ''1.2.3.4'')\<rparr>) [''10.0.0.1''] = ''10.0.0.9:4711''"
proof -
  have "\<not> isTrusted sample_netlib (remote_ip sample_netlib sample_request) [''10.0.0.1'']"
    by (simp add: isTrusted_def remote_ip_def sample_netlib_def sample_request_def)
  from rate_limits_are_isolated [OF this, of "''a''" sample_ratelib "NewRateLimiter 1 1"
      "[Request 0 0 ''b'', Request 0 0 ''a'', Request 0 0 ''b'', Request 0 0 ''a'']" "\<lambda>_. ''1.2.3.4''"]
  show ?thesis by (simp add: remote_ip_def sample_netlib_def sample_request_def)
qed

end
