(* ===== verification/DBWorker_Model.thy ===== *)
theory DBWorker_Model
  imports Entities Channels
begin

text \<open>
  The database worker (src/internal/worker/dbworker.go): a bounded queue of write operations, one
  goroutine that collects them into batches, and a flush with retries. The PostgreSQL driver is
  third-party: \<open>SendBatch\<close> is a parameter on a connection state \<open>'c\<close>, which answers whether
  every statement of the batch succeeded. The meaning of the two SQL statements is the function
  \<open>exec_stmt\<close> on the tables, and \<open>atomic_batches\<close> says what is relied on of the driver.
\<close>

section \<open>Operations and statements\<close>

datatype OpType = OpOrderSave | OpOrderUpdate | OpTradeSave | OpTickerUpdate

datatype write_payload = WOrder Order | WTrade Trade | WTicker Ticker

record WriteOp =
  opType :: OpType
  opPayload :: write_payload

datatype stmt = UpsertOrder Order | InsertTrade Trade

record tables =
  tbOrders :: "string \<rightharpoonup> Order"
  tbTrades :: "string \<rightharpoonup> Trade"

text \<open>A \<open>TIMESTAMPTZ\<close> column keeps microseconds.\<close>

definition pg_time :: "time \<Rightarrow> time" where "pg_time t = t div 1000 * 1000"

definition pg_order :: "Order \<Rightarrow> Order" where
  "pg_order x = x\<lparr>oCreatedAt := pg_time (oCreatedAt x), oUpdatedAt := pg_time (oUpdatedAt x)\<rparr>"

definition pg_trade :: "Trade \<Rightarrow> Trade" where
  "pg_trade x = x\<lparr>tExecutedAt := pg_time (tExecutedAt x)\<rparr>"

lemma pg_order_fields [simp]:
  "oID (pg_order x) = oID x" "oStatus (pg_order x) = oStatus x" "oFilledQuantity (pg_order x) = oFilledQuantity x"
  "oStockCode (pg_order x) = oStockCode x" "oUserID (pg_order x) = oUserID x" "tID (pg_trade y) = tID y"
  by (simp_all add: pg_order_def pg_trade_def)

text \<open>\<open>ON CONFLICT (id) DO UPDATE\<close> of three columns, and \<open>ON CONFLICT (id) DO NOTHING\<close>.\<close>

fun exec_stmt :: "stmt \<Rightarrow> tables \<Rightarrow> tables" where
  "exec_stmt (UpsertOrder x) t =
     t\<lparr>tbOrders := (tbOrders t)(oID x \<mapsto>
         (case tbOrders t (oID x) of
            None \<Rightarrow> pg_order x
          | Some row \<Rightarrow> row\<lparr>oFilledQuantity := oFilledQuantity x, oStatus := oStatus x,
                              oUpdatedAt := pg_time (oUpdatedAt x)\<rparr>))\<rparr>"
| "exec_stmt (InsertTrade x) t =
     (if tbTrades t (tID x) = None then t\<lparr>tbTrades := (tbTrades t)(tID x \<mapsto> pg_trade x)\<rparr> else t)"

text \<open>The statement \<open>flush\<close> queues for one operation; other combinations are skipped.\<close>

fun stmt_of :: "WriteOp \<Rightarrow> stmt option" where
  "stmt_of op =
     (case (opType op, opPayload op) of
        (OpOrderSave, WOrder x) \<Rightarrow> Some (UpsertOrder x)
      | (OpOrderUpdate, WOrder x) \<Rightarrow> Some (UpsertOrder x)
      | (OpTradeSave, WTrade x) \<Rightarrow> Some (InsertTrade x)
      | _ \<Rightarrow> None)"

definition statements :: "WriteOp list \<Rightarrow> stmt list" where
  "statements ops = List.map_filter stmt_of ops"

definition exec_all :: "stmt list \<Rightarrow> tables \<Rightarrow> tables" where
  "exec_all ss t = fold exec_stmt ss t"

section \<open>The worker\<close>

record DBWorkerConfig =
  cfBatchSize :: int64
  cfFlushInterval :: duration
  cfChannelSize :: int64
  cfRetryMax :: int64
  cfRetryBackoff :: duration

definition DefaultDBWorkerConfig :: DBWorkerConfig where
  "DefaultDBWorkerConfig =
     \<lparr>cfBatchSize = 100, cfFlushInterval = 100 * 10 ^ 6, cfChannelSize = 5000, cfRetryMax = 3,
      cfRetryBackoff = 10 ^ 9\<rparr>"

text \<open>
  \<open>dwBatch\<close> is the local variable of \<open>Start\<close>; \<open>dwPool\<close> the connection, \<open>None\<close> for a nil pool.
  \<open>dwFlushed\<close> and \<open>dwDropped\<close> record the batches that were written and those given up.
\<close>

record 'c DBWorker =
  dwCh :: "WriteOp channel"
  dwCfg :: DBWorkerConfig
  dwStopped :: bool
  dwBatch :: "WriteOp list"
  dwExited :: bool
  dwPool :: "'c option"
  dwFlushed :: "WriteOp list"
  dwDropped :: "WriteOp list"

definition NewDBWorker :: "'c option \<Rightarrow> DBWorkerConfig \<Rightarrow> 'c DBWorker" where
  "NewDBWorker pool cfg =
     \<lparr>dwCh = new_channel, dwCfg = cfg, dwStopped = False, dwBatch = [], dwExited = False,
      dwPool = pool, dwFlushed = [], dwDropped = []\<rparr>"

datatype enqueue_error = ErrStopped | ErrQueueFullDB

text \<open>
  \<open>Enqueue\<close> recovers from the panic of a send on the closed channel. \<open>seen\<close> is what
  \<open>stopped.Load()\<close> returned: \<open>Stop\<close> may run between that read and the send.
\<close>

definition Enqueue :: "bool \<Rightarrow> 'c DBWorker \<Rightarrow> WriteOp \<Rightarrow> enqueue_error option \<times> 'c DBWorker" where
  "Enqueue seen w op =
     (if seen then (Some ErrStopped, w)
      else case try_send (nat (cfChannelSize (dwCfg w))) (dwCh w) op of
             (Sent, ch) \<Rightarrow> (None, w\<lparr>dwCh := ch\<rparr>)
           | (Full, ch) \<Rightarrow> (Some ErrQueueFullDB, w)
           | (SendPanic, ch) \<Rightarrow> (Some ErrStopped, w))"

definition QueueLen :: "'c DBWorker \<Rightarrow> nat" where
  "QueueLen w = length (chQueue (dwCh w))"

type_synonym 'c sender = "'c \<Rightarrow> stmt list \<Rightarrow> bool \<times> 'c"

text \<open>\<open>flush\<close>: true when it returns nil.\<close>

definition flush :: "'c sender \<Rightarrow> 'c option \<Rightarrow> WriteOp list \<Rightarrow> bool \<times> 'c option" where
  "flush SendBatch pool ops =
     (case pool of
        None \<Rightarrow> (True, None)
      | Some c \<Rightarrow>
          let batch = statements ops
          in if length batch = 0 then (True, Some c)
             else let (ok, c) = SendBatch c batch in (ok, Some c))"

text \<open>The loop of \<open>flushWithRetry\<close> with \<open>n\<close> attempts left; the last component are the waits.\<close>

fun retry_loop ::
  "'c sender \<Rightarrow> nat \<Rightarrow> bool \<Rightarrow> duration \<Rightarrow> 'c option \<Rightarrow> WriteOp list \<Rightarrow> bool \<times> 'c option \<times> duration list" where
  "retry_loop SendBatch 0 retry backoff pool ops = (False, pool, [])"
| "retry_loop SendBatch (Suc n) retry backoff pool ops =
     (let waits = (if retry then [backoff] else []);
          backoff = (if retry then mul64 backoff 2 else backoff);
          (ok, pool) = flush SendBatch pool ops
      in if ok then (True, pool, waits)
         else let (r, pool, ws) = retry_loop SendBatch n True backoff pool ops in (r, pool, waits @ ws))"

definition flushWithRetry ::
  "'c sender \<Rightarrow> DBWorkerConfig \<Rightarrow> 'c option \<Rightarrow> WriteOp list \<Rightarrow> bool \<times> 'c option \<times> duration list" where
  "flushWithRetry SendBatch cfg pool ops =
     retry_loop SendBatch (nat (cfRetryMax cfg + 1)) False (cfRetryBackoff cfg) pool ops"

text \<open>The closure \<open>flush\<close> of \<open>Start\<close>, followed by \<open>batch = batch[:0]\<close>: a failure is only logged.\<close>

definition flush_batch :: "'c sender \<Rightarrow> 'c DBWorker \<Rightarrow> 'c DBWorker" where
  "flush_batch SendBatch w =
     (if length (dwBatch w) = 0 then w
      else let (ok, pool, ws) = flushWithRetry SendBatch (dwCfg w) (dwPool w) (dwBatch w)
           in w\<lparr>dwPool := pool, dwBatch := [],
                dwFlushed := (if ok then dwFlushed w @ dwBatch w else dwFlushed w),
                dwDropped := (if ok then dwDropped w else dwDropped w @ dwBatch w)\<rparr>)"

text \<open>The turns of the loop of \<open>Start\<close>: a receive (or the end of a closed channel) and a tick.\<close>

definition Start_recv :: "'c sender \<Rightarrow> 'c DBWorker \<Rightarrow> 'c DBWorker option" where
  "Start_recv SendBatch w =
     (if dwExited w then None
      else case chQueue (dwCh w) of
             op # rest \<Rightarrow>
               let w = w\<lparr>dwCh := (dwCh w)\<lparr>chQueue := rest\<rparr>, dwBatch := dwBatch w @ [op]\<rparr>
               in Some (if int (length (dwBatch w)) \<ge> cfBatchSize (dwCfg w) then flush_batch SendBatch w else w)
           | [] \<Rightarrow>
               if chClosed (dwCh w) then Some ((flush_batch SendBatch w)\<lparr>dwExited := True\<rparr>) else None)"

definition Start_tick :: "'c sender \<Rightarrow> 'c DBWorker \<Rightarrow> 'c DBWorker option" where
  "Start_tick SendBatch w = (if dwExited w then None else Some (flush_batch SendBatch w))"

text \<open>\<open>Stop\<close>, up to its wait: the flag, then the channel. Cancelling the context also calls it.\<close>

definition DBWorker_Stop :: "'c DBWorker \<Rightarrow> 'c DBWorker" where
  "DBWorker_Stop w = w\<lparr>dwStopped := True, dwCh := (dwCh w)\<lparr>chClosed := True\<rparr>\<rparr>"

text \<open>
  \<open>NewDBWorker\<close> and the first lines of \<open>Start\<close>: \<open>make\<close> panics on a negative size and
  \<open>time.NewTicker\<close> on an interval that is not positive.
\<close>

definition DBWorker_launch :: "'c option \<Rightarrow> DBWorkerConfig \<Rightarrow> 'c DBWorker outcome" where
  "DBWorker_launch pool cfg =
     (if cfChannelSize cfg < 0 then Panic
      else if cfBatchSize cfg < 0 then Panic
      else if cfFlushInterval cfg \<le> 0 then Panic
      else Return (NewDBWorker pool cfg))"

section \<open>Retries\<close>

text \<open>A batch takes effect as a whole or not at all.\<close>

definition atomic_batches :: "'c sender \<Rightarrow> ('c \<Rightarrow> tables) \<Rightarrow> bool" where
  "atomic_batches SendBatch tbl \<longleftrightarrow>
     (\<forall>c ss ok c'. SendBatch c ss = (ok, c') \<longrightarrow> tbl c' = (if ok then exec_all ss (tbl c) else tbl c))"

lemma flush_tables:
  assumes "atomic_batches S tbl" and "flush S (Some c) ops = (ok, pool)"
  shows "\<exists>c'. pool = Some c' \<and> tbl c' = (if ok then exec_all (statements ops) (tbl c) else tbl c)"
  using assms by (fastforce simp: flush_def exec_all_def atomic_batches_def Let_def split: if_splits prod.splits)

lemma retry_tables:
  assumes "atomic_batches S tbl"
  shows "retry_loop S n retry b (Some c) ops = (ok, pool, ws) \<Longrightarrow>
    \<exists>c'. pool = Some c' \<and> tbl c' = (if ok then exec_all (statements ops) (tbl c) else tbl c)"
proof (induction n arbitrary: retry b c ok pool ws)
  case 0
  then show ?case by auto
next
  case (Suc n)
  obtain ok1 p1 where f: "flush S (Some c) ops = (ok1, p1)" by fastforce
  obtain c1 where c1: "p1 = Some c1" "tbl c1 = (if ok1 then exec_all (statements ops) (tbl c) else tbl c)"
    using flush_tables [OF assms f] by blast
  show ?case
  proof (cases ok1)
    case True
    then show ?thesis using Suc.prems f c1 by (auto simp: Let_def)
  next
    case False
    obtain ws' where r: "retry_loop S n True (if retry then mul64 b 2 else b) (Some c1) ops = (ok, pool, ws')"
      using Suc.prems f c1(1) False by (auto simp: Let_def split: prod.splits)
    show ?thesis using Suc.IH [OF r] c1(2) False by auto
  qed
qed

text \<open>The number of waits is bounded by the configured number of retries.\<close>

lemma retry_waits:
  "retry_loop S n retry b pool ops = (ok, pool', ws) \<Longrightarrow> length ws \<le> (if retry then n else n - 1)"
proof (induction n arbitrary: retry b pool ok pool' ws)
  case (Suc n)
  obtain ok1 p1 where f: "flush S pool ops = (ok1, p1)" by fastforce
  show ?case
  proof (cases ok1)
    case True
    then show ?thesis using Suc.prems f by (auto simp: Let_def split: if_splits)
  next
    case False
    obtain ws' where r: "retry_loop S n True (if retry then mul64 b 2 else b) p1 ops = (ok, pool', ws')"
      and ws: "ws = (if retry then [b] else []) @ ws'"
      using Suc.prems f False by (auto simp: Let_def split: prod.splits)
    show ?thesis using Suc.IH [OF r] by (auto simp: ws)
  qed
qed simp

section \<open>What the worker does to the tables\<close>

text \<open>
  Everything received is in the batch, has been written, or was given up; and the tables are
  those obtained by executing the written operations in the order they were received.
\<close>

definition received :: "'c DBWorker \<Rightarrow> WriteOp multiset" where
  "received w = mset (dwFlushed w) + mset (dwDropped w) + mset (dwBatch w)"

definition written_ok :: "('c \<Rightarrow> tables) \<Rightarrow> tables \<Rightarrow> 'c DBWorker \<Rightarrow> bool" where
  "written_ok tbl t0 w \<longleftrightarrow> (\<forall>c. dwPool w = Some c \<longrightarrow> tbl c = exec_all (statements (dwFlushed w)) t0)"

lemma statements_append [simp]: "statements (xs @ ys) = statements xs @ statements ys"
  by (simp add: statements_def List.map_filter_def)

lemma exec_all_append [simp]: "exec_all (xs @ ys) t = exec_all ys (exec_all xs t)"
  by (simp add: exec_all_def)

lemma flush_batch_fields [simp]:
  "dwCh (flush_batch S w) = dwCh w" "dwCfg (flush_batch S w) = dwCfg w" "dwBatch (flush_batch S w) = []"
  "dwExited (flush_batch S w) = dwExited w" "dwStopped (flush_batch S w) = dwStopped w"
  "received (flush_batch S w) = received w"
  by (auto simp: flush_batch_def received_def split: prod.split)

lemma retry_None: "retry_loop S (Suc n) retry b None ops = (True, None, if retry then [b] else [])"
  by (simp add: flush_def)

lemma flush_batch_written:
  assumes "atomic_batches S tbl" and "written_ok tbl t0 w"
  shows "written_ok tbl t0 (flush_batch S w)"
proof (cases "dwPool w")
  case None
  have "fst (snd (retry_loop S n r b None ops)) = None" for n r b ops
    by (cases n) (simp_all add: flush_def)
  then have "dwPool (flush_batch S w) = None"
    using None by (simp add: flush_batch_def flushWithRetry_def split_beta)
  then show ?thesis by (simp add: written_ok_def)
next
  case (Some c)
  obtain ok pool ws where r: "flushWithRetry S (dwCfg w) (Some c) (dwBatch w) = (ok, pool, ws)"
    by (metis prod_cases3)
  obtain c' where "pool = Some c'" "tbl c' = (if ok then exec_all (statements (dwBatch w)) (tbl c) else tbl c)"
    using retry_tables [OF assms(1)] r unfolding flushWithRetry_def by blast
  then show ?thesis using assms(2) Some r by (auto simp: written_ok_def flush_batch_def)
qed

lemma written_ok_frame:
  "dwPool w' = dwPool w \<Longrightarrow> dwFlushed w' = dwFlushed w \<Longrightarrow> written_ok tbl t0 w' = written_ok tbl t0 w"
  by (simp add: written_ok_def)

lemma flush_batch_order:
  "dwDropped (flush_batch S w) = dwDropped w \<Longrightarrow> dwFlushed (flush_batch S w) = dwFlushed w @ dwBatch w"
  by (auto simp: flush_batch_def split: prod.splits if_splits)

lemma flush_batch_drops: "\<exists>xs. dwDropped (flush_batch S w) = dwDropped w @ xs"
  by (auto simp: flush_batch_def split: prod.split)

section \<open>Shutdown\<close>

fun recv_turns :: "'c sender \<Rightarrow> nat \<Rightarrow> 'c DBWorker \<Rightarrow> 'c DBWorker option" where
  "recv_turns S 0 w = Some w"
| "recv_turns S (Suc n) w = (case Start_recv S w of None \<Rightarrow> None | Some w' \<Rightarrow> recv_turns S n w')"

text \<open>One receive: the operation joins the batch, which is flushed when it is full.\<close>

lemma Start_recv_step:
  assumes "\<not> dwExited w" and "chQueue (dwCh w) = op # rest"
  shows "\<exists>w'. Start_recv S w = Some w' \<and> \<not> dwExited w' \<and> chQueue (dwCh w') = rest \<and>
    chClosed (dwCh w') = chClosed (dwCh w) \<and> dwCfg w' = dwCfg w \<and>
    received w' = add_mset op (received w) \<and>
    (\<exists>xs. dwDropped w' = dwDropped w @ xs) \<and>
    (dwDropped w' = dwDropped w \<longrightarrow> dwFlushed w' @ dwBatch w' = dwFlushed w @ dwBatch w @ [op]) \<and>
    (atomic_batches S tbl \<longrightarrow> written_ok tbl t0 w \<longrightarrow> written_ok tbl t0 w')"
proof -
  define w1 where "w1 = w\<lparr>dwCh := (dwCh w)\<lparr>chQueue := rest\<rparr>, dwBatch := dwBatch w @ [op]\<rparr>"
  have rec: "received w1 = add_mset op (received w)" by (simp add: received_def w1_def)
  have wok: "written_ok tbl t0 w1 = written_ok tbl t0 w" by (rule written_ok_frame) (simp_all add: w1_def)
  show ?thesis
  proof (cases "int (length (dwBatch w1)) \<ge> cfBatchSize (dwCfg w1)")
    case True
    then have "Start_recv S w = Some (flush_batch S w1)"
      using assms by (simp add: Start_recv_def w1_def Let_def)
    moreover have "dwDropped (flush_batch S w1) = dwDropped w1 \<longrightarrow>
        dwFlushed (flush_batch S w1) = dwFlushed w1 @ dwBatch w1"
      using flush_batch_order by blast
    moreover have "dwDropped w1 = dwDropped w" "dwFlushed w1 = dwFlushed w" "dwBatch w1 = dwBatch w @ [op]"
      "dwExited w1 = dwExited w" "dwCh w1 = (dwCh w)\<lparr>chQueue := rest\<rparr>" "dwCfg w1 = dwCfg w"
      by (simp_all add: w1_def)
    moreover have "atomic_batches S tbl \<longrightarrow> written_ok tbl t0 w \<longrightarrow> written_ok tbl t0 (flush_batch S w1)"
      using flush_batch_written [of S tbl t0 w1] wok by blast
    ultimately show ?thesis
      using assms(1) rec flush_batch_drops [of S w1]
      by (intro exI [of _ "flush_batch S w1"]) simp
  next
    case False
    then have "Start_recv S w = Some w1" using assms by (simp add: Start_recv_def w1_def Let_def)
    then show ?thesis using assms(1) rec wok by (auto simp: w1_def)
  qed
qed

lemma recv_turns_drain:
  assumes "\<not> dwExited w" and "chClosed (dwCh w)"
  shows "\<exists>w'. recv_turns S (Suc (length (chQueue (dwCh w)))) w = Some w' \<and> dwExited w' \<and>
    chQueue (dwCh w') = [] \<and> dwBatch w' = [] \<and> received w' = received w + mset (chQueue (dwCh w)) \<and>
    (\<exists>xs. dwDropped w' = dwDropped w @ xs) \<and>
    (dwDropped w' = dwDropped w \<longrightarrow> dwFlushed w' = dwFlushed w @ dwBatch w @ chQueue (dwCh w)) \<and>
    (atomic_batches S tbl \<longrightarrow> written_ok tbl t0 w \<longrightarrow> written_ok tbl t0 w')"
  using assms
proof (induction "chQueue (dwCh w)" arbitrary: w)
  case Nil
  define w' where "w' = (flush_batch S w)\<lparr>dwExited := True\<rparr>"
  have "Start_recv S w = Some w'" using Nil by (simp add: Start_recv_def w'_def flip: Nil.hyps)
  moreover have "received w' = received (flush_batch S w)" by (simp add: received_def w'_def)
  moreover have "written_ok tbl t0 w' = written_ok tbl t0 (flush_batch S w)" by (rule written_ok_frame) (simp_all add: w'_def)
  moreover have "atomic_batches S tbl \<longrightarrow> written_ok tbl t0 w \<longrightarrow> written_ok tbl t0 (flush_batch S w)"
    using flush_batch_written by blast
  moreover have "dwDropped w' = dwDropped w \<longrightarrow> dwFlushed w' = dwFlushed w @ dwBatch w"
    using flush_batch_order [of S w] by (simp add: w'_def)
  moreover have "dwExited w'" "dwBatch w' = []" "dwCh w' = dwCh w" "dwDropped w' = dwDropped (flush_batch S w)"
    by (simp_all add: w'_def)
  ultimately show ?case
    using Nil.hyps [symmetric] flush_batch_drops [of S w] by (intro exI [of _ w']) simp
next
  case (Cons op rest)
  obtain w1 where w1: "Start_recv S w = Some w1" "\<not> dwExited w1" "chQueue (dwCh w1) = rest"
      "chClosed (dwCh w1) = chClosed (dwCh w)" "received w1 = add_mset op (received w)"
      "\<exists>xs. dwDropped w1 = dwDropped w @ xs"
      "dwDropped w1 = dwDropped w \<longrightarrow> dwFlushed w1 @ dwBatch w1 = dwFlushed w @ dwBatch w @ [op]"
      "atomic_batches S tbl \<longrightarrow> written_ok tbl t0 w \<longrightarrow> written_ok tbl t0 w1"
    using Start_recv_step [OF Cons.prems(1) Cons.hyps(2) [symmetric], of S tbl t0] by blast
  obtain w2 where w2: "recv_turns S (Suc (length rest)) w1 = Some w2" "dwExited w2" "chQueue (dwCh w2) = []"
      "dwBatch w2 = []" "received w2 = received w1 + mset rest" "\<exists>xs. dwDropped w2 = dwDropped w1 @ xs"
      "dwDropped w2 = dwDropped w1 \<longrightarrow> dwFlushed w2 = dwFlushed w1 @ dwBatch w1 @ rest"
      "atomic_batches S tbl \<longrightarrow> written_ok tbl t0 w1 \<longrightarrow> written_ok tbl t0 w2"
    using Cons.hyps(1) [OF w1(3) [symmetric] w1(2)] Cons.prems(2) unfolding w1(3,4) by blast
  have q: "chQueue (dwCh w) = op # rest" using Cons.hyps(2) by simp
  obtain xs ys where xs: "dwDropped w1 = dwDropped w @ xs" and ys: "dwDropped w2 = dwDropped w1 @ ys"
    using w1(6) w2(6) by blast
  have more: "dwDropped w2 = dwDropped w @ xs @ ys" by (simp only: xs ys append_assoc)
  have same: "dwDropped w2 = dwDropped w \<Longrightarrow> dwDropped w1 = dwDropped w"
    using more xs by simp
  have run: "recv_turns S (Suc (length (op # rest))) w = Some w2" using w1(1) w2(1) by simp
  have "dwFlushed w2 = dwFlushed w @ dwBatch w @ op # rest" if "dwDropped w2 = dwDropped w"
  proof -
    have "dwFlushed w1 @ dwBatch w1 = dwFlushed w @ dwBatch w @ [op]" using same [OF that] w1(7) by blast
    moreover have "dwFlushed w2 = (dwFlushed w1 @ dwBatch w1) @ rest"
      using same [OF that] that w2(7) by simp
    ultimately show ?thesis by simp
  qed
  moreover have "received w2 = received w + mset (op # rest)" using w1(5) w2(5) by simp
  moreover have "\<exists>zs. dwDropped w2 = dwDropped w @ zs" using more by blast
  moreover have "atomic_batches S tbl \<longrightarrow> written_ok tbl t0 w \<longrightarrow> written_ok tbl t0 w2" using w1(8) w2(8) by blast
  ultimately show ?case unfolding q using run w2(2-4) by blast
qed

text \<open>A batch is given up only if every attempt at it failed.\<close>

lemma flush_batch_kept:
  assumes "\<And>c ss. fst (SendBatch c ss)" and "0 \<le> cfRetryMax (dwCfg w)"
  shows "dwDropped (flush_batch SendBatch w) = dwDropped w"
proof -
  have ok: "fst (flush SendBatch pool ops)" for pool ops
    using assms(1) by (auto simp: flush_def Let_def split: option.split prod.split) (metis fst_conv)
  have "fst (retry_loop SendBatch (Suc n) r b pool ops)" for n r b pool ops
    using ok [of pool ops] by (auto simp: Let_def split: prod.splits)
  moreover obtain n where "nat (cfRetryMax (dwCfg w) + 1) = Suc n" using assms(2) by (cases "nat (cfRetryMax (dwCfg w) + 1)") auto
  ultimately have "fst (flushWithRetry SendBatch (dwCfg w) (dwPool w) (dwBatch w))"
    by (simp add: flushWithRetry_def del: retry_loop.simps)
  then show ?thesis by (auto simp: flush_batch_def split: prod.splits)
qed

text \<open>
  An order written after a later state of it goes back to the earlier state: the upsert takes
  whatever comes last.
\<close>

lemma stale_upsert:
  assumes "oID old = oID new"
  shows "\<exists>row. tbOrders (exec_all (statements [\<lparr>opType = OpOrderUpdate, opPayload = WOrder new\<rparr>,
        \<lparr>opType = OpOrderSave, opPayload = WOrder old\<rparr>]) t) (oID new) = Some row \<and>
      oStatus row = oStatus old \<and> oFilledQuantity row = oFilledQuantity old"
  using assms by (simp add: statements_def List.map_filter_def exec_all_def split: option.split)

section \<open>The queue\<close>

type_synonym 'c worker_run = "'c DBWorker \<times> WriteOp list"

definition worker_offer :: "'c worker_run \<Rightarrow> WriteOp \<Rightarrow> bool \<times> 'c worker_run" where
  "worker_offer r op = (let (err, w) = Enqueue (dwStopped (fst r)) (fst r) op in (err = None, w, snd r))"

definition worker_take :: "'c sender \<Rightarrow> 'c worker_run \<Rightarrow> 'c worker_run option" where
  "worker_take S r =
     (case Start_recv S (fst r) of None \<Rightarrow> None | Some w \<Rightarrow> Some (w, snd r @ [hd (chQueue (dwCh (fst r)))]))"

definition worker_live :: "DBWorkerConfig \<Rightarrow> 'c worker_run \<Rightarrow> bool" where
  "worker_live cfg r \<longleftrightarrow>
     dwCfg (fst r) = cfg \<and> \<not> dwStopped (fst r) \<and> \<not> chClosed (dwCh (fst r)) \<and> \<not> dwExited (fst r)"

interpretation dbq: fifo_worker worker_offer "worker_take S" "\<lambda>r. chQueue (dwCh (fst r))" snd
  "nat (cfChannelSize cfg)" "worker_live cfg"
  for S :: "'c sender" and cfg
proof (unfold_locales, goal_cases)
  case (5 s)
  then show ?case
    by (cases "chQueue (dwCh (fst s))") (auto simp: worker_take_def worker_live_def Start_recv_def Let_def)
next
  case (6 s s')
  then show ?case
    by (cases "chQueue (dwCh (fst s))")
      (auto simp: worker_take_def worker_live_def Start_recv_def Let_def split: if_splits)
qed (auto simp: worker_offer_def worker_live_def Enqueue_def try_send_def split: if_splits)

end
