(* ===== verification/Postgres_Repos.thy ===== *)
theory Postgres_Repos
  imports Memory_Repos DBWorker_Model
begin

text \<open>
  The PostgreSQL repositories (src/internal/infra/storage/postgres). The database is third-party
  code; what is relied on is the documented meaning of the statements on the schema of
  src/migrations, written out here on tables that are lists of rows: primary keys and the unique
  user name, the column types, and the foreign keys of a trade. \<open>fault\<close> is the driver's error for
  a call that does not get through. Identifiers are accepted in the canonical spelling that
  \<open>uuid.NewString\<close> produces. \<open>plan\<close> is the order in which the server returns rows: any order that
  agrees with the \<open>ORDER BY\<close>.
\<close>

section \<open>The database\<close>

record pg_db =
  pgOrders :: "Order list"
  pgTrades :: "Trade list"
  pgUsers :: "User list"

datatype pg_err = UniqueViolation | PgFailure string

definition isDuplicateKey :: "pg_err \<Rightarrow> bool" where
  "isDuplicateKey e \<longleftrightarrow> e = UniqueViolation"

definition is_hex :: "char \<Rightarrow> bool" where
  "is_hex c \<longleftrightarrow> (let n = (of_char c :: nat) in 48 \<le> n \<and> n \<le> 57 \<or> 97 \<le> n \<and> n \<le> 102)"

definition uuid_ok :: "string \<Rightarrow> bool" where
  "uuid_ok s \<longleftrightarrow>
     length s = 36 \<and> (\<forall>i<36. if i \<in> {8, 13, 18, 23} then s ! i = CHR ''-'' else is_hex (s ! i))"

text \<open>The widths of the \<open>VARCHAR\<close> columns.\<close>

definition order_fits :: "Order \<Rightarrow> bool" where
  "order_fits x \<longleftrightarrow>
     length (oUserID x) \<le> 255 \<and> length (oStockCode x) \<le> 10 \<and> length (oSide x) \<le> 4 \<and> length (oStatus x) \<le> 20"

definition trade_fits :: "Trade \<Rightarrow> bool" where
  "trade_fits x \<longleftrightarrow>
     uuid_ok (tBuyOrderID x) \<and> uuid_ok (tSellOrderID x) \<and> length (tStockCode x) \<le> 10 \<and>
     length (tBuyerUserID x) \<le> 255 \<and> length (tSellerUserID x) \<le> 255"

definition has_order :: "pg_db \<Rightarrow> string \<Rightarrow> bool" where
  "has_order db i \<longleftrightarrow> i \<in> oID ` set (pgOrders db)"

definition insert_order :: "pg_db \<Rightarrow> Order \<Rightarrow> pg_err + pg_db" where
  "insert_order db x =
     (if \<not> uuid_ok (oID x) \<or> \<not> order_fits x then Inl (PgFailure ''invalid value'')
      else if has_order db (oID x) then Inl UniqueViolation
      else Inr (db\<lparr>pgOrders := pgOrders db @ [pg_order x]\<rparr>))"

text \<open>A trade's orders must exist.\<close>

definition insert_trade :: "pg_db \<Rightarrow> Trade \<Rightarrow> pg_err + pg_db" where
  "insert_trade db x =
     (if \<not> uuid_ok (tID x) \<or> \<not> trade_fits x then Inl (PgFailure ''invalid value'')
      else if tID x \<in> tID ` set (pgTrades db) then Inl UniqueViolation
      else if \<not> has_order db (tBuyOrderID x) \<or> \<not> has_order db (tSellOrderID x)
           then Inl (PgFailure ''foreign key violation'')
      else Inr (db\<lparr>pgTrades := pgTrades db @ [pg_trade x]\<rparr>))"

definition insert_user :: "pg_db \<Rightarrow> User \<Rightarrow> pg_err + pg_db" where
  "insert_user db u =
     (if \<not> uuid_ok (uID u) \<or> length (uUsername u) > 255 \<or> length (uPasswordHash u) > 255
      then Inl (PgFailure ''invalid value'')
      else if uID u \<in> uID ` set (pgUsers db) \<or> uUsername u \<in> uUsername ` set (pgUsers db) then Inl UniqueViolation
      else Inr (db\<lparr>pgUsers := pgUsers db @ [u\<lparr>uCreatedAt := pg_time (uCreatedAt u)\<rparr>]\<rparr>))"

section \<open>Saving and finding\<close>

text \<open>The error handling the three \<open>Save\<close> methods share.\<close>

definition saved :: "string \<Rightarrow> string option \<Rightarrow> pg_db \<Rightarrow> pg_err + pg_db \<Rightarrow> repo_error option \<times> pg_db" where
  "saved what fault db res =
     (case fault of
        Some m \<Rightarrow> (Some (ErrOther (what @ m)), db)
      | None \<Rightarrow>
          (case res of
             Inl e \<Rightarrow> (Some (if isDuplicateKey e then ErrDuplicate else ErrOther what), db)
           | Inr db' \<Rightarrow> (None, db')))"

definition PgOrderRepo_Save :: "string option \<Rightarrow> pg_db \<Rightarrow> Order \<Rightarrow> repo_error option \<times> pg_db" where
  "PgOrderRepo_Save fault db x = saved ''order save: '' fault db (insert_order db x)"

definition PgOrderRepo_FindByID :: "string option \<Rightarrow> pg_db \<Rightarrow> string \<Rightarrow> repo_error + Order" where
  "PgOrderRepo_FindByID fault db i =
     (case fault of
        Some m \<Rightarrow> Inl (ErrOther (''order find by id: '' @ m))
      | None \<Rightarrow>
          if \<not> uuid_ok i then Inl (ErrOther ''order find by id: '')
          else case find (\<lambda>x. oID x = i) (pgOrders db) of None \<Rightarrow> Inl ErrNotFound | Some x \<Rightarrow> Inr x)"

definition PgOrderRepo_Update :: "string option \<Rightarrow> pg_db \<Rightarrow> Order \<Rightarrow> repo_error option \<times> pg_db" where
  "PgOrderRepo_Update fault db x =
     (case fault of
        Some m \<Rightarrow> (Some (ErrOther (''order update: '' @ m)), db)
      | None \<Rightarrow>
          if \<not> uuid_ok (oID x) \<or> length (oStatus x) > 20 then (Some (ErrOther ''order update: ''), db)
          else if \<not> has_order db (oID x) then (Some ErrNotFound, db)
          else (None, db\<lparr>pgOrders := map (\<lambda>row. if oID row = oID x
                   then row\<lparr>oFilledQuantity := oFilledQuantity x, oStatus := oStatus x,
                            oUpdatedAt := pg_time (oUpdatedAt x)\<rparr> else row) (pgOrders db)\<rparr>))"

definition PgTradeRepo_Save :: "string option \<Rightarrow> pg_db \<Rightarrow> Trade \<Rightarrow> repo_error option \<times> pg_db" where
  "PgTradeRepo_Save fault db x = saved ''trade save: '' fault db (insert_trade db x)"

definition UserRepo_Save :: "string option \<Rightarrow> pg_db \<Rightarrow> User \<Rightarrow> repo_error option \<times> pg_db" where
  "UserRepo_Save fault db u = saved ''user save: '' fault db (insert_user db u)"

definition UserRepo_FindByUsername :: "string option \<Rightarrow> pg_db \<Rightarrow> string \<Rightarrow> repo_error + User" where
  "UserRepo_FindByUsername fault db name =
     (case fault of
        Some m \<Rightarrow> Inl (ErrOther (''user find by username: '' @ m))
      | None \<Rightarrow> (case find (\<lambda>u. uUsername u = name) (pgUsers db) of None \<Rightarrow> Inl ErrNotFound | Some u \<Rightarrow> Inr u))"

definition UserRepo_FindAll :: "(User list \<Rightarrow> User list) \<Rightarrow> string option \<Rightarrow> pg_db \<Rightarrow> repo_error + User list" where
  "UserRepo_FindAll plan fault db =
     (case fault of Some m \<Rightarrow> Inl (ErrOther (''user find all: '' @ m)) | None \<Rightarrow> Inr (plan (pgUsers db)))"

section \<open>Filtered pages\<close>

text \<open>
  The dynamic \<open>WHERE\<close> clause: conditions refer to positional parameters, counted from 1, and the
  page adds two more for \<open>LIMIT\<close> and \<open>OFFSET\<close>.
\<close>

datatype sql_arg = SText string | SInt int64

datatype sql_cond = ColEq string nat | EitherEq string string nat

type_synonym clause = "sql_cond list \<times> sql_arg list \<times> nat"

definition add_cond :: "(nat \<Rightarrow> sql_cond) \<Rightarrow> string \<Rightarrow> clause \<Rightarrow> clause" where
  "add_cond c v w = (case w of (conds, args, n) \<Rightarrow>
     if v \<noteq> [] then (conds @ [c n], args @ [SText v], n + 1) else (conds, args, n))"

definition order_where :: "OrderFilter \<Rightarrow> clause" where
  "order_where f =
     add_cond (ColEq ''user_id'') (ofUserID f)
       (add_cond (ColEq ''status'') (ofStatus f) (add_cond (ColEq ''stock_code'') (ofStockCode f) ([], [], 1)))"

definition trade_where :: "TradeFilter \<Rightarrow> clause" where
  "trade_where f =
     add_cond (EitherEq ''buyer_user_id'' ''seller_user_id'') (tfUserID f)
       (add_cond (ColEq ''stock_code'') (tfStockCode f) ([], [], 1))"

fun order_col :: "Order \<Rightarrow> string \<Rightarrow> string" where
  "order_col x c =
     (if c = ''stock_code'' then oStockCode x else if c = ''status'' then oStatus x else oUserID x)"

fun trade_col :: "Trade \<Rightarrow> string \<Rightarrow> string" where
  "trade_col x c =
     (if c = ''stock_code'' then tStockCode x else if c = ''buyer_user_id'' then tBuyerUserID x else tSellerUserID x)"

fun eval_cond :: "('a \<Rightarrow> string \<Rightarrow> string) \<Rightarrow> sql_arg list \<Rightarrow> sql_cond \<Rightarrow> 'a \<Rightarrow> bool" where
  "eval_cond col args (ColEq c n) x \<longleftrightarrow> args ! (n - 1) = SText (col x c)"
| "eval_cond col args (EitherEq c d n) x \<longleftrightarrow> args ! (n - 1) = SText (col x c) \<or> args ! (n - 1) = SText (col x d)"

definition select :: "('a \<Rightarrow> string \<Rightarrow> string) \<Rightarrow> clause \<Rightarrow> 'a list \<Rightarrow> 'a list" where
  "select col w rows = (case w of (conds, args, n) \<Rightarrow> filter (\<lambda>x. \<forall>c\<in>set conds. eval_cond col args c x) rows)"

text \<open>\<open>LIMIT $n OFFSET $n+1\<close>; the server refuses a negative value of either.\<close>

definition limit_offset :: "sql_arg list \<Rightarrow> nat \<Rightarrow> 'a list \<Rightarrow> 'a list option" where
  "limit_offset args n rows =
     (case (args ! (n - 1), args ! n) of
        (SInt l, SInt off) \<Rightarrow>
          if l < 0 \<or> off < 0 then None else Some (take (nat l) (drop (nat off) rows))
      | _ \<Rightarrow> None)"

definition find_page ::
  "('a \<Rightarrow> string \<Rightarrow> string) \<Rightarrow> ('a list \<Rightarrow> 'a list) \<Rightarrow> clause \<Rightarrow> 'a list \<Rightarrow> int64 \<Rightarrow> int64 \<Rightarrow> repo_error + ('a list \<times> int64)" where
  "find_page col plan w rows page perPage =
     (case w of (conds, args, n) \<Rightarrow>
        let tot = int (length (select col w rows));
            page = (if page \<le> 0 then 1 else page);
            perPage = (if perPage \<le> 0 then 20 else perPage);
            offset = mul64 (page - 1) perPage;
            args' = args @ [SInt perPage, SInt offset]
        in case limit_offset args' n (plan (select col (conds, args', n) rows)) of
             None \<Rightarrow> Inl (ErrOther ''find all: '')
           | Some xs \<Rightarrow> Inr (xs, tot))"

definition PgOrderRepo_FindAll ::
  "(Order list \<Rightarrow> Order list) \<Rightarrow> string option \<Rightarrow> pg_db \<Rightarrow> OrderFilter \<Rightarrow> repo_error + (Order list \<times> int64)" where
  "PgOrderRepo_FindAll plan fault db f =
     (case fault of
        Some m \<Rightarrow> Inl (ErrOther (''order count: '' @ m))
      | None \<Rightarrow> find_page order_col plan (order_where f) (pgOrders db) (ofPage f) (ofPerPage f))"

definition PgTradeRepo_FindAll ::
  "(Trade list \<Rightarrow> Trade list) \<Rightarrow> string option \<Rightarrow> pg_db \<Rightarrow> TradeFilter \<Rightarrow> repo_error + (Trade list \<times> int64)" where
  "PgTradeRepo_FindAll plan fault db f =
     (case fault of
        Some m \<Rightarrow> Inl (ErrOther (''trade count: '' @ m))
      | None \<Rightarrow> find_page trade_col plan (trade_where f) (pgTrades db) (tfPage f) (tfPerPage f))"

definition PgTradeRepo_FindByStockCode ::
  "(Trade list \<Rightarrow> Trade list) \<Rightarrow> string option \<Rightarrow> pg_db \<Rightarrow> string \<Rightarrow> int64 \<Rightarrow> repo_error + Trade list" where
  "PgTradeRepo_FindByStockCode plan fault db code limit =
     (let limit = (if limit \<le> 0 then 20 else limit)
      in case fault of
           Some m \<Rightarrow> Inl (ErrOther (''trade find by stock: '' @ m))
         | None \<Rightarrow> Inr (take (nat limit) (plan (filter (\<lambda>t. tStockCode t = code) (pgTrades db)))))"

section \<open>A batch of the database worker\<close>

text \<open>
  The statements of one batch run in an implicit transaction: the first that fails undoes all.
  \<open>ON CONFLICT DO NOTHING\<close> is decided before the foreign keys are checked.
\<close>

fun exec_pg :: "stmt \<Rightarrow> pg_db \<Rightarrow> pg_db option" where
  "exec_pg (UpsertOrder x) db =
     (case insert_order db x of
        Inr db' \<Rightarrow> Some db'
      | Inl e \<Rightarrow> if isDuplicateKey e then Some (snd (PgOrderRepo_Update None db x)) else None)"
| "exec_pg (InsertTrade x) db =
     (case insert_trade db x of
        Inr db' \<Rightarrow> Some db'
      | Inl e \<Rightarrow> if isDuplicateKey e then Some db else None)"

fun exec_batch :: "stmt list \<Rightarrow> pg_db \<Rightarrow> pg_db option" where
  "exec_batch [] db = Some db"
| "exec_batch (s # ss) db = (case exec_pg s db of None \<Rightarrow> None | Some db' \<Rightarrow> exec_batch ss db')"

definition pg_SendBatch :: "pg_db \<Rightarrow> stmt list \<Rightarrow> bool \<times> pg_db" where
  "pg_SendBatch db ss = (case exec_batch ss db of None \<Rightarrow> (False, db) | Some db' \<Rightarrow> (True, db'))"

section \<open>The schema's invariant\<close>

definition pg_wf :: "pg_db \<Rightarrow> bool" where
  "pg_wf db \<longleftrightarrow>
     distinct (map oID (pgOrders db)) \<and> distinct (map tID (pgTrades db)) \<and>
     distinct (map uID (pgUsers db)) \<and> distinct (map uUsername (pgUsers db)) \<and>
     (\<forall>t\<in>set (pgTrades db). has_order db (tBuyOrderID t) \<and> has_order db (tSellOrderID t))"

lemma map_oID_update [simp]: "(\<And>x. oID (g x) = oID x) \<Longrightarrow> map oID (map g xs) = map oID xs"
  by (simp add: comp_def)

lemma update_oIDs:
  "map (\<lambda>row. oID (if oID row = i then row\<lparr>oFilledQuantity := q, oStatus := s, oUpdatedAt := u\<rparr> else row)) xs = map oID xs"
  by (induction xs) auto

lemma PgOrderRepo_Update_rows:
  "map oID (pgOrders (snd (PgOrderRepo_Update fault db x))) = map oID (pgOrders db) \<and>
   pgTrades (snd (PgOrderRepo_Update fault db x)) = pgTrades db \<and> pgUsers (snd (PgOrderRepo_Update fault db x)) = pgUsers db"
  using update_oIDs by (auto simp: PgOrderRepo_Update_def comp_def split: option.splits)

lemma has_order_oIDs: "map oID (pgOrders db') = map oID (pgOrders db) \<Longrightarrow> has_order db' i = has_order db i"
  by (metis has_order_def list.set_map)

lemma PgOrderRepo_Update_wf: "pg_wf db \<Longrightarrow> pg_wf (snd (PgOrderRepo_Update fault db x))"
  using PgOrderRepo_Update_rows [of fault db x] has_order_oIDs [of "snd (PgOrderRepo_Update fault db x)" db]
  by (simp add: pg_wf_def)

lemma insert_order_wf: "pg_wf db \<Longrightarrow> insert_order db x = Inr db' \<Longrightarrow> pg_wf db'"
  by (auto simp: insert_order_def pg_wf_def has_order_def split: if_splits)

lemma insert_trade_wf: "pg_wf db \<Longrightarrow> insert_trade db x = Inr db' \<Longrightarrow> pg_wf db'"
  by (auto simp: insert_trade_def pg_wf_def has_order_def pg_trade_def split: if_splits)

lemma insert_user_wf: "pg_wf db \<Longrightarrow> insert_user db u = Inr db' \<Longrightarrow> pg_wf db'"
  by (auto simp: insert_user_def pg_wf_def has_order_def split: if_splits)

lemma exec_pg_wf: "pg_wf db \<Longrightarrow> exec_pg s db = Some db' \<Longrightarrow> pg_wf db'"
  by (cases s) (auto split: sum.splits if_splits intro: insert_order_wf insert_trade_wf PgOrderRepo_Update_wf)

lemma exec_batch_wf: "pg_wf db \<Longrightarrow> exec_batch ss db = Some db' \<Longrightarrow> pg_wf db'"
  by (induction ss arbitrary: db) (auto split: option.splits dest: exec_pg_wf)

section \<open>The order repository implements its contract\<close>

definition order_ok :: "Order \<Rightarrow> bool" where "order_ok x \<longleftrightarrow> uuid_ok (oID x) \<and> order_fits x"

definition update_ok :: "Order \<Rightarrow> bool" where "update_ok x \<longleftrightarrow> uuid_ok (oID x) \<and> length (oStatus x) \<le> 20"

lemma find_oID_None: "find (\<lambda>x. oID x = i) xs = None \<longleftrightarrow> i \<notin> oID ` set xs"
  by (auto simp: find_None_iff)

lemma find_update:
  "find (\<lambda>x. oID x = i) (map (\<lambda>row. if oID row = j then row\<lparr>oFilledQuantity := q, oStatus := s, oUpdatedAt := u\<rparr> else row) xs) =
     (if i = j then map_option (\<lambda>row. row\<lparr>oFilledQuantity := q, oStatus := s, oUpdatedAt := u\<rparr>) (find (\<lambda>x. oID x = i) xs)
      else find (\<lambda>x. oID x = i) xs)"
  by (induction xs) auto

lemma find_snoc: "find P (xs @ [x]) = (case find P xs of None \<Rightarrow> if P x then Some x else None | Some y \<Rightarrow> Some y)"
  by (induction xs) auto

interpretation pg_orders: order_repository "PgOrderRepo_Save None" "PgOrderRepo_FindByID None"
  "\<lambda>_. PgOrderRepo_Update None" pg_wf order_ok update_ok uuid_ok pg_order "\<lambda>_ x. pg_time (oUpdatedAt x)"
proof (unfold_locales, goal_cases)
  case (1 r i e)
  then show ?case by (auto simp: PgOrderRepo_FindByID_def split: option.splits)
next
  case (2 r i o0)
  then show ?case by (auto simp: PgOrderRepo_FindByID_def find_Some_iff split: option.splits)
next
  case (3 ord)
  then show ?case by (simp add: order_ok_def)
next
  case (4 ord)
  then show ?case by (simp add: update_ok_def)
next
  case (5 r ord i)
  then have "\<not> has_order r (oID ord)"
    by (auto simp: PgOrderRepo_FindByID_def has_order_def order_ok_def find_None_iff split: option.splits if_splits)
  then have run: "PgOrderRepo_Save None r ord = (None, r\<lparr>pgOrders := pgOrders r @ [pg_order ord]\<rparr>)"
    using 5 by (simp add: PgOrderRepo_Save_def saved_def insert_order_def order_ok_def)
  have "insert_order r ord = Inr (r\<lparr>pgOrders := pgOrders r @ [pg_order ord]\<rparr>)"
    using 5 \<open>\<not> has_order r (oID ord)\<close> by (simp add: insert_order_def order_ok_def)
  then have "pg_wf (r\<lparr>pgOrders := pgOrders r @ [pg_order ord]\<rparr>)" using insert_order_wf 5(1) by blast
  moreover have "find (\<lambda>x. oID x = oID ord) (pgOrders r) = None"
    using \<open>\<not> has_order r (oID ord)\<close> by (simp add: find_oID_None has_order_def)
  ultimately show ?case
    by (auto simp: run PgOrderRepo_FindByID_def find_snoc split: option.splits)
next
  case (6 r ord o0)
  then have "find (\<lambda>x. oID x = oID ord) (pgOrders r) \<noteq> None" "order_ok ord"
    by (auto simp: PgOrderRepo_FindByID_def split: option.splits if_splits)
  then have "has_order r (oID ord)" by (simp only: find_oID_None has_order_def) simp
  then show ?case
    using \<open>order_ok ord\<close> by (simp add: PgOrderRepo_Save_def saved_def insert_order_def order_ok_def isDuplicateKey_def)
next
  case (7 r ord)
  then show ?case by (auto simp: PgOrderRepo_Save_def saved_def insert_order_def order_ok_def)
next
  case (8 r ord o0 now i)
  have f: "find (\<lambda>x. oID x = oID ord) (pgOrders r) = Some o0"
    using 8 by (auto simp: PgOrderRepo_FindByID_def split: option.splits if_splits)
  then have h: "has_order r (oID ord)" using find_oID_None [of "oID ord" "pgOrders r"] by (auto simp: has_order_def)
  show ?case using PgOrderRepo_Update_wf [OF 8(1), of None ord] 8(2) f h
    by (auto simp: PgOrderRepo_Update_def update_ok_def PgOrderRepo_FindByID_def find_update split: option.splits)
next
  case (9 r ord now)
  then have "\<not> has_order r (oID ord)"
    by (auto simp: PgOrderRepo_FindByID_def has_order_def update_ok_def find_None_iff split: option.splits if_splits)
  then show ?case using 9 by (simp add: PgOrderRepo_Update_def update_ok_def)
next
  case (10 r ord now)
  then show ?case by (auto simp: PgOrderRepo_Update_def update_ok_def)
qed

section \<open>Queries\<close>

text \<open>
  The conditions and their parameters select what the in-memory repository selects, also with the
  two parameters of the page appended.
\<close>

lemma order_where_select:
  "order_where f = (conds, args, n) \<Longrightarrow> select order_col (conds, args @ extra, n) rows = filter (order_matches f) rows"
  by (cases "ofStockCode f = []"; cases "ofStatus f = []"; cases "ofUserID f = []")
    (auto simp: order_where_def add_cond_def select_def order_matches_def nth_append intro!: filter_cong)

lemma trade_where_select:
  "trade_where f = (conds, args, n) \<Longrightarrow> select trade_col (conds, args @ extra, n) rows = filter (trade_matches f) rows"
  by (cases "tfStockCode f = []"; cases "tfUserID f = []")
    (auto simp: trade_where_def add_cond_def select_def trade_matches_def nth_append intro!: filter_cong)

lemma order_where_count: "order_where f = (conds, args, n) \<Longrightarrow> n = length args + 1"
  by (auto simp: order_where_def add_cond_def split: if_splits)

lemma trade_where_count: "trade_where f = (conds, args, n) \<Longrightarrow> n = length args + 1"
  by (auto simp: trade_where_def add_cond_def split: if_splits)

lemma find_page_spec:
  assumes sel: "\<And>extra. select col (conds, args @ extra, n) rows = matched" and n: "n = length args + 1"
    and p: "page' = (if page \<le> 0 then 1 else page)" "per' = (if perPage \<le> 0 then 20 else perPage)"
  shows "find_page col plan (conds, args, n) rows page perPage =
    (if mul64 (page' - 1) per' < 0 then Inl (ErrOther ''find all: '')
     else Inr (take (nat per') (drop (nat (mul64 (page' - 1) per')) (plan matched)), int (length matched)))"
  using sel [of "[]"] sel n p by (simp add: find_page_def limit_offset_def nth_append Let_def)

lemma PgOrderRepo_FindAll_page:
  assumes "1 \<le> ofPage f" and "1 \<le> ofPerPage f" and "in64 (ofPage f * ofPerPage f)"
  shows "PgOrderRepo_FindAll plan None db f =
    Inr (take (nat (ofPerPage f)) (drop (nat ((ofPage f - 1) * ofPerPage f)) (plan (filter (order_matches f) (pgOrders db)))),
         int (length (filter (order_matches f) (pgOrders db))))"
proof -
  obtain conds args n where w: "order_where f = (conds, args, n)" by (metis prod_cases3)
  have nn: "0 \<le> (ofPage f - 1) * ofPerPage f" using assms(1,2) by simp
  have "(ofPage f - 1) * ofPerPage f \<le> ofPage f * ofPerPage f" using assms(2) by (simp add: algebra_simps)
  then have "mul64 (ofPage f - 1) (ofPerPage f) = (ofPage f - 1) * ofPerPage f"
    by (intro mul64_id in64_nonneg [OF nn _ assms(3)])
  moreover have "\<not> (ofPage f - 1) * ofPerPage f < 0" using nn by (rule leD)
  ultimately show ?thesis
    using find_page_spec [OF order_where_select [OF w] order_where_count [OF w] refl refl,
        of plan "pgOrders db" "ofPage f" "ofPerPage f"] assms(1,2)
    by (simp only: PgOrderRepo_FindAll_def w option.case if_False) simp
qed

section \<open>The worker's batches on this database\<close>

definition tables_of :: "pg_db \<Rightarrow> tables" where
  "tables_of db =
     \<lparr>tbOrders = map_of (map (\<lambda>x. (oID x, x)) (pgOrders db)), tbTrades = map_of (map (\<lambda>x. (tID x, x)) (pgTrades db))\<rparr>"

lemma map_of_oID_None: "map_of (map (\<lambda>x. (oID x, x)) xs) i = None \<longleftrightarrow> i \<notin> oID ` set xs"
  by (auto simp: map_of_eq_None_iff image_image)

lemma map_of_update:
  "map_of (map (\<lambda>x. (oID x, x)) (map (\<lambda>row. if oID row = j then row\<lparr>oFilledQuantity := q, oStatus := s, oUpdatedAt := u\<rparr> else row) xs)) i =
     (if i = j then map_option (\<lambda>row. row\<lparr>oFilledQuantity := q, oStatus := s, oUpdatedAt := u\<rparr>) (map_of (map (\<lambda>x. (oID x, x)) xs) i)
      else map_of (map (\<lambda>x. (oID x, x)) xs) i)"
  by (induction xs) auto

lemma exec_pg_tables: "exec_pg st db = Some db' \<Longrightarrow> tables_of db' = exec_stmt st (tables_of db)"
proof (cases st)
  case (UpsertOrder x)
  assume a: "exec_pg st db = Some db'"
  then have ok: "uuid_ok (oID x)" "order_fits x"
    by (auto simp: UpsertOrder insert_order_def isDuplicateKey_def split: if_splits)
  show ?thesis
  proof (cases "has_order db (oID x)")
    case True
    then have "db' = snd (PgOrderRepo_Update None db x)"
      using a ok by (simp add: UpsertOrder insert_order_def isDuplicateKey_def)
    then have "pgOrders db' = map (\<lambda>row. if oID row = oID x then row\<lparr>oFilledQuantity := oFilledQuantity x, oStatus := oStatus x,
        oUpdatedAt := pg_time (oUpdatedAt x)\<rparr> else row) (pgOrders db)" "pgTrades db' = pgTrades db"
      using ok True by (simp_all add: PgOrderRepo_Update_def order_fits_def)
    moreover obtain row where "map_of (map (\<lambda>x. (oID x, x)) (pgOrders db)) (oID x) = Some row"
      using True map_of_oID_None [of "pgOrders db" "oID x"] by (auto simp: has_order_def)
    ultimately show ?thesis by (auto simp: UpsertOrder tables_of_def map_of_update fun_eq_iff simp del: map_map)
  next
    case False
    then have "db' = db\<lparr>pgOrders := pgOrders db @ [pg_order x]\<rparr>" using a ok by (simp add: UpsertOrder insert_order_def)
    moreover have none: "map_of (map (\<lambda>x. (oID x, x)) (pgOrders db)) (oID x) = None"
      using False by (simp add: map_of_oID_None has_order_def)
    ultimately show ?thesis by (auto simp: UpsertOrder tables_of_def fun_eq_iff map_add_def split: option.split)
  qed
next
  case (InsertTrade x)
  assume a: "exec_pg st db = Some db'"
  have none: "map_of (map (\<lambda>x. (tID x, x)) (pgTrades db)) (tID x) = None \<longleftrightarrow> tID x \<notin> tID ` set (pgTrades db)"
    by (auto simp: map_of_eq_None_iff image_image)
  show ?thesis
  proof (cases "tID x \<in> tID ` set (pgTrades db)")
    case True
    then have "db' = db" using a by (auto simp: InsertTrade insert_trade_def isDuplicateKey_def split: if_splits)
    then show ?thesis using True none by (auto simp: InsertTrade tables_of_def)
  next
    case False
    then have "db' = db\<lparr>pgTrades := pgTrades db @ [pg_trade x]\<rparr>"
      using a by (auto simp: InsertTrade insert_trade_def isDuplicateKey_def split: if_splits)
    then show ?thesis using False none by (auto simp: InsertTrade tables_of_def fun_eq_iff map_add_def split: option.split)
  qed
qed

lemma exec_batch_tables: "exec_batch ss db = Some db' \<Longrightarrow> tables_of db' = exec_all ss (tables_of db)"
proof (induction ss arbitrary: db)
  case (Cons s ss)
  obtain db1 where "exec_pg s db = Some db1" "exec_batch ss db1 = Some db'" using Cons.prems by (auto split: option.splits)
  then show ?case using Cons.IH exec_pg_tables [of s db db1] by (simp add: exec_all_def)
qed (simp add: exec_all_def)

lemma pg_SendBatch_atomic: "atomic_batches pg_SendBatch tables_of"
  using exec_batch_tables by (auto simp: atomic_batches_def pg_SendBatch_def split: option.splits)

text \<open>
  A trade written before the row of one of its orders violates the foreign key, whatever follows
  it in the batch: every attempt fails.
\<close>

lemma fk_blocks:
  assumes "exec_batch pre db = Some db1" and "\<not> has_order db1 (tBuyOrderID t) \<or> \<not> has_order db1 (tSellOrderID t)"
    and "tID t \<notin> tID ` set (pgTrades db1)"
  shows "exec_batch (pre @ InsertTrade t # post) db = None"
  using assms
proof (induction pre arbitrary: db)
  case Nil
  then show ?case by (auto simp: insert_trade_def isDuplicateKey_def)
next
  case (Cons s pre)
  then show ?case by (auto split: option.splits)
qed

lemma retry_all_fail:
  assumes "exec_batch (statements ops) db = None"
  shows "\<exists>ws. retry_loop pg_SendBatch n retry b (Some db) ops = (False, Some db, ws)"
proof (induction n arbitrary: retry b)
  case (Suc n)
  have "statements ops \<noteq> []" using assms by auto
  then have "flush pg_SendBatch (Some db) ops = (False, Some db)" using assms by (simp add: flush_def pg_SendBatch_def)
  then show ?case using Suc.IH by (auto simp: Let_def) (metis (mono_tags, lifting) case_prod_conv)
qed simp

lemma flush_batch_all_fail:
  assumes "dwPool w = Some db" and "exec_batch (statements (dwBatch w)) db = None"
  shows "flush_batch pg_SendBatch w = w\<lparr>dwBatch := [], dwDropped := dwDropped w @ dwBatch w\<rparr>"
proof -
  obtain ws where "flushWithRetry pg_SendBatch (dwCfg w) (Some db) (dwBatch w) = (False, Some db, ws)"
    using retry_all_fail [OF assms(2)] unfolding flushWithRetry_def by blast
  moreover have "dwBatch w \<noteq> []" using assms(2) by (auto simp: statements_def List.map_filter_def)
  ultimately show ?thesis using assms(1) by (simp add: flush_batch_def)
qed

end
