(* ===== verification/Storage_Properties.thy ===== *)
theory Storage_Properties
  imports Postgres_Repos Validation
begin

text \<open>
  Properties that the two implementations of the order repository share, and those of the
  database worker on the PostgreSQL tables (src/internal/infra/storage, src/internal/worker).
\<close>

section \<open>Orders stay found\<close>

text \<open>
  C13: an order that a repository has accepted is found from then on with the same identity (user,
  stock, side, price, quantity, creation), whatever orders are saved and updated after it. Both
  implementations of the interface keep the promise; PostgreSQL keeps times in microseconds.
\<close>

theorem saved_orders_stay_found:
  assumes "or_wf r" and "OrderRepo_Save r ord = (None, r')"
    and "pg_wf db" and "PgOrderRepo_Save None db ord = (None, db')"
  shows "(\<exists>o1. OrderRepo_FindByID (foldl (\<lambda>r op. case op of SaveOp x \<Rightarrow> snd (OrderRepo_Save r x)
        | UpdateOp t x \<Rightarrow> snd (OrderRepo_Update t r x)) r' ops) (oID ord) = Inr o1 \<and> same_identity ord o1) \<and>
    (\<exists>o1. PgOrderRepo_FindByID None (foldl (\<lambda>db op. case op of SaveOp x \<Rightarrow> snd (PgOrderRepo_Save None db x)
        | UpdateOp t x \<Rightarrow> snd (PgOrderRepo_Update None db x)) db' ops) (oID ord) = Inr o1 \<and> same_identity (pg_order ord) o1)"
proof -
  have mem: "mem_orders.run_op = (\<lambda>r op. case op of SaveOp x \<Rightarrow> snd (OrderRepo_Save r x)
      | UpdateOp t x \<Rightarrow> snd (OrderRepo_Update t r x))"
    by (intro ext) (simp add: mem_orders.run_op_def split: repo_op.split)
  have pg: "pg_orders.run_op = (\<lambda>db op. case op of SaveOp x \<Rightarrow> snd (PgOrderRepo_Save None db x)
      | UpdateOp t x \<Rightarrow> snd (PgOrderRepo_Update None db x))"
    by (intro ext) (simp add: pg_orders.run_op_def split: repo_op.split)
  have "order_ok ord"
    using assms(4) by (auto simp: PgOrderRepo_Save_def saved_def insert_order_def order_ok_def split: if_splits)
  then show ?thesis
    using mem_orders.saved_found [OF assms(1) _ assms(2), of ops] pg_orders.saved_found [OF assms(3) _ assms(4), of ops]
    by (simp add: mem pg)
qed

definition stored_sample :: Order where
  "stored_sample = \<lparr>oID = ''00000000-0000-4000-8000-000000000001'', oUserID = ''ann'', oStockCode = ''BBCA'',
     oSide = ''BUY'', oPrice = 9500, oQuantity = 10, oFilledQuantity = 0, oStatus = ''OPEN'', oCreatedAt = 1500, oUpdatedAt = 1500\<rparr>"

definition empty_db :: pg_db where "empty_db = \<lparr>pgOrders = [], pgTrades = [], pgUsers = []\<rparr>"

lemma stored_sample_saved:
  "OrderRepo_Save NewOrderRepo stored_sample = (None, snd (OrderRepo_Save NewOrderRepo stored_sample))"
  "PgOrderRepo_Save None empty_db stored_sample = (None, snd (PgOrderRepo_Save None empty_db stored_sample))"
proof -
  have "uuid_ok (oID stored_sample) \<and> order_fits stored_sample" by code_simp
  then show "PgOrderRepo_Save None empty_db stored_sample = (None, snd (PgOrderRepo_Save None empty_db stored_sample))"
    by (simp add: PgOrderRepo_Save_def saved_def insert_order_def has_order_def empty_db_def)
qed (simp add: OrderRepo_Save_def NewOrderRepo_def Let_def)

theorem saved_orders_stay_found_witness:
  "\<exists>o1. OrderRepo_FindByID (snd (OrderRepo_Update 7 (snd (OrderRepo_Save NewOrderRepo stored_sample))
       (stored_sample\<lparr>oPrice := 1, oStatus := ''FILLED''\<rparr>))) (oID stored_sample) = Inr o1 \<and> same_identity stored_sample o1"
  using saved_orders_stay_found [OF or_wf_New stored_sample_saved(1) _ stored_sample_saved(2),
      of "[UpdateOp 7 (stored_sample\<lparr>oPrice := 1, oStatus := ''FILLED''\<rparr>)]"]
  by (simp add: pg_wf_def empty_db_def)

section \<open>Pages\<close>


definition all_orders :: OrderFilter where
  "all_orders = \<lparr>ofStockCode = [], ofStatus = [], ofUserID = [], ofPage = 0, ofPerPage = 0\<rparr>"


section \<open>The database worker\<close>

text \<open>
  Runs of the worker on the PostgreSQL tables, together with the list of the operations that
  \<open>Enqueue\<close> has accepted: enqueueing by the event handlers, the two kinds of turns of the loop of
  \<open>Start\<close>, and \<open>Stop\<close>.
\<close>

inductive db_reachable :: "pg_db \<Rightarrow> DBWorkerConfig \<Rightarrow> pg_db DBWorker \<Rightarrow> WriteOp list \<Rightarrow> bool" for db cfg where
  launch: "DBWorker_launch (Some db) cfg = Return w \<Longrightarrow> db_reachable db cfg w []"
| enqueue: "db_reachable db cfg w acc \<Longrightarrow> Enqueue seen w op = (err, w') \<Longrightarrow>
    db_reachable db cfg w' (if err = None then acc @ [op] else acc)"
| recv: "db_reachable db cfg w acc \<Longrightarrow> Start_recv pg_SendBatch w = Some w' \<Longrightarrow> db_reachable db cfg w' acc"
| tick: "db_reachable db cfg w acc \<Longrightarrow> Start_tick pg_SendBatch w = Some w' \<Longrightarrow> db_reachable db cfg w' acc"
| stop: "db_reachable db cfg w acc \<Longrightarrow> db_reachable db cfg (DBWorker_Stop w) acc"

definition db_inv :: "pg_db \<Rightarrow> pg_db DBWorker \<Rightarrow> WriteOp list \<Rightarrow> bool" where
  "db_inv db w acc \<longleftrightarrow>
     mset acc = received w + mset (chQueue (dwCh w)) \<and> dwPool w \<noteq> None \<and> written_ok tables_of (tables_of db) w"

lemma retry_pool: "retry_loop S n r b (Some c) ops = (ok, pool, ws) \<Longrightarrow> pool \<noteq> None"
  by (induction n arbitrary: r b c ok pool ws)
    (auto simp: flush_def Let_def split: prod.splits if_splits)

lemma flush_batch_inv:
  assumes "db_inv db w acc"
  shows "db_inv db (flush_batch pg_SendBatch w) acc"
proof -
  have "written_ok tables_of (tables_of db) (flush_batch pg_SendBatch w)"
    using flush_batch_written [OF pg_SendBatch_atomic] assms by (simp add: db_inv_def)
  moreover have "dwPool (flush_batch pg_SendBatch w) \<noteq> None"
    using assms retry_pool [of pg_SendBatch]
    by (auto simp: db_inv_def flush_batch_def flushWithRetry_def split: prod.splits)
  ultimately show ?thesis using assms by (simp add: db_inv_def)
qed

lemma db_inv_frame:
  "db_inv db w acc \<Longrightarrow> received w' + mset (chQueue (dwCh w')) = received w + mset (chQueue (dwCh w)) \<Longrightarrow>
   dwPool w' = dwPool w \<Longrightarrow> dwFlushed w' = dwFlushed w \<Longrightarrow> db_inv db w' acc"
  by (simp add: db_inv_def written_ok_def)

lemma db_inv_recv:
  assumes inv: "db_inv db w acc" and recv: "Start_recv pg_SendBatch w = Some w'"
  shows "db_inv db w' acc"
proof (cases "chQueue (dwCh w)")
  case Nil
  then have "w' = (flush_batch pg_SendBatch w)\<lparr>dwExited := True\<rparr>"
    using recv by (auto simp: Start_recv_def split: if_splits)
  then show ?thesis using db_inv_frame [OF flush_batch_inv [OF inv]] by (simp add: received_def)
next
  case (Cons op rest)
  define w1 where "w1 = w\<lparr>dwCh := (dwCh w)\<lparr>chQueue := rest\<rparr>, dwBatch := dwBatch w @ [op]\<rparr>"
  have w1: "db_inv db w1 acc" by (rule db_inv_frame [OF inv]) (simp_all add: w1_def received_def Cons)
  have "w' = flush_batch pg_SendBatch w1 \<or> w' = w1"
    using recv Cons by (auto simp: Start_recv_def w1_def Let_def split: if_splits)
  then show ?thesis using w1 flush_batch_inv [OF w1] by blast
qed

lemma db_reachable_inv: "db_reachable db cfg w acc \<Longrightarrow> db_inv db w acc"
proof (induction rule: db_reachable.induct)
  case (launch w)
  then show ?case
    by (auto simp: DBWorker_launch_def NewDBWorker_def new_channel_def db_inv_def received_def written_ok_def statements_def
        List.map_filter_def exec_all_def split: if_splits)
next
  case (enqueue w acc seen op err w')
  then show ?case
    by (auto simp: Enqueue_def try_send_def db_inv_def received_def written_ok_def split: if_splits)
next
  case (recv w acc w')
  then show ?case by (blast intro: db_inv_recv)
next
  case (tick w acc w')
  then show ?case using flush_batch_inv by (auto simp: Start_tick_def split: if_splits)
next
  case (stop w acc)
  show ?case by (rule db_inv_frame [OF stop.IH]) (simp_all add: DBWorker_Stop_def received_def)
qed

lemma db_reachable_turns:
  "recv_turns pg_SendBatch n w = Some w' \<Longrightarrow> db_reachable db cfg w acc \<Longrightarrow> db_reachable db cfg w' acc"
proof (induction n arbitrary: w)
  case (Suc n)
  then show ?case by (auto split: option.splits intro: db_reachable.recv)
qed simp

text \<open>
  C11: when the worker is stopped, its loop ends after one turn for each queued operation and one
  more, and by then every operation that was ever accepted has been written or belongs to a batch
  that was given up after all retries. The tables are those that result from executing the written
  operations in order, batch by batch, on the initial ones.
\<close>

theorem stopped_worker_accounts_for_every_write:
  assumes "db_reachable db cfg w acc" and "w1 = DBWorker_Stop w" and "\<not> dwExited w"
  shows "\<exists>w' db'. recv_turns pg_SendBatch (Suc (length (chQueue (dwCh w1)))) w1 = Some w' \<and> dwExited w' \<and>
    mset acc = mset (dwFlushed w') + mset (dwDropped w') \<and>
    dwPool w' = Some db' \<and> tables_of db' = exec_all (statements (dwFlushed w')) (tables_of db) \<and>
    (dwDropped w' = dwDropped w \<longrightarrow> dwFlushed w' = dwFlushed w @ dwBatch w @ chQueue (dwCh w))"
proof -
  have w1: "\<not> dwExited w1" "chClosed (dwCh w1)" "chQueue (dwCh w1) = chQueue (dwCh w)" "dwDropped w1 = dwDropped w"
    "dwFlushed w1 = dwFlushed w" "dwBatch w1 = dwBatch w"
    using assms(2,3) by (simp_all add: DBWorker_Stop_def)
  obtain w' where run: "recv_turns pg_SendBatch (Suc (length (chQueue (dwCh w1)))) w1 = Some w'"
    and w': "dwExited w'" "chQueue (dwCh w') = []" "dwBatch w' = []"
      "dwDropped w' = dwDropped w1 \<longrightarrow> dwFlushed w' = dwFlushed w1 @ dwBatch w1 @ chQueue (dwCh w1)"
    using recv_turns_drain [OF w1(1,2), of pg_SendBatch] by blast
  have "db_reachable db cfg w1 acc" unfolding assms(2) by (rule db_reachable.stop [OF assms(1)])
  then have inv: "db_inv db w' acc" by (rule db_reachable_inv [OF db_reachable_turns [OF run]])
  then obtain db' where db': "dwPool w' = Some db'" by (auto simp: db_inv_def)
  have "mset acc = mset (dwFlushed w') + mset (dwDropped w')" using inv w' by (simp add: db_inv_def received_def)
  moreover have "tables_of db' = exec_all (statements (dwFlushed w')) (tables_of db)"
    using inv db' by (simp add: db_inv_def written_ok_def)
  ultimately show ?thesis using run w'(1,4) db' unfolding w1(4-6) by (metis w1(3))
qed

theorem stopped_worker_accounts_for_every_write_witness:
  "\<exists>w' db'. recv_turns pg_SendBatch 2 (DBWorker_Stop (snd (Enqueue False (NewDBWorker (Some empty_db) DefaultDBWorkerConfig)
       \<lparr>opType = OpOrderSave, opPayload = WOrder stored_sample\<rparr>))) = Some w' \<and> dwExited w' \<and>
     {#\<lparr>opType = OpOrderSave, opPayload = WOrder stored_sample\<rparr>#} = mset (dwFlushed w') + mset (dwDropped w') \<and>
     dwPool w' = Some db' \<and> tables_of db' = exec_all (statements (dwFlushed w')) (tables_of empty_db)"
proof -
  let ?op = "\<lparr>opType = OpOrderSave, opPayload = WOrder stored_sample\<rparr>"
  let ?fresh = "NewDBWorker (Some empty_db) DefaultDBWorkerConfig"
  let ?w = "snd (Enqueue False ?fresh ?op)"
  have "DBWorker_launch (Some empty_db) DefaultDBWorkerConfig = Return ?fresh"
    by (simp add: DBWorker_launch_def DefaultDBWorkerConfig_def)
  note r0 = db_reachable.launch [OF this]
  have enq: "Enqueue False ?fresh ?op = (None, ?w)"
    by (simp add: Enqueue_def NewDBWorker_def DefaultDBWorkerConfig_def try_send_def new_channel_def)
  have r: "db_reachable empty_db DefaultDBWorkerConfig ?w [?op]"
    using db_reachable.enqueue [OF r0 enq] by simp
  have q: "chQueue (dwCh (DBWorker_Stop ?w)) = [?op]" "\<not> dwExited ?w"
    by (simp_all add: Enqueue_def NewDBWorker_def DefaultDBWorkerConfig_def try_send_def new_channel_def DBWorker_Stop_def)
  show ?thesis
    using stopped_worker_accounts_for_every_write [OF r refl q(2)] unfolding q(1)
    by (auto simp: numeral_2_eq_2 simp del: recv_turns.simps)
qed

end
