(* ===== verification/Partition.thy ===== *)
theory Partition
  imports Entities "HOL-Library.Word"
begin

unbundle bit_operations_syntax

text \<open>
  Consistent-hash partitioning of the stocks over the instances of a cluster
  (src/pkg/partition/partitioner.go) and the router in front of the matching engine
  (src/internal/partition/router.go). The hash is the standard library's 64-bit FNV-1a, on
  machine words. The engine and the NATS publisher are parameters of the router.
\<close>

section \<open>The hash\<close>

definition fnv_offset64 :: "64 word" where "fnv_offset64 = 14695981039346656037"

definition fnv_prime64 :: "64 word" where "fnv_prime64 = 1099511628211"

definition fnv64a :: "string \<Rightarrow> 64 word" where
  "fnv64a bytes = fold (\<lambda>c h. (h XOR of_char c) * fnv_prime64) bytes fnv_offset64"

section \<open>Partitioner\<close>

record Partitioner =
  instanceIndex :: int64
  totalInstances :: int64

datatype partition_error = ErrTotalInstances int64 | ErrInstanceIndex int64 int64

definition New :: "int64 \<Rightarrow> int64 \<Rightarrow> partition_error + Partitioner" where
  "New idx tot =
     (if tot < 1 then Inl (ErrTotalInstances tot)
      else if idx < 0 \<or> idx \<ge> tot then Inl (ErrInstanceIndex idx tot)
      else Inr \<lparr>instanceIndex = idx, totalInstances = tot\<rparr>)"

definition OwnerIndex :: "string \<Rightarrow> int64 \<Rightarrow> int64" where
  "OwnerIndex stock tot =
     (if tot \<le> 0 then 0 else wrap64 (uint (fnv64a stock mod word_of_int tot)))"

definition OwnsStock :: "Partitioner \<Rightarrow> string \<Rightarrow> bool" where
  "OwnsStock p stock \<longleftrightarrow> OwnerIndex stock (totalInstances p) = instanceIndex p"

text \<open>Go compares strings bytewise.\<close>

fun str_less :: "string \<Rightarrow> string \<Rightarrow> bool" where
  "str_less _ [] = False"
| "str_less [] (c # cs) = True"
| "str_less (c # cs) (d # ds) =
     ((of_char c :: nat) < of_char d \<or> c = d \<and> str_less cs ds)"

definition OwnedStocks :: "Partitioner \<Rightarrow> string list \<Rightarrow> string list" where
  "OwnedStocks p allStocks = SliceStable str_less (filter (OwnsStock p) allStocks)"

section \<open>Router\<close>

text \<open>The engine and the publisher act on the world \<open>'w\<close>; \<open>'e\<close> are their errors.\<close>

record ('w, 'e) Router =
  rtLocal :: "'w \<Rightarrow> Order \<Rightarrow> 'e option \<times> 'w"
  rtPublish :: "'w \<Rightarrow> string \<Rightarrow> Order \<Rightarrow> 'e option \<times> 'w"
  rtPartitioner :: Partitioner

datatype 'e route_error = LocalError 'e | ForwardError string 'e

definition NewRouter where
  "NewRouter local publisher p = \<lparr>rtLocal = local, rtPublish = publisher, rtPartitioner = p\<rparr>"

definition engine_subject :: "string \<Rightarrow> string" where
  "engine_subject code = ''engine.orders.'' @ code"

definition Router_SubmitOrder :: "('w, 'e) Router \<Rightarrow> 'w \<Rightarrow> Order \<Rightarrow> 'e route_error option \<times> 'w" where
  "Router_SubmitOrder r w ord =
     (if OwnsStock (rtPartitioner r) (oStockCode ord)
      then (let (err, w) = rtLocal r w ord in (map_option LocalError err, w))
      else (let subject = engine_subject (oStockCode ord); (err, w) = rtPublish r w subject ord
            in (map_option (ForwardError subject) err, w)))"

definition Router_OwnsStock :: "('w, 'e) Router \<Rightarrow> string \<Rightarrow> bool" where
  "Router_OwnsStock r stock = OwnsStock (rtPartitioner r) stock"

section \<open>Every stock has one owner\<close>

lemma OwnerIndex_range:
  assumes "1 \<le> tot" and "in64 tot"
  shows "0 \<le> OwnerIndex stock tot \<and> OwnerIndex stock tot < tot"
proof -
  have t: "uint (word_of_int tot :: 64 word) = tot"
    using assms by (simp add: uint_word_of_int in64_def)
  have "uint (fnv64a stock mod word_of_int tot) = uint (fnv64a stock) mod tot"
    by (simp add: uint_mod t)
  moreover have "0 \<le> uint (fnv64a stock) mod tot" "uint (fnv64a stock) mod tot < tot"
    using assms by simp_all
  moreover have "in64 (uint (fnv64a stock) mod tot)"
    using calculation assms(2) by (simp add: in64_def)
  ultimately show ?thesis using assms(1) by (simp add: OwnerIndex_def wrap64_id)
qed

lemma New_ok: "New idx tot = Inr p \<longleftrightarrow>
    1 \<le> tot \<and> 0 \<le> idx \<and> idx < tot \<and> p = \<lparr>instanceIndex = idx, totalInstances = tot\<rparr>"
  by (auto simp: New_def)

lemma mset_insert_stable [simp]: "mset (insert_stable lt x xs) = add_mset x (mset xs)"
  by (induction xs) auto

lemma mset_SliceStable [simp]: "mset (SliceStable lt xs) = mset xs"
proof -
  have "mset (foldr (insert_stable lt) xs ys) = mset xs + mset ys" for ys
    by (induction xs) auto
  then show ?thesis by (simp add: SliceStable_def)
qed

lemma set_SliceStable [simp]: "set (SliceStable lt xs) = set xs"
  by (metis mset_SliceStable set_mset_mset)

definition instance_of :: "int64 \<Rightarrow> nat \<Rightarrow> Partitioner" where
  "instance_of tot i = \<lparr>instanceIndex = int i, totalInstances = tot\<rparr>"

lemma unique_owner:
  assumes "1 \<le> tot" and "in64 tot"
  shows "\<exists>!i. i < nat tot \<and> OwnsStock (instance_of tot i) stock"
proof -
  note R = OwnerIndex_range [OF assms, of stock]
  show ?thesis
  proof (rule ex1I [of _ "nat (OwnerIndex stock tot)"])
    show "nat (OwnerIndex stock tot) < nat tot \<and>
        OwnsStock (instance_of tot (nat (OwnerIndex stock tot))) stock"
      using R assms(1) by (simp add: OwnsStock_def instance_of_def nat_less_iff)
  qed (use R in \<open>auto simp: OwnsStock_def instance_of_def\<close>)
qed

lemma sum_mset_filter_partition:
  fixes n :: nat
  assumes "\<And>x. \<exists>!i. i < n \<and> P i x"
  shows "(\<Sum>i<n. mset (filter (P i) xs)) = mset xs"
proof (induction xs)
  case Nil
  then show ?case by simp
next
  case (Cons x xs)
  obtain k where k: "k < n" "P k x" "\<And>i. i < n \<Longrightarrow> P i x \<Longrightarrow> i = k" using assms [of x] by blast
  have iff: "P i x \<longleftrightarrow> i = k" if "i < n" for i using k that by blast
  have "mset (filter (P i) (x # xs)) = (if i = k then {#x#} else {#}) + mset (filter (P i) xs)" if "i < n" for i
    using iff [OF that] by simp
  then have "(\<Sum>i<n. mset (filter (P i) (x # xs))) =
      (\<Sum>i<n. (if i = k then {#x#} else {#}) + mset (filter (P i) xs))"
    by (intro sum.cong) auto
  also have "\<dots> = {#x#} + mset xs"
    using k(1) Cons.IH by (simp add: sum.distrib)
  finally show ?case by simp
qed

lemma owned_stocks_partition:
  assumes "1 \<le> tot" and "in64 tot"
  shows "(\<Sum>i<nat tot. mset (OwnedStocks (instance_of tot i) stocks)) = mset stocks"
  unfolding OwnedStocks_def mset_SliceStable
  by (rule sum_mset_filter_partition) (rule unique_owner [OF assms])

end
