(* ===== verification/Wire_Data.thy ===== *)
theory Wire_Data
  imports Entities
begin

text \<open>
  The JSON documents the server sends to WebSocket clients, NATS and Redis, each given by the value
  it encodes. A document is written when it is marshalled: an order pointer is read at that moment.
\<close>

datatype wire_data = JOrder Order | JTrade Trade | JTicker Ticker | JBook OrderBook

definition Marshal :: "(addr \<Rightarrow> Order) \<Rightarrow> payload \<Rightarrow> wire_data" where
  "Marshal heap p =
     (case p of POrder a \<Rightarrow> JOrder (heap a) | PTrade t \<Rightarrow> JTrade t | PTicker t \<Rightarrow> JTicker t | PBook b \<Rightarrow> JBook b)"

end
