(* ===== verification/WsHub.thy ===== *)
theory WsHub
  imports Middleware Wire_Data
begin

text \<open>
  The WebSocket hub and its clients (src/internal/transport/ws). One goroutine owns the hub's
  state and serves one request at a time; a client is a pointer, here an address, with its fixed
  user and IP address and its outbound channel, which only the hub writes to and closes.
\<close>

section \<open>Messages\<close>

record ClientMessage =
  cmAction :: string
  cmChannel :: string
  cmStock :: string

record ServerMessage =
  smType :: string
  smChannel :: string
  smStock :: string
  smData :: "wire_data option"
  smMessage :: string

record Subscription =
  sbChannel :: string
  sbStock :: string

definition server_message :: "string \<Rightarrow> string \<Rightarrow> string \<Rightarrow> wire_data option \<Rightarrow> string \<Rightarrow> ServerMessage" where
  "server_message t c s d m =
     \<lparr>smType = t, smChannel = c, smStock = s, smData = d, smMessage = m\<rparr>"

definition error_message :: "string \<Rightarrow> ServerMessage" where
  "error_message m = server_message ''error'' [] [] None m"

section \<open>The hub\<close>

definition MaxTotalConnections :: nat where "MaxTotalConnections = 1000"
definition MaxConnPerIP :: int64 where "MaxConnPerIP = 10"
definition MaxSubsPerClient :: nat where "MaxSubsPerClient = 20"
definition clientSendCap :: nat where "clientSendCap = 256"

text \<open>
  A Go map from subscriptions to sets of clients reads as empty where it has no entry, so the
  maps to sets are total functions; \<open>ipCount\<close> reads as zero.
\<close>

record Hub =
  hbClients :: "addr set"
  hbSubs :: "Subscription \<Rightarrow> addr set"
  hbClientSubs :: "addr \<Rightarrow> Subscription set"
  hbIpCount :: "string \<Rightarrow> int64"
  hbSend :: "addr \<Rightarrow> ServerMessage channel"

record client_info =
  ciUser :: string
  ciIp :: string

definition NewHub :: Hub where
  "NewHub = \<lparr>hbClients = {}, hbSubs = (\<lambda>_. {}), hbClientSubs = (\<lambda>_. {}), hbIpCount = (\<lambda>_. 0),
             hbSend = (\<lambda>_. new_channel)\<rparr>"

definition sendJSON :: "Hub \<Rightarrow> addr \<Rightarrow> ServerMessage \<Rightarrow> Hub outcome" where
  "sendJSON h c msg =
     (case try_send clientSendCap (hbSend h c) msg of
        (SendPanic, ch) \<Rightarrow> Panic
      | (_, ch) \<Rightarrow> Return (h\<lparr>hbSend := (hbSend h)(c := ch)\<rparr>))"

text \<open>Closing a channel twice panics.\<close>

definition close_send :: "Hub \<Rightarrow> addr \<Rightarrow> Hub outcome" where
  "close_send h c =
     (if chClosed (hbSend h c) then Panic
      else Return (h\<lparr>hbSend := (hbSend h)(c := (hbSend h c)\<lparr>chClosed := True\<rparr>)\<rparr>))"

definition then_do :: "'a outcome \<Rightarrow> ('a \<Rightarrow> 'b outcome) \<Rightarrow> 'b outcome" where
  "then_do x f = (case x of Panic \<Rightarrow> Panic | Return y \<Rightarrow> f y)"

definition removeClient :: "(addr \<Rightarrow> client_info) \<Rightarrow> Hub \<Rightarrow> addr \<Rightarrow> Hub outcome" where
  "removeClient info h c =
     (if c \<notin> hbClients h then Return h
      else let ip = ciIp (info c);
               h = h\<lparr>hbSubs := (\<lambda>s. if s \<in> hbClientSubs h c then hbSubs h s - {c} else hbSubs h s)\<rparr>;
               h = h\<lparr>hbClientSubs := (hbClientSubs h)(c := {}), hbClients := hbClients h - {c}\<rparr>;
               h = h\<lparr>hbIpCount := (hbIpCount h)(ip := hbIpCount h ip - 1)\<rparr>;
               h = (if hbIpCount h ip \<le> 0 then h\<lparr>hbIpCount := (hbIpCount h)(ip := 0)\<rparr> else h)
           in close_send h c)"

definition hub_register :: "(addr \<Rightarrow> client_info) \<Rightarrow> Hub \<Rightarrow> addr \<Rightarrow> Hub outcome" where
  "hub_register info h c =
     (if card (hbClients h) \<ge> MaxTotalConnections then
        then_do (sendJSON h c (error_message ''max connections reached'')) (\<lambda>h. close_send h c)
      else if hbIpCount h (ciIp (info c)) \<ge> MaxConnPerIP then
        then_do (sendJSON h c (error_message ''max connections per IP reached'')) (\<lambda>h. close_send h c)
      else Return (h\<lparr>hbClients := insert c (hbClients h), hbClientSubs := (hbClientSubs h)(c := {}),
                     hbIpCount := (hbIpCount h)(ciIp (info c) := hbIpCount h (ciIp (info c)) + 1)\<rparr>))"

definition hub_subscribe :: "Hub \<Rightarrow> addr \<Rightarrow> Subscription \<Rightarrow> Hub outcome" where
  "hub_subscribe h c sub =
     (if c \<notin> hbClients h then Return h
      else if card (hbClientSubs h c) \<ge> MaxSubsPerClient then
        sendJSON h c (error_message ''max subscriptions reached'')
      else if sub \<in> hbClientSubs h c then Return h
      else sendJSON (h\<lparr>hbSubs := (hbSubs h)(sub := insert c (hbSubs h sub)),
                       hbClientSubs := (hbClientSubs h)(c := insert sub (hbClientSubs h c))\<rparr>) c
             (server_message ''subscribed'' (sbChannel sub) (sbStock sub) None []))"

definition hub_unsubscribe :: "Hub \<Rightarrow> addr \<Rightarrow> Subscription \<Rightarrow> Hub outcome" where
  "hub_unsubscribe h c sub =
     (if c \<notin> hbClients h then Return h
      else sendJSON (h\<lparr>hbSubs := (hbSubs h)(sub := hbSubs h sub - {c}),
                       hbClientSubs := (hbClientSubs h)(c := hbClientSubs h c - {sub})\<rparr>) c
             (server_message ''unsubscribed'' (sbChannel sub) (sbStock sub) None []))"

definition hub_directSend :: "Hub \<Rightarrow> addr \<Rightarrow> ServerMessage \<Rightarrow> Hub outcome" where
  "hub_directSend h c msg = (if c \<in> hbClients h then sendJSON h c msg else Return h)"

text \<open>
  The two loops of a broadcast, over the subscribers in the order \<open>cs\<close> in which the map is
  walked: send to each, collecting those whose buffer is full, then remove the collected ones.
\<close>

fun send_all :: "Hub \<Rightarrow> addr list \<Rightarrow> ServerMessage \<Rightarrow> (Hub \<times> addr list) outcome" where
  "send_all h [] msg = Return (h, [])"
| "send_all h (c # cs) msg =
     (case try_send clientSendCap (hbSend h c) msg of
        (Sent, ch) \<Rightarrow> send_all (h\<lparr>hbSend := (hbSend h)(c := ch)\<rparr>) cs msg
      | (Full, ch) \<Rightarrow> then_do (send_all h cs msg) (\<lambda>(h, kick). Return (h, c # kick))
      | (SendPanic, ch) \<Rightarrow> Panic)"

fun remove_all :: "(addr \<Rightarrow> client_info) \<Rightarrow> Hub \<Rightarrow> addr list \<Rightarrow> Hub outcome" where
  "remove_all info h [] = Return h"
| "remove_all info h (c # cs) = then_do (removeClient info h c) (\<lambda>h. remove_all info h cs)"

definition hub_broadcast :: "(addr \<Rightarrow> client_info) \<Rightarrow> Hub \<Rightarrow> addr list \<Rightarrow> ServerMessage \<Rightarrow> Hub outcome" where
  "hub_broadcast info h cs msg =
     then_do (send_all h cs msg) (\<lambda>(h, toKick). remove_all info h toKick)"

text \<open>The requests the loop of \<open>Run\<close> selects from; \<open>Shutdown\<close> is the end of its context.\<close>

datatype hub_request =
    RegisterReq addr | UnregisterReq addr | SubscribeReq addr Subscription | UnsubscribeReq addr Subscription
  | DirectSendReq addr ServerMessage | BroadcastReq "addr list" Subscription ServerMessage | Shutdown "addr list"

definition Run_step :: "(addr \<Rightarrow> client_info) \<Rightarrow> Hub \<Rightarrow> hub_request \<Rightarrow> Hub outcome" where
  "Run_step info h req =
     (case req of
        RegisterReq c \<Rightarrow> hub_register info h c
      | UnregisterReq c \<Rightarrow> removeClient info h c
      | SubscribeReq c sub \<Rightarrow> hub_subscribe h c sub
      | UnsubscribeReq c sub \<Rightarrow> hub_unsubscribe h c sub
      | DirectSendReq c msg \<Rightarrow> hub_directSend h c msg
      | BroadcastReq cs sub msg \<Rightarrow> hub_broadcast info h cs msg
      | Shutdown cs \<Rightarrow> remove_all info h cs)"

text \<open>The subscription and the message of a \<open>Broadcast\<close>.\<close>

definition Broadcast_msg :: "string \<Rightarrow> string \<Rightarrow> wire_data \<Rightarrow> Subscription \<times> ServerMessage" where
  "Broadcast_msg chan stock p =
     (\<lparr>sbChannel = chan, sbStock = stock\<rparr>, server_message chan [] stock (Some p) [])"

section \<open>Clients\<close>

text \<open>What \<open>handleMessage\<close> asks the hub for.\<close>

definition handleMessage :: "(addr \<Rightarrow> client_info) \<Rightarrow> addr \<Rightarrow> ClientMessage \<Rightarrow> hub_request" where
  "handleMessage info c msg =
     (let stock = (if cmChannel msg = ''order.update'' then ciUser (info c) else cmStock msg);
          sub = \<lparr>sbChannel = cmChannel msg, sbStock = stock\<rparr>
      in if cmAction msg = ''subscribe'' then SubscribeReq c sub
         else if cmAction msg = ''unsubscribe'' then UnsubscribeReq c sub
         else if cmAction msg = ''ping'' then DirectSendReq c (server_message ''pong'' [] [] None [])
         else DirectSendReq c (error_message (''unknown action: '' @ cmAction msg)))"

text \<open>\<open>readPump\<close> on one inbound frame, decoded or not.\<close>

definition readPump_frame :: "(addr \<Rightarrow> client_info) \<Rightarrow> addr \<Rightarrow> ClientMessage option \<Rightarrow> hub_request" where
  "readPump_frame info c decoded =
     (case decoded of None \<Rightarrow> DirectSendReq c (error_message ''invalid JSON'') | Some m \<Rightarrow> handleMessage info c m)"

text \<open>The user and address of the client that the upgrade handler creates.\<close>

definition NewClient :: "('a, 'n) netlib \<Rightarrow> 'n list \<Rightarrow> http_request \<Rightarrow> client_info" where
  "NewClient n trusted r =
     (let (i, ok) = UserIDFromContext r
      in \<lparr>ciUser = (if ok \<and> i \<noteq> [] then i else ''anonymous''), ciIp = ExtractClientIP n r trusted\<rparr>)"

section \<open>The hub's invariant\<close>

definition hub_tables :: "(addr \<Rightarrow> client_info) \<Rightarrow> Hub \<Rightarrow> bool" where
  "hub_tables info h \<longleftrightarrow>
     finite (hbClients h) \<and> card (hbClients h) \<le> MaxTotalConnections \<and>
     (\<forall>c\<in>hbClients h. finite (hbClientSubs h c) \<and> card (hbClientSubs h c) \<le> MaxSubsPerClient) \<and>
     (\<forall>c. c \<notin> hbClients h \<longrightarrow> hbClientSubs h c = {}) \<and>
     (\<forall>s. hbSubs h s = {c. s \<in> hbClientSubs h c}) \<and>
     (\<forall>ip. hbIpCount h ip = int (card {c\<in>hbClients h. ciIp (info c) = ip})) \<and>
     (\<forall>ip. hbIpCount h ip \<le> MaxConnPerIP) \<and>
     (\<forall>c s. s \<in> hbClientSubs h c \<longrightarrow> sbChannel s = ''order.update'' \<longrightarrow> sbStock s = ciUser (info c))"

definition hub_inv :: "(addr \<Rightarrow> client_info) \<Rightarrow> Hub \<Rightarrow> bool" where
  "hub_inv info h \<longleftrightarrow>
     hub_tables info h \<and> (\<forall>c\<in>hbClients h. \<not> chClosed (hbSend h c)) \<and>
     (\<forall>c. length (chQueue (hbSend h c)) \<le> clientSendCap)"

lemma hub_tables_send [simp]: "hub_tables info (h\<lparr>hbSend := x\<rparr>) = hub_tables info h"
  by (simp add: hub_tables_def)

text \<open>
  The requests that occur: a client is registered once, with an open channel; it subscribes to the
  order updates of its own user only; a broadcast walks the subscribers of its subscription, and a
  shutdown all clients.
\<close>

definition own_channel :: "(addr \<Rightarrow> client_info) \<Rightarrow> addr \<Rightarrow> Subscription \<Rightarrow> bool" where
  "own_channel info c sub \<longleftrightarrow> (sbChannel sub = ''order.update'' \<longrightarrow> sbStock sub = ciUser (info c))"

definition request_wf :: "(addr \<Rightarrow> client_info) \<Rightarrow> Hub \<Rightarrow> hub_request \<Rightarrow> bool" where
  "request_wf info h req \<longleftrightarrow>
     (case req of
        RegisterReq c \<Rightarrow> c \<notin> hbClients h \<and> \<not> chClosed (hbSend h c)
      | SubscribeReq c sub \<Rightarrow> own_channel info c sub
      | BroadcastReq cs sub msg \<Rightarrow> distinct cs \<and> set cs = hbSubs h sub
      | Shutdown cs \<Rightarrow> distinct cs \<and> set cs = hbClients h
      | _ \<Rightarrow> True)"

lemma hub_inv_New: "hub_inv info NewHub"
  by (simp add: hub_inv_def hub_tables_def NewHub_def new_channel_def MaxConnPerIP_def)

text \<open>Sending touches nothing but the queue of one client.\<close>

lemma sendJSON_ok:
  assumes "hub_inv info h" and "\<not> chClosed (hbSend h c)"
  shows "\<exists>h'. sendJSON h c msg = Return h' \<and> hub_inv info h' \<and> \<not> chClosed (hbSend h' c) \<and>
    hbClients h' = hbClients h \<and> hbSubs h' = hbSubs h"
proof -
  obtain r ch where t: "try_send clientSendCap (hbSend h c) msg = (r, ch)" by fastforce
  have open_ch: "\<not> chClosed ch" "r \<noteq> SendPanic" and len: "length (chQueue ch) \<le> clientSendCap"
    using try_send_queue [OF t] assms by (auto simp: hub_inv_def)
  have "sendJSON h c msg = Return (h\<lparr>hbSend := (hbSend h)(c := ch)\<rparr>)"
    using open_ch(2) by (cases r) (simp_all add: sendJSON_def t)
  then show ?thesis using assms(1) open_ch(1) len unfolding hub_inv_def by simp
qed

lemma close_ok:
  assumes "hub_inv info h" and "\<not> chClosed (hbSend h c)" and "c \<notin> hbClients h"
  shows "\<exists>h'. close_send h c = Return h' \<and> hub_inv info h' \<and> hbClients h' = hbClients h \<and> hbSubs h' = hbSubs h"
  using assms by (auto simp: close_send_def hub_inv_def)

lemma card_ip_remove:
  assumes "finite C" and "c \<in> C"
  shows "int (card {x \<in> C - {c}. f x = ip}) = int (card {x \<in> C. f x = ip}) - (if f c = ip then 1 else 0)"
proof (cases "f c = ip")
  case True
  then have "{x \<in> C. f x = ip} = insert c {x \<in> C - {c}. f x = ip}" using assms(2) by auto
  then show ?thesis using assms(1) True by simp
next
  case False
  then have "{x \<in> C - {c}. f x = ip} = {x \<in> C. f x = ip}" by auto
  then show ?thesis using False by simp
qed

lemma removeClient_ok:
  assumes inv: "hub_inv info h"
  shows "\<exists>h'. removeClient info h c = Return h' \<and> hub_inv info h' \<and> hbClients h' = hbClients h - {c} \<and>
    (\<forall>s. hbSubs h' s = hbSubs h s - {c}) \<and> (\<forall>x. x \<noteq> c \<longrightarrow> hbSend h' x = hbSend h x)"
proof (cases "c \<in> hbClients h")
  case False
  then have "c \<notin> hbSubs h s" for s using inv by (auto simp: hub_inv_def hub_tables_def)
  then show ?thesis using False inv by (simp add: removeClient_def)
next
  case True
  define h1 where "h1 = h\<lparr>hbSubs := (\<lambda>s. if s \<in> hbClientSubs h c then hbSubs h s - {c} else hbSubs h s),
      hbClientSubs := (hbClientSubs h)(c := {}), hbClients := hbClients h - {c},
      hbIpCount := (hbIpCount h)(ciIp (info c) := hbIpCount h (ciIp (info c)) - 1)\<rparr>"
  have fin: "finite (hbClients h)" and ips: "\<And>ip. hbIpCount h ip = int (card {x \<in> hbClients h. ciIp (info x) = ip})"
    and maxip: "\<And>ip. hbIpCount h ip \<le> MaxConnPerIP"
    and subs: "\<And>s. hbSubs h s = {x. s \<in> hbClientSubs h x}"
    using inv by (auto simp: hub_inv_def hub_tables_def)
  let ?ip = "ciIp (info c)"
  have count: "int (card {x \<in> hbClients h - {c}. ciIp (info x) = ip}) =
      hbIpCount h ip - (if ?ip = ip then 1 else 0)" for ip
    using card_ip_remove [OF fin True, of "\<lambda>x. ciIp (info x)"] by (simp add: ips)
  have step: "removeClient info h c = close_send h1 c"
  proof -
    have "0 \<le> hbIpCount h ?ip - 1" using count [of ?ip] by simp
    then have "hbIpCount h ?ip - 1 \<le> 0 \<Longrightarrow> hbIpCount h ?ip = 1" by simp
    then show ?thesis using True by (auto simp: removeClient_def Let_def h1_def)
  qed
  have sub1: "hbSubs h1 s = hbSubs h s - {c}" for s by (auto simp: h1_def subs)
  have "hub_tables info h1"
    unfolding hub_tables_def
  proof (intro conjI)
    show "\<forall>s. hbSubs h1 s = {x. s \<in> hbClientSubs h1 x}" by (auto simp: sub1 subs) (auto simp: h1_def split: if_splits)
    show "\<forall>ip. hbIpCount h1 ip = int (card {x \<in> hbClients h1. ciIp (info x) = ip})"
      using count by (auto simp: h1_def)
    show "\<forall>ip. hbIpCount h1 ip \<le> MaxConnPerIP"
    proof
      fix ip
      show "hbIpCount h1 ip \<le> MaxConnPerIP" using maxip [of ip] by (cases "ip = ?ip") (simp_all add: h1_def)
    qed
    show "card (hbClients h1) \<le> MaxTotalConnections"
      using inv card_Diff1_le [of "hbClients h" c] by (auto simp: h1_def hub_inv_def hub_tables_def)
  qed (use inv in \<open>auto simp: h1_def hub_inv_def hub_tables_def\<close>)
  then have inv1: "hub_inv info h1" and cl: "\<not> chClosed (hbSend h1 c)" "c \<notin> hbClients h1"
    using inv True by (auto simp: hub_inv_def h1_def)
  obtain h2 where "close_send h1 c = Return h2" "hub_inv info h2" "hbClients h2 = hbClients h1" "hbSubs h2 = hbSubs h1"
    using close_ok [OF inv1 cl] by blast
  moreover have "hbSend h2 x = hbSend h x" if "x \<noteq> c" for x
    using calculation(1) that by (auto simp: close_send_def h1_def split: if_splits)
  ultimately show ?thesis using step sub1 by (simp add: h1_def)
qed

lemma remove_all_ok:
  "hub_inv info h \<Longrightarrow> \<exists>h'. remove_all info h cs = Return h' \<and> hub_inv info h' \<and>
     hbClients h' = hbClients h - set cs \<and> (\<forall>s. hbSubs h' s = hbSubs h s - set cs) \<and>
     (\<forall>x. x \<notin> set cs \<longrightarrow> hbSend h' x = hbSend h x)"
proof (induction cs arbitrary: h)
  case (Cons c cs)
  obtain h1 where h1: "removeClient info h c = Return h1" "hub_inv info h1" "hbClients h1 = hbClients h - {c}"
    "\<forall>s. hbSubs h1 s = hbSubs h s - {c}" "\<forall>x. x \<noteq> c \<longrightarrow> hbSend h1 x = hbSend h x"
    using removeClient_ok [OF Cons.prems, of c] by blast
  show ?case using Cons.IH [OF h1(2)] h1 by (auto simp: then_do_def)
qed simp

text \<open>The sends of a broadcast: who has room gets the message, the others are collected.\<close>

lemma send_all_ok:
  assumes "\<forall>c\<in>set cs. \<not> chClosed (hbSend h c)" and "distinct cs"
  shows "send_all h cs msg =
    Return (h\<lparr>hbSend := (\<lambda>c. if c \<in> set cs \<and> length (chQueue (hbSend h c)) < clientSendCap
                             then (hbSend h c)\<lparr>chQueue := chQueue (hbSend h c) @ [msg]\<rparr> else hbSend h c)\<rparr>,
            filter (\<lambda>c. \<not> length (chQueue (hbSend h c)) < clientSendCap) cs)"
  using assms
proof (induction cs arbitrary: h)
  case (Cons c cs)
  show ?case
  proof (cases "length (chQueue (hbSend h c)) < clientSendCap")
    case True
    define h1 where "h1 = h\<lparr>hbSend := (hbSend h)(c := (hbSend h c)\<lparr>chQueue := chQueue (hbSend h c) @ [msg]\<rparr>)\<rparr>"
    have "send_all h (c # cs) msg = send_all h1 cs msg"
      using Cons.prems(1) True by (simp add: try_send_def h1_def)
    also have "\<dots> = Return (h1\<lparr>hbSend := (\<lambda>c. if c \<in> set cs \<and> length (chQueue (hbSend h1 c)) < clientSendCap
           then (hbSend h1 c)\<lparr>chQueue := chQueue (hbSend h1 c) @ [msg]\<rparr> else hbSend h1 c)\<rparr>,
         filter (\<lambda>c. \<not> length (chQueue (hbSend h1 c)) < clientSendCap) cs)"
      by (rule Cons.IH) (use Cons.prems in \<open>auto simp: h1_def\<close>)
    also have "(\<lambda>x. if x \<in> set cs \<and> length (chQueue (hbSend h1 x)) < clientSendCap
           then (hbSend h1 x)\<lparr>chQueue := chQueue (hbSend h1 x) @ [msg]\<rparr> else hbSend h1 x) =
        (\<lambda>x. if x \<in> set (c # cs) \<and> length (chQueue (hbSend h x)) < clientSendCap
           then (hbSend h x)\<lparr>chQueue := chQueue (hbSend h x) @ [msg]\<rparr> else hbSend h x)"
      using Cons.prems(2) True by (auto simp: h1_def fun_eq_iff)
    also have "filter (\<lambda>x. \<not> length (chQueue (hbSend h1 x)) < clientSendCap) cs =
        filter (\<lambda>x. \<not> length (chQueue (hbSend h x)) < clientSendCap) (c # cs)"
      using Cons.prems(2) True by (auto simp: h1_def intro: filter_cong)
    finally show ?thesis by (simp add: h1_def)
  next
    case False
    have "send_all h cs msg =
        Return (h\<lparr>hbSend := (\<lambda>c. if c \<in> set cs \<and> length (chQueue (hbSend h c)) < clientSendCap
                             then (hbSend h c)\<lparr>chQueue := chQueue (hbSend h c) @ [msg]\<rparr> else hbSend h c)\<rparr>,
            filter (\<lambda>c. \<not> length (chQueue (hbSend h c)) < clientSendCap) cs)"
      by (rule Cons.IH) (use Cons.prems in auto)
    moreover have "(\<lambda>x. if x \<in> set cs \<and> length (chQueue (hbSend h x)) < clientSendCap
           then (hbSend h x)\<lparr>chQueue := chQueue (hbSend h x) @ [msg]\<rparr> else hbSend h x) =
        (\<lambda>x. if x \<in> set (c # cs) \<and> length (chQueue (hbSend h x)) < clientSendCap
           then (hbSend h x)\<lparr>chQueue := chQueue (hbSend h x) @ [msg]\<rparr> else hbSend h x)"
      using False by (auto simp: fun_eq_iff)
    ultimately show ?thesis
      using Cons.prems(1) False by (simp add: try_send_def then_do_def)
  qed
qed simp

text \<open>
  A broadcast delivers to every subscriber with room, disconnects the others, and reaches nobody
  else.
\<close>

lemma broadcast_ok:
  assumes inv: "hub_inv info h" and cs: "distinct cs" "set cs = hbSubs h sub"
  shows "\<exists>h'. hub_broadcast info h cs msg = Return h' \<and> hub_inv info h' \<and>
    hbClients h' = hbClients h - {c \<in> hbSubs h sub. clientSendCap \<le> length (chQueue (hbSend h c))} \<and>
    (\<forall>c. \<not> (c \<in> hbSubs h sub \<and> clientSendCap \<le> length (chQueue (hbSend h c))) \<longrightarrow>
       chQueue (hbSend h' c) = (if c \<in> hbSubs h sub then chQueue (hbSend h c) @ [msg] else chQueue (hbSend h c)))"
proof -
  have "hbSubs h sub \<subseteq> hbClients h" using inv by (auto simp: hub_inv_def hub_tables_def)
  then have "\<forall>c\<in>set cs. \<not> chClosed (hbSend h c)" using inv cs(2) by (auto simp: hub_inv_def)
  note S = send_all_ok [OF this cs(1), of msg]
  define h1 where "h1 = h\<lparr>hbSend := (\<lambda>c. if c \<in> set cs \<and> length (chQueue (hbSend h c)) < clientSendCap
                             then (hbSend h c)\<lparr>chQueue := chQueue (hbSend h c) @ [msg]\<rparr> else hbSend h c)\<rparr>"
  define kick where "kick = filter (\<lambda>c. \<not> length (chQueue (hbSend h c)) < clientSendCap) cs"
  have inv1: "hub_inv info h1" using inv by (auto simp: hub_inv_def h1_def)
  obtain h' where h': "remove_all info h1 kick = Return h'" "hub_inv info h'"
      "hbClients h' = hbClients h1 - set kick" "\<forall>x. x \<notin> set kick \<longrightarrow> hbSend h' x = hbSend h1 x"
    using remove_all_ok [OF inv1, of kick] by blast
  have "hub_broadcast info h cs msg = Return h'"
    using S h'(1) by (simp add: hub_broadcast_def then_do_def h1_def kick_def)
  moreover have "set kick = {c \<in> hbSubs h sub. clientSendCap \<le> length (chQueue (hbSend h c))}"
    by (auto simp: kick_def cs(2))
  ultimately show ?thesis using h' cs(2) by (auto simp: h1_def)
qed

lemma register_ok:
  assumes inv: "hub_inv info h" and new: "c \<notin> hbClients h" "\<not> chClosed (hbSend h c)"
  shows "\<exists>h'. hub_register info h c = Return h' \<and> hub_inv info h'"
proof -
  have refuse: "\<exists>h'. then_do (sendJSON h c m) (\<lambda>h. close_send h c) = Return h' \<and> hub_inv info h'" for m
  proof -
    obtain h1 where "sendJSON h c m = Return h1" "hub_inv info h1" "\<not> chClosed (hbSend h1 c)" "hbClients h1 = hbClients h"
      using sendJSON_ok [OF inv new(2), of m] by blast
    then show ?thesis using close_ok [of info h1 c] new(1) by (auto simp: then_do_def)
  qed
  let ?ip = "ciIp (info c)"
  define h2 where "h2 = h\<lparr>hbClients := insert c (hbClients h), hbClientSubs := (hbClientSubs h)(c := {}),
      hbIpCount := (hbIpCount h)(?ip := hbIpCount h ?ip + 1)\<rparr>"
  have "hub_inv info h2" if room: "card (hbClients h) < MaxTotalConnections" "hbIpCount h ?ip < MaxConnPerIP"
  proof -
    have fin: "finite (hbClients h)" and ips: "\<And>ip. hbIpCount h ip = int (card {x \<in> hbClients h. ciIp (info x) = ip})"
      and subs: "\<And>s. hbSubs h s = {x. s \<in> hbClientSubs h x}" and none: "hbClientSubs h c = {}"
      using inv new(1) by (auto simp: hub_inv_def hub_tables_def)
    have "{x \<in> insert c (hbClients h). ciIp (info x) = ip} =
        (if ?ip = ip then insert c {x \<in> hbClients h. ciIp (info x) = ip} else {x \<in> hbClients h. ciIp (info x) = ip})" for ip
      by auto
    then have "int (card {x \<in> insert c (hbClients h). ciIp (info x) = ip}) = hbIpCount h2 ip" for ip
      using fin new(1) by (auto simp: h2_def ips)
    then have "hub_tables info h2"
      using inv room new(1) none unfolding hub_inv_def hub_tables_def
      by (auto simp: h2_def fun_upd_idem [of "hbClientSubs h" c "{}"])
    then show ?thesis using inv new(2) by (auto simp: hub_inv_def h2_def)
  qed
  then show ?thesis using refuse by (auto simp: hub_register_def h2_def not_le)
qed

lemma subscribe_ok:
  assumes inv: "hub_inv info h" and own: "sbChannel sub = ''order.update'' \<Longrightarrow> sbStock sub = ciUser (info c)"
  shows "\<exists>h'. hub_subscribe h c sub = Return h' \<and> hub_inv info h'"
proof (cases "c \<in> hbClients h \<and> card (hbClientSubs h c) < MaxSubsPerClient \<and> sub \<notin> hbClientSubs h c")
  case True
  define h1 where "h1 = h\<lparr>hbSubs := (hbSubs h)(sub := insert c (hbSubs h sub)),
      hbClientSubs := (hbClientSubs h)(c := insert sub (hbClientSubs h c))\<rparr>"
  have "hub_tables info h1"
    using inv True own unfolding hub_inv_def hub_tables_def by (auto simp: h1_def)
  then have "hub_inv info h1" "\<not> chClosed (hbSend h1 c)" using inv True by (auto simp: hub_inv_def h1_def)
  then show ?thesis using sendJSON_ok [of info h1 c] True by (auto simp: hub_subscribe_def h1_def not_le)
next
  case False
  have "\<exists>h'. sendJSON h c msg = Return h' \<and> hub_inv info h'" if "c \<in> hbClients h" for msg
    using sendJSON_ok [OF inv, of c msg] that inv by (auto simp: hub_inv_def)
  then show ?thesis using False inv by (auto simp: hub_subscribe_def not_le)
qed

lemma unsubscribe_ok:
  assumes inv: "hub_inv info h"
  shows "\<exists>h'. hub_unsubscribe h c sub = Return h' \<and> hub_inv info h'"
proof (cases "c \<in> hbClients h")
  case True
  define h1 where "h1 = h\<lparr>hbSubs := (hbSubs h)(sub := hbSubs h sub - {c}),
      hbClientSubs := (hbClientSubs h)(c := hbClientSubs h c - {sub})\<rparr>"
  have "card (hbClientSubs h c - {sub}) \<le> card (hbClientSubs h c)" by (rule card_Diff1_le)
  then have "hub_tables info h1"
    using inv True unfolding hub_inv_def hub_tables_def by (auto simp: h1_def)
  then have "hub_inv info h1" "\<not> chClosed (hbSend h1 c)" using inv True by (auto simp: hub_inv_def h1_def)
  then show ?thesis using sendJSON_ok [of info h1 c] True by (auto simp: hub_unsubscribe_def h1_def)
qed (use inv in \<open>simp add: hub_unsubscribe_def\<close>)

lemma readPump_own:
  "readPump_frame info c m = SubscribeReq d sub \<Longrightarrow> d = c \<and> own_channel info c sub"
  by (auto simp: readPump_frame_def handleMessage_def own_channel_def Let_def split: option.splits if_splits)

text \<open>Every request that occurs is served without a panic and keeps the invariant.\<close>

lemma Run_step_ok:
  assumes inv: "hub_inv info h" and wf: "request_wf info h req"
  shows "\<exists>h'. Run_step info h req = Return h' \<and> hub_inv info h'"
proof (cases req)
  case (RegisterReq c)
  then show ?thesis using register_ok [OF inv] wf by (simp add: Run_step_def request_wf_def)
next
  case (UnregisterReq c)
  then show ?thesis using removeClient_ok [OF inv, of c] by (auto simp: Run_step_def)
next
  case (SubscribeReq c sub)
  then show ?thesis
    using subscribe_ok [OF inv] wf by (simp add: Run_step_def request_wf_def own_channel_def)
next
  case (UnsubscribeReq c sub)
  then show ?thesis using unsubscribe_ok [OF inv] by (simp add: Run_step_def)
next
  case (DirectSendReq c msg)
  have "c \<in> hbClients h \<Longrightarrow> \<not> chClosed (hbSend h c)" using inv by (simp add: hub_inv_def)
  then show ?thesis
    using sendJSON_ok [OF inv, of c msg] inv by (auto simp: DirectSendReq Run_step_def hub_directSend_def)
next
  case (BroadcastReq cs sub msg)
  then show ?thesis using broadcast_ok [OF inv, of cs sub msg] wf by (auto simp: Run_step_def request_wf_def)
next
  case (Shutdown cs)
  then show ?thesis using remove_all_ok [OF inv, of cs] by (auto simp: Run_step_def)
qed

end
