(* ===== verification/WsServer.thy ===== *)
theory WsServer
  imports WsHub
begin

text \<open>
  The hub together with its inbound channels and the two goroutines of every client
  (src/internal/transport/ws). Each channel is a queue with its capacity; the loop of \<open>Run\<close> serves
  the head of any channel that has something, as Go's \<open>select\<close> chooses freely among those that are
  ready. The steps of all goroutines interleave.
\<close>

section \<open>Channels\<close>

record WsServer =
  wsHub :: Hub
  wsRegister :: "addr list"
  wsUnregister :: "addr list"
  wsSubscribe :: "(addr \<times> Subscription) list"
  wsUnsubscribe :: "(addr \<times> Subscription) list"
  wsBroadcast :: "(Subscription \<times> ServerMessage) list"
  wsDirectSend :: "(addr \<times> ServerMessage) list"
  wsDone :: bool
  wsCreated :: "addr set"
  wsReading :: "addr set"

definition controlCap :: nat where "controlCap = 64"

definition messageCap :: nat where "messageCap = 256"

definition NewWsServer :: WsServer where
  "NewWsServer =
     \<lparr>wsHub = NewHub, wsRegister = [], wsUnregister = [], wsSubscribe = [], wsUnsubscribe = [], wsBroadcast = [],
      wsDirectSend = [], wsDone = False, wsCreated = {}, wsReading = {}\<rparr>"

definition Broadcast :: "WsServer \<Rightarrow> string \<Rightarrow> string \<Rightarrow> wire_data \<Rightarrow> WsServer" where
  "Broadcast s chan stock p =
     (if length (wsBroadcast s) < messageCap then s\<lparr>wsBroadcast := wsBroadcast s @ [Broadcast_msg chan stock p]\<rparr> else s)"

definition BroadcastToUser :: "WsServer \<Rightarrow> string \<Rightarrow> string \<Rightarrow> wire_data \<Rightarrow> WsServer" where
  "BroadcastToUser s chan userID p = Broadcast s chan userID p"

definition SendJSONSafe :: "WsServer \<Rightarrow> addr \<Rightarrow> ServerMessage \<Rightarrow> WsServer" where
  "SendJSONSafe s c msg =
     (if length (wsDirectSend s) < messageCap then s\<lparr>wsDirectSend := wsDirectSend s @ [(c, msg)]\<rparr> else s)"

section \<open>The goroutines of a client\<close>

text \<open>\<open>ServeHTTP\<close> for a new client \<open>c\<close>; \<open>None\<close> while the register channel is full.\<close>

definition ws_connect :: "WsServer \<Rightarrow> addr \<Rightarrow> WsServer option" where
  "ws_connect s c =
     (if c \<in> wsCreated s \<or> length (wsRegister s) \<ge> controlCap then None
      else Some (s\<lparr>wsCreated := insert c (wsCreated s), wsReading := insert c (wsReading s),
                   wsRegister := wsRegister s @ [c]\<rparr>))"

text \<open>\<open>readPump\<close> on one frame: the sends to the control channels block, \<open>SendJSONSafe\<close> does not.\<close>

definition ws_frame :: "(addr \<Rightarrow> client_info) \<Rightarrow> WsServer \<Rightarrow> addr \<Rightarrow> ClientMessage option \<Rightarrow> WsServer option" where
  "ws_frame info s c decoded =
     (if c \<notin> wsReading s then None
      else case readPump_frame info c decoded of
             SubscribeReq d sub \<Rightarrow>
               if length (wsSubscribe s) < controlCap then Some (s\<lparr>wsSubscribe := wsSubscribe s @ [(d, sub)]\<rparr>) else None
           | UnsubscribeReq d sub \<Rightarrow>
               if length (wsUnsubscribe s) < controlCap then Some (s\<lparr>wsUnsubscribe := wsUnsubscribe s @ [(d, sub)]\<rparr>)
               else None
           | DirectSendReq d msg \<Rightarrow> Some (SendJSONSafe s d msg)
           | _ \<Rightarrow> None)"

text \<open>The end of \<open>readPump\<close>: its deferred send.\<close>

definition ws_hangup :: "WsServer \<Rightarrow> addr \<Rightarrow> WsServer option" where
  "ws_hangup s c =
     (if c \<notin> wsReading s \<or> length (wsUnregister s) \<ge> controlCap then None
      else Some (s\<lparr>wsReading := wsReading s - {c}, wsUnregister := wsUnregister s @ [c]\<rparr>))"

text \<open>\<open>writePump\<close> takes a message from its channel.\<close>

definition ws_write :: "WsServer \<Rightarrow> addr \<Rightarrow> WsServer option" where
  "ws_write s c =
     (let h = wsHub s
      in case chQueue (hbSend h c) of
           [] \<Rightarrow> None
         | m # ms \<Rightarrow> Some (s\<lparr>wsHub := h\<lparr>hbSend := (hbSend h)(c := (hbSend h c)\<lparr>chQueue := ms\<rparr>)\<rparr>\<rparr>))"

section \<open>The loop of the hub\<close>

datatype ws_channel = ChRegister | ChUnregister | ChSubscribe | ChUnsubscribe | ChBroadcast "addr list" | ChDirectSend | ChDone "addr list"

text \<open>
  What \<open>select\<close> takes: the request, and the state without it. The lists are the orders in which the
  maps are walked.
\<close>

definition ws_pick :: "ws_channel \<Rightarrow> WsServer \<Rightarrow> (hub_request \<times> WsServer) option" where
  "ws_pick k s =
     (if wsDone s then None
      else case k of
        ChRegister \<Rightarrow> (case wsRegister s of [] \<Rightarrow> None | c # cs \<Rightarrow> Some (RegisterReq c, s\<lparr>wsRegister := cs\<rparr>))
      | ChUnregister \<Rightarrow> (case wsUnregister s of [] \<Rightarrow> None | c # cs \<Rightarrow> Some (UnregisterReq c, s\<lparr>wsUnregister := cs\<rparr>))
      | ChSubscribe \<Rightarrow>
          (case wsSubscribe s of [] \<Rightarrow> None | r # rs \<Rightarrow> Some (SubscribeReq (fst r) (snd r), s\<lparr>wsSubscribe := rs\<rparr>))
      | ChUnsubscribe \<Rightarrow>
          (case wsUnsubscribe s of [] \<Rightarrow> None | r # rs \<Rightarrow> Some (UnsubscribeReq (fst r) (snd r), s\<lparr>wsUnsubscribe := rs\<rparr>))
      | ChBroadcast cs \<Rightarrow>
          (case wsBroadcast s of
             [] \<Rightarrow> None
           | m # ms \<Rightarrow> if distinct cs \<and> set cs = hbSubs (wsHub s) (fst m)
                       then Some (BroadcastReq cs (fst m) (snd m), s\<lparr>wsBroadcast := ms\<rparr>) else None)
      | ChDirectSend \<Rightarrow>
          (case wsDirectSend s of [] \<Rightarrow> None | r # rs \<Rightarrow> Some (DirectSendReq (fst r) (snd r), s\<lparr>wsDirectSend := rs\<rparr>))
      | ChDone cs \<Rightarrow>
          if distinct cs \<and> set cs = hbClients (wsHub s) then Some (Shutdown cs, s\<lparr>wsDone := True\<rparr>) else None)"

definition Run_turn :: "(addr \<Rightarrow> client_info) \<Rightarrow> ws_channel \<Rightarrow> WsServer \<Rightarrow> WsServer outcome option" where
  "Run_turn info k s =
     (case ws_pick k s of
        None \<Rightarrow> None
      | Some (req, s') \<Rightarrow>
          Some (case Run_step info (wsHub s) req of Panic \<Rightarrow> Panic | Return h \<Rightarrow> Return (s'\<lparr>wsHub := h\<rparr>)))"

inductive ws_step :: "(addr \<Rightarrow> client_info) \<Rightarrow> WsServer \<Rightarrow> WsServer \<Rightarrow> bool" for info where
  connect: "ws_connect s c = Some s' \<Longrightarrow> ws_step info s s'"
| frame: "ws_frame info s c m = Some s' \<Longrightarrow> ws_step info s s'"
| hangup: "ws_hangup s c = Some s' \<Longrightarrow> ws_step info s s'"
| writes: "ws_write s c = Some s' \<Longrightarrow> ws_step info s s'"
| publish: "ws_step info s (Broadcast s chan stock p)"
| serve: "Run_turn info k s = Some (Return s') \<Longrightarrow> ws_step info s s'"

inductive ws_reachable :: "(addr \<Rightarrow> client_info) \<Rightarrow> WsServer \<Rightarrow> bool" for info where
  init: "ws_reachable info NewWsServer"
| step: "ws_reachable info s \<Longrightarrow> ws_step info s s' \<Longrightarrow> ws_reachable info s'"

section \<open>Clients the hub has not seen\<close>

definition fresh :: "Hub \<Rightarrow> addr \<Rightarrow> bool" where
  "fresh h x \<longleftrightarrow> x \<notin> hbClients h \<and> \<not> chClosed (hbSend h x)"

lemma sendJSON_frame:
  "sendJSON h c m = Return h' \<Longrightarrow> hbClients h' = hbClients h \<and> (\<forall>x. chClosed (hbSend h' x) = chClosed (hbSend h x))"
  by (auto simp: sendJSON_def try_send_def split: if_splits)

lemma close_send_frame:
  "close_send h c = Return h' \<Longrightarrow> hbClients h' = hbClients h \<and> (\<forall>x. x \<noteq> c \<longrightarrow> hbSend h' x = hbSend h x)"
  by (auto simp: close_send_def split: if_splits)

lemma removeClient_fresh: "removeClient info h c = Return h' \<Longrightarrow> fresh h x \<Longrightarrow> fresh h' x"
  by (auto simp: removeClient_def fresh_def Let_def close_send_def split: if_splits)

lemma remove_all_fresh: "remove_all info h cs = Return h' \<Longrightarrow> fresh h x \<Longrightarrow> fresh h' x"
  by (induction cs arbitrary: h) (auto simp: then_do_def split: outcome.splits intro: removeClient_fresh)

lemma send_all_fresh: "send_all h cs msg = Return (h', kick) \<Longrightarrow> fresh h x \<Longrightarrow> fresh h' x"
proof (induction h cs msg arbitrary: h' kick rule: send_all.induct)
  case (2 h c cs msg)
  obtain r ch where t: "try_send clientSendCap (hbSend h c) msg = (r, ch)" by fastforce
  show ?case
  proof (cases r)
    case Sent
    have "fresh (h\<lparr>hbSend := (hbSend h)(c := ch)\<rparr>) x" using 2(4) try_send_queue [OF t] by (auto simp: fresh_def)
    then show ?thesis using 2(1) [OF t [symmetric]] 2(3) t Sent by simp
  next
    case Full
    then show ?thesis using 2(2) [OF t [symmetric]] 2(3,4) t by (auto simp: then_do_def split: outcome.splits)
  next
    case SendPanic
    then show ?thesis using 2(3) t by simp
  qed
qed simp

lemma Run_step_fresh:
  assumes "Run_step info h req = Return h'" and "fresh h x" and "req \<noteq> RegisterReq x"
  shows "fresh h' x"
proof (cases req)
  case (RegisterReq c)
  then have "c \<noteq> x" using assms(3) by auto
  then show ?thesis using assms(1,2) RegisterReq
    by (auto simp: Run_step_def hub_register_def then_do_def fresh_def split: if_splits outcome.splits
        dest!: sendJSON_frame close_send_frame)
next
  case (SubscribeReq c sub)
  then show ?thesis using assms(1,2)
    by (auto simp: Run_step_def hub_subscribe_def fresh_def split: if_splits dest!: sendJSON_frame)
next
  case (UnsubscribeReq c sub)
  then show ?thesis using assms(1,2)
    by (auto simp: Run_step_def hub_unsubscribe_def fresh_def split: if_splits dest!: sendJSON_frame)
next
  case (DirectSendReq c msg)
  then show ?thesis using assms(1,2)
    by (auto simp: Run_step_def hub_directSend_def fresh_def split: if_splits dest!: sendJSON_frame)
next
  case (BroadcastReq cs sub msg)
  then show ?thesis using assms(1,2)
    by (auto simp: Run_step_def hub_broadcast_def then_do_def split: outcome.splits intro: remove_all_fresh send_all_fresh)
qed (use assms(1,2) in \<open>auto simp: Run_step_def intro: removeClient_fresh remove_all_fresh\<close>)

section \<open>The invariant of the server\<close>

definition ws_inv :: "(addr \<Rightarrow> client_info) \<Rightarrow> WsServer \<Rightarrow> bool" where
  "ws_inv info s \<longleftrightarrow>
     hub_inv info (wsHub s) \<and> distinct (wsRegister s) \<and>
     (\<forall>c\<in>set (wsRegister s). c \<in> wsCreated s \<and> fresh (wsHub s) c) \<and>
     (\<forall>c. c \<notin> wsCreated s \<longrightarrow> fresh (wsHub s) c) \<and>
     (\<forall>r\<in>set (wsSubscribe s). own_channel info (fst r) (snd r))"

lemma ws_inv_New: "ws_inv info NewWsServer"
proof -
  have "fresh NewHub c" for c by (simp add: fresh_def NewHub_def new_channel_def)
  then show ?thesis by (simp add: ws_inv_def NewWsServer_def hub_inv_New)
qed

lemma ws_pick_wf:
  assumes "ws_inv info s" and "ws_pick k s = Some (req, s')"
  shows "request_wf info (wsHub s) req"
  using assms by (cases k)
    (auto simp: ws_pick_def request_wf_def ws_inv_def fresh_def split: if_splits list.splits)

lemma Run_turn_ok:
  assumes inv: "ws_inv info s" and turn: "Run_turn info k s = Some out"
  shows "\<exists>s'. out = Return s' \<and> ws_inv info s'"
proof -
  obtain req s1 where p: "ws_pick k s = Some (req, s1)" using turn by (auto simp: Run_turn_def split: option.splits)
  obtain h where h: "Run_step info (wsHub s) req = Return h" "hub_inv info h"
    using Run_step_ok [OF _ ws_pick_wf [OF inv p]] inv by (auto simp: ws_inv_def)
  note fr = Run_step_fresh [OF h(1)]
  have "ws_inv info (s1\<lparr>wsHub := h\<rparr>)"
  proof (cases "k = ChRegister")
    case True
    then obtain c cs where c: "req = RegisterReq c" "wsRegister s = c # cs" "s1 = s\<lparr>wsRegister := cs\<rparr>"
      using p by (auto simp: ws_pick_def split: if_splits list.splits)
    then have "c \<in> wsCreated s" "c \<notin> set cs" using inv by (auto simp: ws_inv_def)
    then have "fresh h x" if "fresh (wsHub s) x" "x \<in> set cs \<or> x \<notin> wsCreated s" for x
      using fr [OF that(1)] that(2) c(1) by auto
    then show ?thesis using inv h(2) unfolding ws_inv_def by (auto simp: c)
  next
    case False
    then have eqs: "wsCreated s1 = wsCreated s" "wsRegister s1 = wsRegister s" "set (wsSubscribe s1) \<subseteq> set (wsSubscribe s)"
      and "\<And>x. req \<noteq> RegisterReq x"
      using p by (cases k; auto simp: ws_pick_def split: if_splits list.splits)+
    then show ?thesis using inv h(2) fr unfolding ws_inv_def by (auto simp: eqs dest: subsetD [OF eqs(3)])
  qed
  then show ?thesis using turn p h(1) by (auto simp: Run_turn_def)
qed

lemma ws_step_inv:
  assumes "ws_step info s s'" and "ws_inv info s"
  shows "ws_inv info s'"
  using assms
proof (cases rule: ws_step.cases)
  case (connect c)
  then show ?thesis using assms(2) by (auto simp: ws_connect_def ws_inv_def split: if_splits)
next
  case (frame c m)
  then show ?thesis using assms(2) readPump_own [of info c m]
    by (auto simp: ws_frame_def ws_inv_def SendJSONSafe_def split: if_splits hub_request.splits)
next
  case (hangup c)
  then show ?thesis using assms(2) by (auto simp: ws_hangup_def ws_inv_def split: if_splits)
next
  case (writes c)
  then obtain m ms where q: "chQueue (hbSend (wsHub s) c) = m # ms"
    and s': "s' = s\<lparr>wsHub := (wsHub s)\<lparr>hbSend := (hbSend (wsHub s))(c := (hbSend (wsHub s) c)\<lparr>chQueue := ms\<rparr>)\<rparr>\<rparr>"
    by (auto simp: ws_write_def Let_def split: list.splits)
  have "length ms \<le> clientSendCap" using assms(2) q by (auto simp: ws_inv_def hub_inv_def dest: spec [of _ c])
  then have "hub_inv info (wsHub s')" using assms(2) by (auto simp: s' ws_inv_def hub_inv_def)
  moreover have "fresh (wsHub s') x = fresh (wsHub s) x" for x by (simp add: s' fresh_def)
  ultimately show ?thesis using assms(2) by (auto simp: ws_inv_def s')
next
  case (publish chan stock p)
  then show ?thesis using assms(2) by (auto simp: Broadcast_def ws_inv_def)
next
  case (serve k)
  then show ?thesis using Run_turn_ok [OF assms(2) serve] by auto
qed

lemma ws_reachable_inv: "ws_reachable info s \<Longrightarrow> ws_inv info s"
  by (induction rule: ws_reachable.induct) (auto intro: ws_inv_New ws_step_inv)

section \<open>Properties\<close>

definition sample_info :: "addr \<Rightarrow> client_info" where
  "sample_info c = \<lparr>ciUser = (if c = 1 then ''alice'' else ''bob''), ciIp = ''10.0.0.1''\<rparr>"

definition sample_server :: WsServer where
  "sample_server = the (ws_connect NewWsServer 1)"

lemma sample_server_reachable: "ws_reachable info sample_server"
proof -
  have "ws_connect NewWsServer 1 = Some sample_server"
    by (simp add: sample_server_def ws_connect_def NewWsServer_def controlCap_def)
  then show ?thesis using ws_reachable.step [OF ws_reachable.init ws_step.connect] by blast
qed

text \<open>
  C7: in every state the WebSocket server can reach, under any interleaving of connecting,
  talking and disconnecting clients, broadcasts and the hub's own turns, no turn of the hub panics
  (no send on a closed channel, no double close), there are at most 1000 clients and ten per
  address, each has at most 20 subscriptions, and only the clients of a user are subscribed to
  that user's order updates.
\<close>

theorem ws_hub_is_safe:
  assumes "ws_reachable info s"
  shows "Run_turn info k s \<noteq> Some Panic \<and>
    card (hbClients (wsHub s)) \<le> 1000 \<and> (\<forall>ip. card {c \<in> hbClients (wsHub s). ciIp (info c) = ip} \<le> 10) \<and>
    (\<forall>c. card (hbClientSubs (wsHub s) c) \<le> 20) \<and>
    (\<forall>c u. c \<in> hbSubs (wsHub s) \<lparr>sbChannel = ''order.update'', sbStock = u\<rparr> \<longrightarrow> ciUser (info c) = u)"
proof -
  have inv: "ws_inv info s" by (rule ws_reachable_inv [OF assms])
  then have T: "hub_tables info (wsHub s)" by (simp add: ws_inv_def hub_inv_def)
  have "Run_turn info k s \<noteq> Some Panic" using Run_turn_ok [OF inv, of k] by blast
  moreover have "card {c \<in> hbClients (wsHub s). ciIp (info c) = ip} \<le> 10" for ip
  proof -
    have "hbIpCount (wsHub s) ip \<le> 10" "hbIpCount (wsHub s) ip = int (card {c \<in> hbClients (wsHub s). ciIp (info c) = ip})"
      using T by (auto simp: hub_tables_def MaxConnPerIP_def)
    then show ?thesis by simp
  qed
  moreover have "card (hbClientSubs (wsHub s) c) \<le> 20" for c
    using T by (cases "c \<in> hbClients (wsHub s)") (auto simp: hub_tables_def MaxSubsPerClient_def)
  moreover have "ciUser (info c) = u" if "c \<in> hbSubs (wsHub s) \<lparr>sbChannel = ''order.update'', sbStock = u\<rparr>" for c u
    using T that by (fastforce simp: hub_tables_def)
  ultimately show ?thesis using T by (auto simp: hub_tables_def MaxTotalConnections_def)
qed

theorem ws_hub_is_safe_witness:
  "ws_reachable sample_info sample_server \<and> Run_turn sample_info ChRegister sample_server \<noteq> Some Panic"
  using ws_hub_is_safe [OF sample_server_reachable, of sample_info ChRegister] sample_server_reachable by blast

text \<open>
  C24: a broadcast puts the message at the end of the queue of every subscriber that has room,
  disconnects exactly the subscribers whose buffer is full, and changes no other client's queue.
\<close>

theorem broadcast_reaches_exactly_the_subscribers:
  assumes "ws_reachable info s" and "distinct cs" and "set cs = hbSubs (wsHub s) sub"
  shows "\<exists>h'. hub_broadcast info (wsHub s) cs msg = Return h' \<and>
    hbClients h' = hbClients (wsHub s) - {c \<in> hbSubs (wsHub s) sub. 256 \<le> length (chQueue (hbSend (wsHub s) c))} \<and>
    (\<forall>c. \<not> (c \<in> hbSubs (wsHub s) sub \<and> 256 \<le> length (chQueue (hbSend (wsHub s) c))) \<longrightarrow>
       chQueue (hbSend h' c) = (if c \<in> hbSubs (wsHub s) sub then chQueue (hbSend (wsHub s) c) @ [msg]
                                else chQueue (hbSend (wsHub s) c)))"
  using broadcast_ok [of info "wsHub s" cs sub msg] ws_reachable_inv [OF assms(1)] assms(2,3)
  by (auto simp: ws_inv_def clientSendCap_def)

definition trades_of_BBCA :: Subscription where "trades_of_BBCA = \<lparr>sbChannel = ''market.trade'', sbStock = ''BBCA''\<rparr>"

definition subscribed_server :: WsServer where
  "subscribed_server =
     (let s = (case Run_turn sample_info ChRegister sample_server of Some (Return s) \<Rightarrow> s | _ \<Rightarrow> sample_server);
          s = the (ws_frame sample_info s 1 (Some \<lparr>cmAction = ''subscribe'', cmChannel = ''market.trade'', cmStock = ''BBCA''\<rparr>))
      in case Run_turn sample_info ChSubscribe s of Some (Return s) \<Rightarrow> s | _ \<Rightarrow> s)"

lemma subscribed_server_reachable:
  "ws_reachable sample_info subscribed_server \<and> hbSubs (wsHub subscribed_server) trades_of_BBCA = {1} \<and>
   length (chQueue (hbSend (wsHub subscribed_server) 1)) = 1"
proof -
  let ?m = "Some \<lparr>cmAction = ''subscribe'', cmChannel = ''market.trade'', cmStock = ''BBCA''\<rparr>"
  note defs = sample_server_def ws_connect_def NewWsServer_def controlCap_def NewHub_def new_channel_def
    Run_turn_def ws_pick_def Run_step_def hub_register_def hub_subscribe_def MaxTotalConnections_def MaxConnPerIP_def
    MaxSubsPerClient_def sendJSON_def try_send_def clientSendCap_def sample_info_def
    ws_frame_def readPump_frame_def handleMessage_def
  obtain s1 where s1: "Run_turn sample_info ChRegister sample_server = Some (Return s1)" by (simp add: defs)
  obtain s2 where s2: "ws_frame sample_info s1 1 ?m = Some s2" using s1 by (auto simp: defs)
  obtain s3 where s3: "Run_turn sample_info ChSubscribe s2 = Some (Return s3)"
    and h: "hbSubs (wsHub s3) trades_of_BBCA = {1}" "length (chQueue (hbSend (wsHub s3) 1)) = 1"
    using s1 s2 by (auto simp: defs trades_of_BBCA_def)
  have "subscribed_server = s3" by (simp add: subscribed_server_def s1 s2 s3 Let_def del: One_nat_def)
  moreover have "ws_reachable sample_info s3"
    by (rule ws_reachable.step [OF ws_reachable.step [OF ws_reachable.step [OF sample_server_reachable ws_step.serve [OF s1]]
            ws_step.frame [OF s2]] ws_step.serve [OF s3]])
  ultimately show ?thesis using h by simp
qed

theorem broadcast_reaches_exactly_the_subscribers_witness:
  "\<exists>h'. hub_broadcast sample_info (wsHub subscribed_server) [1] (error_message ''x'') = Return h' \<and>
    chQueue (hbSend h' 1) = chQueue (hbSend (wsHub subscribed_server) 1) @ [error_message ''x''] \<and>
    hbClients h' = hbClients (wsHub subscribed_server)"
proof -
  note R = subscribed_server_reachable
  have cs: "distinct [1::addr]" "set [1] = hbSubs (wsHub subscribed_server) trades_of_BBCA" using R by simp_all
  show ?thesis
    using broadcast_reaches_exactly_the_subscribers [OF conjunct1 [OF R] cs, of "error_message ''x''"] R by auto
qed


end
