(* ===== verification/Redis_Cache.thy ===== *)
theory Redis_Cache
  imports Services Wire_Data
begin

text \<open>
  The Redis cache of market data (src/internal/infra/storage/redis/cache.go). The server is
  third-party: what is relied on is that \<open>GET\<close> answers the last \<open>SET\<close> of the key until its time to
  live is over. A key holds a JSON document, given by its value; \<open>fault\<close> is the client's error for
  a call that fails.
\<close>

definition tickerTTL :: duration where "tickerTTL = 60 * 10 ^ 9"

definition orderBookTTL :: duration where "orderBookTTL = 10 * 10 ^ 9"

record Cache =
  rcKeys :: "string \<rightharpoonup> wire_data \<times> time"

definition tickerKey :: "string \<Rightarrow> string" where "tickerKey stock = ''ticker:'' @ stock"

definition orderBookKey :: "string \<Rightarrow> string" where "orderBookKey stock = ''orderbook:'' @ stock"

definition redis_set :: "time \<Rightarrow> Cache \<Rightarrow> string \<Rightarrow> wire_data \<Rightarrow> duration \<Rightarrow> Cache" where
  "redis_set now c key v ttl = c\<lparr>rcKeys := (rcKeys c)(key \<mapsto> (v, now + ttl))\<rparr>"

definition redis_get :: "time \<Rightarrow> Cache \<Rightarrow> string \<Rightarrow> wire_data option" where
  "redis_get now c key = (case rcKeys c key of None \<Rightarrow> None | Some (v, till) \<Rightarrow> if now < till then Some v else None)"

definition SetTicker :: "string option \<Rightarrow> time \<Rightarrow> Cache \<Rightarrow> string \<Rightarrow> Ticker \<Rightarrow> repo_error option \<times> Cache" where
  "SetTicker fault now c stock t =
     (case fault of
        Some m \<Rightarrow> (Some (ErrOther m), c)
      | None \<Rightarrow> (None, redis_set now c (tickerKey stock) (JTicker t) tickerTTL))"

definition Cache_GetTicker :: "string option \<Rightarrow> time \<Rightarrow> Cache \<Rightarrow> string \<Rightarrow> repo_error + Ticker option" where
  "Cache_GetTicker fault now c stock =
     (case fault of
        Some m \<Rightarrow> Inl (ErrOther m)
      | None \<Rightarrow>
          (case redis_get now c (tickerKey stock) of
             None \<Rightarrow> Inr None
           | Some (JTicker t) \<Rightarrow> Inr (Some t)
           | Some _ \<Rightarrow> Inl (ErrOther ''unmarshal'')))"

definition SetOrderBook :: "string option \<Rightarrow> time \<Rightarrow> Cache \<Rightarrow> string \<Rightarrow> OrderBook \<Rightarrow> repo_error option \<times> Cache" where
  "SetOrderBook fault now c stock b =
     (case fault of
        Some m \<Rightarrow> (Some (ErrOther m), c)
      | None \<Rightarrow> (None, redis_set now c (orderBookKey stock) (JBook b) orderBookTTL))"

definition Cache_GetOrderBook :: "string option \<Rightarrow> time \<Rightarrow> Cache \<Rightarrow> string \<Rightarrow> repo_error + OrderBook option" where
  "Cache_GetOrderBook fault now c stock =
     (case fault of
        Some m \<Rightarrow> Inl (ErrOther m)
      | None \<Rightarrow>
          (case redis_get now c (orderBookKey stock) of
             None \<Rightarrow> Inr None
           | Some (JBook b) \<Rightarrow> Inr (Some b)
           | Some _ \<Rightarrow> Inl (ErrOther ''unmarshal'')))"

text \<open>The cache as the market service reads it at an instant.\<close>

definition redis_market_cache :: "string option \<Rightarrow> time \<Rightarrow> Cache \<Rightarrow> MarketCache" where
  "redis_market_cache fault now c =
     \<lparr>cacheTicker = Cache_GetTicker fault now c, cacheOrderBook = Cache_GetOrderBook fault now c\<rparr>"

section \<open>Keys\<close>

text \<open>The two families of keys do not meet, and a key names its stock.\<close>

lemma cache_keys [simp]:
  "tickerKey s = tickerKey t \<longleftrightarrow> s = t" "orderBookKey s = orderBookKey t \<longleftrightarrow> s = t"
  "tickerKey s \<noteq> orderBookKey t" "orderBookKey t \<noteq> tickerKey s"
  by (simp_all add: tickerKey_def orderBookKey_def)

lemma get_ticker_after_set:
  assumes "SetTicker None t0 c stock tk = (None, c')"
  shows "Cache_GetTicker None now c' s =
    (if s = stock then Inr (if now < t0 + tickerTTL then Some tk else None) else Cache_GetTicker None now c s)"
    and "Cache_GetOrderBook None now c' s = Cache_GetOrderBook None now c s"
  using assms by (auto simp: SetTicker_def Cache_GetTicker_def Cache_GetOrderBook_def redis_set_def redis_get_def)

lemma get_book_after_set:
  assumes "SetOrderBook None t0 c stock b = (None, c')"
  shows "Cache_GetOrderBook None now c' s =
    (if s = stock then Inr (if now < t0 + orderBookTTL then Some b else None) else Cache_GetOrderBook None now c s)"
    and "Cache_GetTicker None now c' s = Cache_GetTicker None now c s"
  using assms by (auto simp: SetOrderBook_def Cache_GetTicker_def Cache_GetOrderBook_def redis_set_def redis_get_def)

lemma cached_reads:
  "GetTicker (SetCache (NewMarketService repo trades) (redis_market_cache None now c)) s =
     (case Cache_GetTicker None now c s of Inr (Some t) \<Rightarrow> Inr t | _ \<Rightarrow> MarketRepo_GetTicker repo s)"
  "GetOrderBook (SetCache (NewMarketService repo trades) (redis_market_cache None now c)) s =
     (case Cache_GetOrderBook None now c s of Inr (Some b) \<Rightarrow> Inr b | _ \<Rightarrow> MarketRepo_GetOrderBook repo s)"
  by (auto simp: GetTicker_def GetOrderBook_def Engine_GetOrderBook_def SetCache_def NewMarketService_def
      redis_market_cache_def split: sum.split option.split)

section \<open>Properties\<close>



end
