(* ===== verification/Server_Wiring.thy ===== *)
theory Server_Wiring
  imports WsServer Redis_Cache Postgres_Repos Broker Go_Strings
begin

text \<open>
  The event wiring of src/cmd/server/main.go: what the handlers of \<open>wireEvents\<close> do with a domain
  event, and what the NATS and Redis subscribers do with a message of another instance
  (src/internal/infra/broker/natsbroker, src/internal/infra/storage/redis/pubsub.go). The brokers
  are third-party: a publisher is the list of messages given to it, a subscriber the function
  called for a message whose subject matches. A document of a type that nobody publishes on a
  subject counts as not decodable.
\<close>

section \<open>The handlers of the domain events\<close>

text \<open>The parts the handlers reach; \<open>None\<close> stands for a part that is not configured.\<close>

record 'c wire_world =
  wwWs :: WsServer
  wwNats :: "(string \<times> wire_data) list option"
  wwRedis :: "(string \<times> wire_data) list option"
  wwCache :: "Cache option"
  wwDb :: "'c DBWorker option"
  wwTradesTotal :: "string \<Rightarrow> nat"
  wwOrdersTotal :: "string \<times> string \<Rightarrow> nat"

text \<open>NATS when it is configured, otherwise Redis; errors of either are ignored.\<close>

definition publish_out :: "string \<Rightarrow> string \<Rightarrow> wire_data \<Rightarrow> 'c wire_world \<Rightarrow> 'c wire_world" where
  "publish_out subject chan d w =
     (case wwNats w of
        Some ms \<Rightarrow> w\<lparr>wwNats := Some (ms @ [(subject, d)])\<rparr>
      | None \<Rightarrow>
          (case wwRedis w of None \<Rightarrow> w | Some ms \<Rightarrow> w\<lparr>wwRedis := Some (ms @ [(chan, d)])\<rparr>))"

definition enqueue_db :: "WriteOp \<Rightarrow> 'c wire_world \<Rightarrow> 'c wire_world" where
  "enqueue_db op w =
     (case wwDb w of None \<Rightarrow> w | Some d \<Rightarrow> w\<lparr>wwDb := Some (snd (Enqueue (dwStopped d) d op))\<rparr>)"

definition on_TradeExecuted :: "(addr \<Rightarrow> Order) \<Rightarrow> Event \<Rightarrow> 'c wire_world \<Rightarrow> 'c wire_world" where
  "on_TradeExecuted hp e w =
     (let d = Marshal hp (evPayload e); code = evStockCode e;
          w = w\<lparr>wwWs := Broadcast (wwWs w) ''market.trade'' code d\<rparr>;
          w = publish_out (''trade.'' @ code) (''trade.'' @ code) d w;
          w = (case evPayload e of PTrade t \<Rightarrow> enqueue_db \<lparr>opType = OpTradeSave, opPayload = WTrade t\<rparr> w | _ \<Rightarrow> w)
      in w\<lparr>wwTradesTotal := (wwTradesTotal w)(code := wwTradesTotal w code + 1)\<rparr>)"

text \<open>\<open>fault\<close> is the error of the Redis client, if the write fails.\<close>

definition on_TickerUpdated :: "string option \<Rightarrow> time \<Rightarrow> (addr \<Rightarrow> Order) \<Rightarrow> Event \<Rightarrow> 'c wire_world \<Rightarrow> 'c wire_world" where
  "on_TickerUpdated fault now hp e w =
     (let d = Marshal hp (evPayload e); code = evStockCode e;
          w = w\<lparr>wwWs := Broadcast (wwWs w) ''market.ticker'' code d\<rparr>;
          w = publish_out (''ticker.'' @ code) (''ticker.'' @ code) d w
      in case (wwCache w, evPayload e) of
           (Some c, PTicker t) \<Rightarrow> w\<lparr>wwCache := Some (snd (SetTicker fault now c code t))\<rparr>
         | _ \<Rightarrow> w)"

definition on_OrderBookUpdated :: "string option \<Rightarrow> time \<Rightarrow> (addr \<Rightarrow> Order) \<Rightarrow> Event \<Rightarrow> 'c wire_world \<Rightarrow> 'c wire_world" where
  "on_OrderBookUpdated fault now hp e w =
     (let d = Marshal hp (evPayload e); code = evStockCode e;
          w = w\<lparr>wwWs := Broadcast (wwWs w) ''market.orderbook'' code d\<rparr>;
          w = publish_out (''orderbook.'' @ code) (''orderbook.'' @ code) d w
      in case (wwCache w, evPayload e) of
           (Some c, PBook b) \<Rightarrow> w\<lparr>wwCache := Some (snd (SetOrderBook fault now c code b))\<rparr>
         | _ \<Rightarrow> w)"

definition on_OrderCreated :: "(addr \<Rightarrow> Order) \<Rightarrow> Event \<Rightarrow> 'c wire_world \<Rightarrow> 'c wire_world" where
  "on_OrderCreated hp e w =
     (case evPayload e of
        POrder a \<Rightarrow>
          let x = hp a;
              w = w\<lparr>wwOrdersTotal := (wwOrdersTotal w)((oStockCode x, oSide x) := wwOrdersTotal w (oStockCode x, oSide x) + 1)\<rparr>
          in enqueue_db \<lparr>opType = OpOrderSave, opPayload = WOrder x\<rparr> w
      | _ \<Rightarrow> w)"

definition on_OrderUpdated :: "(addr \<Rightarrow> Order) \<Rightarrow> Event \<Rightarrow> 'c wire_world \<Rightarrow> 'c wire_world" where
  "on_OrderUpdated hp e w =
     (case evPayload e of
        POrder a \<Rightarrow>
          let x = hp a; d = Marshal hp (evPayload e);
              w = w\<lparr>wwWs := BroadcastToUser (wwWs w) ''order.update'' (oUserID x) d\<rparr>;
              w = publish_out (''order.'' @ oUserID x) ''order.updates'' d w
          in enqueue_db \<lparr>opType = OpOrderUpdate, opPayload = WOrder x\<rparr> w
      | _ \<Rightarrow> w)"

text \<open>
  \<open>wireEvents\<close> subscribes one handler for each type. \<open>call_handler\<close> is the effect of the handler
  that the bus finds for an event.
\<close>

datatype wire_handler = HTrade | HTicker | HBook | HCreated | HUpdated

definition wireEvents :: "(wire_handler \<Rightarrow> string) \<Rightarrow> wire_handler EventBus \<Rightarrow> wire_handler EventBus" where
  "wireEvents ids b =
     (let b = snd (Subscribe (ids HTrade) b TradeExecuted HTrade);
          b = snd (Subscribe (ids HTicker) b TickerUpdated HTicker);
          b = snd (Subscribe (ids HBook) b OrderBookUpdated HBook);
          b = snd (Subscribe (ids HCreated) b OrderCreated HCreated)
      in snd (Subscribe (ids HUpdated) b OrderUpdated HUpdated))"

definition call_handler :: "time \<Rightarrow> (addr \<Rightarrow> Order) \<Rightarrow> wire_handler \<Rightarrow> Event \<Rightarrow> 'c wire_world \<Rightarrow> 'c wire_world" where
  "call_handler now hp h e w =
     (case h of
        HTrade \<Rightarrow> on_TradeExecuted hp e w
      | HTicker \<Rightarrow> on_TickerUpdated None now hp e w
      | HBook \<Rightarrow> on_OrderBookUpdated None now hp e w
      | HCreated \<Rightarrow> on_OrderCreated hp e w
      | HUpdated \<Rightarrow> on_OrderUpdated hp e w)"

section \<open>Messages of other instances\<close>

definition subjectSuffix :: "string \<Rightarrow> string" where
  "subjectSuffix subject =
     (case cut_at CHR ''.'' subject of
        (p, None) \<Rightarrow> subject
      | (p, Some rest) \<Rightarrow> if rest = [] then subject else rest)"

text \<open>The subjects that match \<open>prefix.*\<close>: one more token.\<close>

definition nats_match :: "string \<Rightarrow> string \<Rightarrow> bool" where
  "nats_match pre subject \<longleftrightarrow>
     (case cut_at CHR ''.'' subject of
        (p, None) \<Rightarrow> False
      | (p, Some rest) \<Rightarrow> p = pre \<and> rest \<noteq> [] \<and> CHR ''.'' \<notin> set rest)"

definition nats_trade :: "string \<Rightarrow> wire_data \<Rightarrow> WsServer \<Rightarrow> WsServer" where
  "nats_trade subj d s =
     (case d of JTrade t \<Rightarrow> Broadcast s ''market.trade'' (subjectSuffix subj) (JTrade t) | _ \<Rightarrow> s)"

definition nats_ticker :: "string \<Rightarrow> wire_data \<Rightarrow> WsServer \<Rightarrow> WsServer" where
  "nats_ticker subj d s =
     (case d of JTicker t \<Rightarrow> Broadcast s ''market.ticker'' (subjectSuffix subj) (JTicker t) | _ \<Rightarrow> s)"

definition nats_book :: "string \<Rightarrow> wire_data \<Rightarrow> WsServer \<Rightarrow> WsServer" where
  "nats_book subj d s =
     (case d of JBook b \<Rightarrow> Broadcast s ''market.orderbook'' (subjectSuffix subj) (JBook b) | _ \<Rightarrow> s)"

definition nats_order :: "string \<Rightarrow> wire_data \<Rightarrow> WsServer \<Rightarrow> WsServer" where
  "nats_order subj d s =
     (case d of JOrder x \<Rightarrow> BroadcastToUser s ''order.update'' (subjectSuffix subj) (JOrder x) | _ \<Rightarrow> s)"

definition wireNATSSubscriber :: "string \<times> wire_data \<Rightarrow> WsServer \<Rightarrow> WsServer" where
  "wireNATSSubscriber m s =
     fold (\<lambda>(pre, h) s. if nats_match pre (fst m) then h (fst m) (snd m) s else s)
       [(''trade'', nats_trade), (''ticker'', nats_ticker), (''orderbook'', nats_book), (''order'', nats_order)] s"

text \<open>One Redis subscription per stock and kind, and one for the order updates of all users.\<close>

definition wireRedisPubSubSubscriber :: "Stock list \<Rightarrow> string \<times> wire_data \<Rightarrow> WsServer \<Rightarrow> WsServer" where
  "wireRedisPubSubSubscriber stocks m s =
     (let s = fold (\<lambda>st s.
                 let code = sCode st;
                     s = (case snd m of JTrade t \<Rightarrow> if fst m = ''trade.'' @ code then Broadcast s ''market.trade'' code (JTrade t) else s
                                       | _ \<Rightarrow> s);
                     s = (case snd m of JTicker t \<Rightarrow> if fst m = ''ticker.'' @ code then Broadcast s ''market.ticker'' code (JTicker t) else s
                                       | _ \<Rightarrow> s)
                 in (case snd m of JBook b \<Rightarrow> if fst m = ''orderbook.'' @ code then Broadcast s ''market.orderbook'' code (JBook b) else s
                                  | _ \<Rightarrow> s)) stocks s
      in case snd m of
           JOrder x \<Rightarrow> if fst m = ''order.updates'' then BroadcastToUser s ''order.update'' (oUserID x) (JOrder x) else s
         | _ \<Rightarrow> s)"

section \<open>Subjects\<close>

definition token_ok :: "string \<Rightarrow> bool" where
  "token_ok t \<longleftrightarrow> t \<noteq> [] \<and> CHR ''.'' \<notin> set t"

lemma cut_at_prefix: "c \<notin> set p \<Longrightarrow> cut_at c (p @ c # rest) = (p, Some rest)"
  by (induction p) auto

lemma subject_parts:
  assumes "CHR ''.'' \<notin> set p" and "token_ok t"
  shows "subjectSuffix (p @ CHR ''.'' # t) = t" and "nats_match q (p @ CHR ''.'' # t) \<longleftrightarrow> q = p"
  using assms cut_at_prefix [OF assms(1), of t] by (auto simp: subjectSuffix_def nats_match_def token_ok_def)

text \<open>The topic and the key of an event: what it is broadcast under and published as.\<close>

definition event_topic :: "(addr \<Rightarrow> Order) \<Rightarrow> Event \<Rightarrow> (string \<times> string \<times> string) option" where
  "event_topic hp e =
     (case (evType e, evPayload e) of
        (TradeExecuted, PTrade _) \<Rightarrow> Some (''market.trade'', ''trade'', evStockCode e)
      | (TickerUpdated, PTicker _) \<Rightarrow> Some (''market.ticker'', ''ticker'', evStockCode e)
      | (OrderBookUpdated, PBook _) \<Rightarrow> Some (''market.orderbook'', ''orderbook'', evStockCode e)
      | (OrderUpdated, POrder a) \<Rightarrow> Some (''order.update'', ''order'', oUserID (hp a))
      | _ \<Rightarrow> None)"

definition handler_of :: "event_type \<Rightarrow> wire_handler" where
  "handler_of t =
     (case t of TradeExecuted \<Rightarrow> HTrade | TickerUpdated \<Rightarrow> HTicker | OrderBookUpdated \<Rightarrow> HBook
      | OrderCreated \<Rightarrow> HCreated | OrderUpdated \<Rightarrow> HUpdated)"

lemma wireEvents_handlers: "map subHandler (busSubs (wireEvents ids NewEventBus) t) = [handler_of t]"
  by (cases t) (simp_all add: wireEvents_def Subscribe_def NewEventBus_def handler_of_def)

lemma enqueue_db_frame [simp]:
  "wwWs (enqueue_db op w) = wwWs w" "wwNats (enqueue_db op w) = wwNats w" "wwRedis (enqueue_db op w) = wwRedis w"
  "wwCache (enqueue_db op w) = wwCache w"
  by (simp_all add: enqueue_db_def split: option.split)

lemma publish_out_frame [simp]:
  "wwWs (publish_out s c d w) = wwWs w" "wwDb (publish_out s c d w) = wwDb w" "wwCache (publish_out s c d w) = wwCache w"
  "wwNats (publish_out s c d w) = map_option (\<lambda>ms. ms @ [(s, d)]) (wwNats w)"
  by (auto simp: publish_out_def split: option.split)

lemma call_handler_topic:
  assumes "event_topic hp e = Some (chan, pre, key)"
  shows "wwWs (call_handler now hp (handler_of (evType e)) e w) = Broadcast (wwWs w) chan key (Marshal hp (evPayload e)) \<and>
    wwNats (call_handler now hp (handler_of (evType e)) e w) =
      map_option (\<lambda>ms. ms @ [(pre @ CHR ''.'' # key, Marshal hp (evPayload e))]) (wwNats w)"
  using assms
  by (cases "evType e"; cases "evPayload e")
    (auto simp: event_topic_def handler_of_def call_handler_def on_TradeExecuted_def on_TickerUpdated_def
      on_OrderBookUpdated_def on_OrderUpdated_def BroadcastToUser_def Let_def split: option.split)

lemma nats_delivery:
  assumes "event_topic hp e = Some (chan, pre, key)" and "token_ok key"
  shows "wireNATSSubscriber (pre @ CHR ''.'' # key, Marshal hp (evPayload e)) s =
    Broadcast s chan key (Marshal hp (evPayload e))"
proof -
  have dot: "CHR ''.'' \<notin> set pre" using assms(1) by (auto simp: event_topic_def split: event_type.splits payload.splits)
  note parts = subject_parts [OF dot assms(2)]
  show ?thesis
    using assms(1) unfolding wireNATSSubscriber_def
    by (cases "evType e"; cases "evPayload e")
      (auto simp: event_topic_def Marshal_def nats_trade_def nats_ticker_def nats_book_def nats_order_def BroadcastToUser_def
        parts [simplified])
qed

lemma deliver_wired:
  "snd (deliver (quiet (call_handler now hp)) e (wireEvents ids NewEventBus, w)) =
     call_handler now hp (handler_of (evType e)) e w"
  by (simp add: deliver_quiet wireEvents_handlers)

section \<open>Persistence of a trade that overtakes its order\<close>

lemma Enqueue_room:
  "dwStopped d = False \<Longrightarrow> \<not> chClosed (dwCh d) \<Longrightarrow> int (length (chQueue (dwCh d))) < cfChannelSize (dwCfg d) \<Longrightarrow>
   Enqueue (dwStopped d) d op = (None, d\<lparr>dwCh := (dwCh d)\<lparr>chQueue := chQueue (dwCh d) @ [op]\<rparr>\<rparr>)"
  by (auto simp: Enqueue_def try_send_def)

definition write_op :: "(addr \<Rightarrow> Order) \<Rightarrow> Event \<Rightarrow> WriteOp option" where
  "write_op hp e =
     (case (evType e, evPayload e) of
        (TradeExecuted, PTrade t) \<Rightarrow> Some \<lparr>opType = OpTradeSave, opPayload = WTrade t\<rparr>
      | (OrderCreated, POrder a) \<Rightarrow> Some \<lparr>opType = OpOrderSave, opPayload = WOrder (hp a)\<rparr>
      | (OrderUpdated, POrder a) \<Rightarrow> Some \<lparr>opType = OpOrderUpdate, opPayload = WOrder (hp a)\<rparr>
      | _ \<Rightarrow> None)"

lemma call_handler_db:
  "wwDb (call_handler now hp (handler_of (evType e)) e w) =
     (case write_op hp e of
        None \<Rightarrow> wwDb w
      | Some op \<Rightarrow> map_option (\<lambda>d. snd (Enqueue (dwStopped d) d op)) (wwDb w))"
  by (cases "evType e"; cases "evPayload e")
    (auto simp: write_op_def handler_of_def call_handler_def on_TradeExecuted_def on_TickerUpdated_def
      on_OrderBookUpdated_def on_OrderUpdated_def on_OrderCreated_def enqueue_db_def Let_def split: option.split)

text \<open>The write operations of a sequence of events, in the order of delivery.\<close>

lemma deliver_all_db:
  assumes "wwDb w = Some d" and "\<not> dwStopped d" and "\<not> chClosed (dwCh d)"
    and "int (length (chQueue (dwCh d)) + length es) \<le> cfChannelSize (dwCfg d)"
  shows "\<exists>w'. fold (\<lambda>e. call_handler now hp (handler_of (evType e)) e) es w = w' \<and>
    wwDb w' = Some (d\<lparr>dwCh := (dwCh d)\<lparr>chQueue := chQueue (dwCh d) @ List.map_filter (write_op hp) es\<rparr>\<rparr>)"
  using assms
proof (induction es arbitrary: w d)
  case Nil
  then show ?case by (simp add: List.map_filter_def)
next
  case (Cons e es)
  define w1 where "w1 = call_handler now hp (handler_of (evType e)) e w"
  show ?case
  proof (cases "write_op hp e")
    case None
    then have "wwDb w1 = Some d" using Cons.prems(1) by (simp add: w1_def call_handler_db)
    then show ?thesis using Cons.IH [of w1 d] Cons.prems None by (simp add: w1_def List.map_filter_def)
  next
    case (Some op)
    define d1 where "d1 = d\<lparr>dwCh := (dwCh d)\<lparr>chQueue := chQueue (dwCh d) @ [op]\<rparr>\<rparr>"
    have "Enqueue (dwStopped d) d op = (None, d1)" using Enqueue_room [of d op] Cons.prems by (simp add: d1_def)
    then have "wwDb w1 = Some d1" using Cons.prems(1) Some by (simp add: w1_def call_handler_db)
    then show ?thesis using Cons.IH [of w1 d1] Cons.prems Some by (simp add: w1_def d1_def List.map_filter_def)
  qed
qed

lemma recv_turns_fill:
  assumes "\<not> dwExited d" and "chQueue (dwCh d) = ops" and "int (length (dwBatch d) + length ops) < cfBatchSize (dwCfg d)"
  shows "recv_turns S (length ops) d = Some (d\<lparr>dwCh := (dwCh d)\<lparr>chQueue := []\<rparr>, dwBatch := dwBatch d @ ops\<rparr>)"
  using assms
proof (induction ops arbitrary: d)
  case (Cons op ops)
  define d1 where "d1 = d\<lparr>dwCh := (dwCh d)\<lparr>chQueue := ops\<rparr>, dwBatch := dwBatch d @ [op]\<rparr>"
  have "Start_recv S d = Some d1" using Cons.prems by (simp add: Start_recv_def d1_def Let_def)
  then show ?case using Cons.IH [of d1] Cons.prems by (simp add: d1_def)
qed simp

section \<open>Properties\<close>


definition sample_hp :: "addr \<Rightarrow> Order" where
  "sample_hp a =
     \<lparr>oID = (if a = 1 then ''s'' else ''b''), oUserID = (if a = 1 then ''bob'' else ''alice''), oStockCode = ''BBCA'',
      oSide = (if a = 1 then SideSell else SideBuy), oPrice = 9500, oQuantity = 5,
      oFilledQuantity = (if a = 2 then 0 else 5), oStatus = (if a = 2 then OrderStatusOpen else OrderStatusFilled),
      oCreatedAt = 0, oUpdatedAt = 0\<rparr>"

definition sample_trade_event :: Event where
  "sample_trade_event =
     \<lparr>evType = TradeExecuted, evStockCode = ''BBCA'', evUserID = [],
      evPayload = PTrade \<lparr>tID = ''t'', tStockCode = ''BBCA'', tBuyOrderID = ''b'', tSellOrderID = ''s'', tPrice = 9500,
                          tQuantity = 5, tBuyerUserID = ''alice'', tSellerUserID = ''bob'', tExecutedAt = 0\<rparr>,
      evTimestamp = 0\<rparr>"

definition sample_wire :: "unit wire_world" where
  "sample_wire =
     \<lparr>wwWs = NewWsServer, wwNats = Some [], wwRedis = None, wwCache = None, wwDb = None,
      wwTradesTotal = (\<lambda>_. 0), wwOrdersTotal = (\<lambda>_. 0)\<rparr>"

lemma sample_event_topic:
  "event_topic hp sample_trade_event = Some (''market.trade'', ''trade'', ''BBCA'')" "token_ok ''BBCA''"
  "wwNats sample_wire = Some []" "wwWs sample_wire = NewWsServer"
  by (simp_all add: event_topic_def sample_trade_event_def token_ok_def sample_wire_def)




text \<open>
  C35: the matching engine publishes a trade before the order service publishes the creation of the
  incoming order whenever it wins the race after \<open>SubmitOrder\<close>. Delivered in that order, and
  flushed together by the tick, the batch of the database worker inserts the trade before the row
  of its buy order, violates the foreign key on every attempt, and is given up whole, with the
  order itself; the tables stay as they were.
\<close>

theorem trade_before_order_created_loses_the_batch:
  assumes "wwDb w = Some d" and "\<not> dwStopped d" and "\<not> dwExited d"
    and "dwCh d = new_channel" and "dwBatch d = []" and "dwPool d = Some db"
    and "4 \<le> cfChannelSize (dwCfg d)" and "4 < cfBatchSize (dwCfg d)"
    and "\<not> has_order db (tBuyOrderID t)" and "tID t \<notin> tID ` set (pgTrades db)"
    and "map (\<lambda>e. (evType e, evPayload e)) es =
      [(TradeExecuted, PTrade t), (OrderUpdated, POrder buy), (OrderUpdated, POrder sell), (OrderCreated, POrder snapshot)]"
  shows "\<exists>d' d'' ops. wwDb (fold (\<lambda>e. call_handler now hp (handler_of (evType e)) e) es w) = Some d' \<and>
    Start_tick pg_SendBatch (the (recv_turns pg_SendBatch 4 d')) = Some d'' \<and>
    length ops = 4 \<and> dwDropped d'' = dwDropped d @ ops \<and> dwFlushed d'' = dwFlushed d \<and> dwPool d'' = Some db"
proof -
  define ops where "ops = [\<lparr>opType = OpTradeSave, opPayload = WTrade t\<rparr>, \<lparr>opType = OpOrderUpdate, opPayload = WOrder (hp buy)\<rparr>,
      \<lparr>opType = OpOrderUpdate, opPayload = WOrder (hp sell)\<rparr>, \<lparr>opType = OpOrderSave, opPayload = WOrder (hp snapshot)\<rparr>]"
  obtain e1 e2 e3 e4 where es: "es = [e1, e2, e3, e4]" using assms(11) by (auto simp: map_eq_Cons_conv)
  then have mf: "List.map_filter (write_op hp) es = ops"
    using assms(11) by (simp add: List.map_filter_def write_op_def ops_def)
  define d1 where "d1 = d\<lparr>dwCh := (dwCh d)\<lparr>chQueue := ops\<rparr>\<rparr>"
  have db1: "wwDb (fold (\<lambda>e. call_handler now hp (handler_of (evType e)) e) es w) = Some d1"
    using deliver_all_db [OF assms(1,2), of es now hp] assms(4,7) mf by (simp add: es d1_def new_channel_def)
  define d2 where "d2 = d1\<lparr>dwCh := (dwCh d1)\<lparr>chQueue := []\<rparr>, dwBatch := ops\<rparr>"
  have len: "length ops = 4" by (simp add: ops_def)
  have r: "recv_turns pg_SendBatch 4 d1 = Some d2"
    using recv_turns_fill [of d1 ops pg_SendBatch, unfolded len] assms(3,5,8) by (simp add: d1_def d2_def)
  have "statements ops = [] @ InsertTrade t # [UpsertOrder (hp buy), UpsertOrder (hp sell), UpsertOrder (hp snapshot)]"
    by (simp add: ops_def statements_def List.map_filter_def)
  then have "exec_batch (statements ops) db = None" using fk_blocks [of "[]" db db t] assms(9,10) by simp
  then have "flush_batch pg_SendBatch d2 = d2\<lparr>dwBatch := [], dwDropped := dwDropped d2 @ dwBatch d2\<rparr>"
    using assms(6) by (intro flush_batch_all_fail [of _ db]) (simp_all add: d2_def d1_def)
  then have "Start_tick pg_SendBatch d2 = Some (d2\<lparr>dwBatch := [], dwDropped := dwDropped d @ ops\<rparr>)"
    using assms(3) by (simp add: Start_tick_def d2_def d1_def)
  then show ?thesis using db1 r assms(6) len by (auto simp: d2_def d1_def)
qed

definition sample_pg :: pg_db where "sample_pg = \<lparr>pgOrders = [], pgTrades = [], pgUsers = []\<rparr>"

definition sample_db_worker :: "pg_db DBWorker" where "sample_db_worker = NewDBWorker (Some sample_pg) DefaultDBWorkerConfig"

definition sample_db_world :: "pg_db wire_world" where
  "sample_db_world =
     \<lparr>wwWs = NewWsServer, wwNats = None, wwRedis = None, wwCache = None, wwDb = Some sample_db_worker,
      wwTradesTotal = (\<lambda>_. 0), wwOrdersTotal = (\<lambda>_. 0)\<rparr>"

definition sample_events :: "Event list" where
  "sample_events =
     map (\<lambda>(t, p). \<lparr>evType = t, evStockCode = ''BBCA'', evUserID = [], evPayload = p, evTimestamp = 0\<rparr>)
       [(TradeExecuted, evPayload sample_trade_event), (OrderUpdated, POrder 0), (OrderUpdated, POrder 1), (OrderCreated, POrder 2)]"

theorem trade_before_order_created_loses_the_batch_witness:
  "\<exists>d' d'' ops. wwDb (fold (\<lambda>e. call_handler 0 sample_hp (handler_of (evType e)) e) sample_events sample_db_world) = Some d' \<and>
    Start_tick pg_SendBatch (the (recv_turns pg_SendBatch 4 d')) = Some d'' \<and>
    length ops = 4 \<and> dwDropped d'' = dwDropped sample_db_worker @ ops \<and> dwFlushed d'' = dwFlushed sample_db_worker \<and>
    dwPool d'' = Some sample_pg"
  by (rule trade_before_order_created_loses_the_batch [where t = "\<lparr>tID = ''t'', tStockCode = ''BBCA'', tBuyOrderID = ''b'',
        tSellOrderID = ''s'', tPrice = 9500, tQuantity = 5, tBuyerUserID = ''alice'', tSellerUserID = ''bob'', tExecutedAt = 0\<rparr>"
        and buy = 0 and sell = 1 and snapshot = 2])
    (simp_all add: sample_db_world_def sample_db_worker_def NewDBWorker_def DefaultDBWorkerConfig_def sample_pg_def
      has_order_def sample_events_def sample_trade_event_def)

end
