(* ===== verification/Simulator_Model.thy ===== *)
theory Simulator_Model
  imports Memory_Repos Broker
begin

text \<open>
  The price simulator (src/internal/simulator/price.go): one goroutine per stock that draws a
  random walk with mean reversion and takes over the prices of real trades. What \<open>math/rand\<close>
  draws is an argument of the turn that uses it; the clock readings are arguments too.
\<close>

section \<open>The simulator and its channels\<close>

record SimulatorConfig =
  scIntervalMin :: duration
  scIntervalMax :: duration

definition DefaultSimulatorConfig :: SimulatorConfig where
  "DefaultSimulatorConfig = \<lparr>scIntervalMin = 10 ^ 9, scIntervalMax = 3 * 10 ^ 9\<rparr>"

record tradeUpdate =
  tuPrice :: int64
  tuQty :: int64

record Simulator =
  siStocks :: "Stock list"
  siCfg :: SimulatorConfig
  siTradeChans :: "string \<rightharpoonup> tradeUpdate channel"
  siCancelled :: bool

definition tradeChanCap :: nat where "tradeChanCap = 16"

definition NewSimulator :: "Stock list \<Rightarrow> SimulatorConfig \<Rightarrow> Simulator" where
  "NewSimulator stocks cfg =
     \<lparr>siStocks = stocks, siCfg = cfg,
      siTradeChans = fold (\<lambda>s m. m(sCode s \<mapsto> new_channel)) stocks Map.empty, siCancelled = False\<rparr>"

text \<open>The repository after the first loop of \<open>Start\<close>, for the clock readings of each call.\<close>

definition Simulator_init :: "(Stock \<Rightarrow> time \<times> time) \<Rightarrow> Simulator \<Rightarrow> MarketRepo \<Rightarrow> MarketRepo" where
  "Simulator_init ts sim r = fold (\<lambda>s r. MarketRepo_InitStock (fst (ts s)) (snd (ts s)) r s) (siStocks sim) r"

text \<open>The handler that \<open>Start\<close> subscribes to \<open>TradeExecuted\<close>; nobody closes these channels.\<close>

definition Simulator_on_trade :: "Simulator \<Rightarrow> Event \<Rightarrow> Simulator" where
  "Simulator_on_trade sim e =
     (case evPayload e of
        PTrade trade \<Rightarrow>
          (case siTradeChans sim (tStockCode trade) of
             None \<Rightarrow> sim
           | Some ch \<Rightarrow>
               (case try_send tradeChanCap ch \<lparr>tuPrice = tPrice trade, tuQty = tQuantity trade\<rparr> of
                  (Sent, ch) \<Rightarrow> sim\<lparr>siTradeChans := (siTradeChans sim)(tStockCode trade \<mapsto> ch)\<rparr>
                | _ \<Rightarrow> sim))
      | _ \<Rightarrow> sim)"

definition Simulator_Stop :: "Simulator \<Rightarrow> Simulator" where
  "Simulator_Stop sim = sim\<lparr>siCancelled := True\<rparr>"

section \<open>Prices\<close>

definition clamp :: "int64 \<Rightarrow> int64 \<Rightarrow> int64 \<Rightarrow> int64" where
  "clamp v lo hi = (if v < lo then lo else if v > hi then hi else v)"

text \<open>The constants as Go converts them to float64.\<close>

definition walk_factor :: float64 where "walk_factor = round53 (5 / 1000)"

definition reversion_factor :: float64 where "reversion_factor = round53 (1 / 100)"

definition price_delta :: "float64 \<Rightarrow> int64 \<Rightarrow> int64 \<Rightarrow> float64" where
  "price_delta rnd current base =
     (let delta = fmul (fmul (float_of_int64 current) walk_factor) (fsub (fmul rnd 2) 1)
      in fadd delta (fmul (float_of_int64 (sub64 base current)) reversion_factor))"

definition nextPrice :: "float64 \<Rightarrow> int64 \<Rightarrow> int64 \<Rightarrow> int64 \<Rightarrow> int64" where
  "nextPrice rnd current base tickSize =
     (let newPrice = add64 current (int64_of_float (price_delta rnd current base));
          newPrice = RoundToTick newPrice tickSize;
          newPrice = clamp newPrice (quot64 (mul64 base 90) 100) (quot64 (mul64 base 110) 100)
      in if newPrice < tickSize then tickSize else newPrice)"

text \<open>\<open>rand.Int63n\<close> panics unless its argument is positive; \<open>draw\<close> is what it draws otherwise.\<close>

definition randomDuration :: "(int64 \<Rightarrow> int64) \<Rightarrow> duration \<Rightarrow> duration \<Rightarrow> duration outcome" where
  "randomDuration draw mn mx =
     (if mx \<le> mn then Return mn
      else let n = sub64 mx mn in if n \<le> 0 then Panic else Return (add64 mn (draw n)))"

section \<open>The goroutine of a stock\<close>

record sim_stock =
  ssPrice :: int64
  ssPrevClose :: int64
  ssHigh :: int64
  ssLow :: int64
  ssVolume :: int64

definition sim_start :: "Stock \<Rightarrow> sim_stock" where
  "sim_start stock =
     \<lparr>ssPrice = sBasePrice stock, ssPrevClose = sBasePrice stock, ssHigh = sBasePrice stock,
      ssLow = sBasePrice stock, ssVolume = 0\<rparr>"

definition observe :: "int64 \<Rightarrow> int64 \<Rightarrow> sim_stock \<Rightarrow> sim_stock" where
  "observe price tickVol st =
     (let st = st\<lparr>ssVolume := add64 (ssVolume st) tickVol, ssPrice := price\<rparr>;
          st = (if ssPrice st > ssHigh st then st\<lparr>ssHigh := ssPrice st\<rparr> else st)
      in if ssPrice st < ssLow st \<or> ssLow st = 0 then st\<lparr>ssLow := ssPrice st\<rparr> else st)"

definition sim_ticker :: "time \<Rightarrow> Stock \<Rightarrow> sim_stock \<Rightarrow> Ticker" where
  "sim_ticker now stock st =
     (let ch = sub64 (ssPrice st) (ssPrevClose st)
      in \<lparr>tkStockCode = sCode stock, tkLastPrice = ssPrice st, tkPrevClose = ssPrevClose st, tkChange = ch,
          tkChangePct = (if ssPrevClose st > 0
                         then fmul (fdiv (float_of_int64 ch) (float_of_int64 (ssPrevClose st))) 100 else 0),
          tkHigh = ssHigh st, tkLow = ssLow st, tkVolume = ssVolume st, tkUpdatedAt = now\<rparr>)"

type_synonym 'h feed_world = "MarketRepo \<times> 'h EventBus"

definition emit :: "time \<Rightarrow> time \<Rightarrow> Stock \<Rightarrow> sim_stock \<Rightarrow> 'h feed_world \<Rightarrow> 'h feed_world outcome" where
  "emit now1 now2 stock st w =
     (let ticker = sim_ticker now1 stock st;
          (err, repo) = MarketRepo_UpdateTicker (fst w) ticker
      in case Publish (snd w) \<lparr>evType = TickerUpdated, evStockCode = sCode stock, evUserID = [],
                               evPayload = PTicker ticker, evTimestamp = now2\<rparr> of
           Panic \<Rightarrow> Panic
         | Return bus \<Rightarrow> Return (repo, bus))"

text \<open>
  A turn of the loop of \<open>simulateStock\<close>: a trade from the channel, or the timer, with the number
  of \<open>rand.Float64\<close> and that of \<open>rand.Int63n(450)\<close>. \<open>None\<close> stands for a turn that cannot be taken.
\<close>

datatype sim_choice = TakeTrade | TimerFires float64 int64

definition sim_next :: "Stock \<Rightarrow> sim_choice \<Rightarrow> sim_stock \<times> tradeUpdate channel \<Rightarrow> (sim_stock \<times> tradeUpdate channel) option" where
  "sim_next stock c s =
     (case c of
        TakeTrade \<Rightarrow>
          (case chQueue (snd s) of
             [] \<Rightarrow> None
           | t # rest \<Rightarrow> Some (observe (tuPrice t) (tuQty t) (fst s), (snd s)\<lparr>chQueue := rest\<rparr>))
      | TimerFires rnd k \<Rightarrow>
          Some (observe (nextPrice rnd (ssPrice (fst s)) (sBasePrice stock) (sTickSize stock)) (add64 k 50) (fst s), snd s))"

definition simulateStock_turn ::
  "time \<Rightarrow> time \<Rightarrow> Stock \<Rightarrow> sim_choice \<Rightarrow> (sim_stock \<times> tradeUpdate channel) \<times> 'h feed_world
     \<Rightarrow> ((sim_stock \<times> tradeUpdate channel) \<times> 'h feed_world) outcome option" where
  "simulateStock_turn now1 now2 stock c sw =
     (case sim_next stock c (fst sw) of
        None \<Rightarrow> None
      | Some s \<Rightarrow> Some (case emit now1 now2 stock (fst s) (snd sw) of Panic \<Rightarrow> Panic | Return w \<Rightarrow> Return (s, w)))"

section \<open>Bounds of the simulated price\<close>

lemma clamp_bounds: "lo \<le> hi \<Longrightarrow> lo \<le> clamp v lo hi \<and> clamp v lo hi \<le> hi"
  by (simp add: clamp_def)

lemma clamp_cases: "clamp v lo hi = v \<or> clamp v lo hi = lo \<or> clamp v lo hi = hi"
  by (simp add: clamp_def)

lemma RoundToTick_laws:
  assumes "in64 p" and "0 < t"
  shows "t dvd RoundToTick p t" and "\<bar>RoundToTick p t\<bar> \<le> \<bar>p\<bar>" and "0 \<le> p \<Longrightarrow> RoundToTick p t = p div t * t"
proof -
  define q where "q = sgn p * (\<bar>p\<bar> div t)"
  have le: "\<bar>p\<bar> div t * t \<le> \<bar>p\<bar>"
    using div_mult_mod_eq [of "\<bar>p\<bar>" t] pos_mod_sign [OF assms(2), of "\<bar>p\<bar>"] by linarith
  have abs: "\<bar>q * t\<bar> = \<bar>p\<bar> div t * t"
    using assms(2) by (cases "p = 0") (simp_all add: q_def abs_mult abs_sgn_eq pos_imp_zdiv_nonneg_iff)
  have "\<bar>q\<bar> \<le> \<bar>q * t\<bar>" using assms(2) by (simp add: abs_mult mult_le_cancel_left1)
  then have q64: "in64 q \<and> in64 (q * t) \<or> p = - (2 ^ 63)"
    using assms(1) abs le by (auto simp: in64_def)
  have neg: "p < 0 \<Longrightarrow> q \<le> 0" using assms(2) by (simp add: q_def pos_imp_zdiv_nonneg_iff)
  have "in64 q \<and> in64 (q * t)"
  proof (cases "p = - (2 ^ 63)")
    case True
    then have "q \<le> 0" and "q * t \<le> 0" using neg assms(2) by (simp_all add: mult_le_0_iff)
    moreover have "\<bar>q * t\<bar> \<le> 2 ^ 63" "\<bar>q\<bar> \<le> 2 ^ 63" using abs le \<open>\<bar>q\<bar> \<le> \<bar>q * t\<bar>\<close> True by simp_all
    ultimately show ?thesis by (simp add: in64_def)
  qed (use q64 in blast)
  then have eq: "RoundToTick p t = q * t"
    using assms(2) by (simp add: RoundToTick_def quot64_def mul64_def q_def wrap64_id)
  show "t dvd RoundToTick p t" by (simp add: eq)
  show "\<bar>RoundToTick p t\<bar> \<le> \<bar>p\<bar>" using abs le by (simp add: eq)
  show "0 \<le> p \<Longrightarrow> RoundToTick p t = p div t * t" using eq by (cases "p = 0") (simp_all add: q_def)
qed

lemma band_limits:
  assumes "0 < base" and "in64 (base * 110)"
  shows "quot64 (mul64 base 90) 100 = base * 90 div 100" and "quot64 (mul64 base 110) 100 = base * 110 div 100"
proof -
  have "in64 (base * 90)" using assms by (simp add: in64_def)
  then show "quot64 (mul64 base 90) 100 = base * 90 div 100" "quot64 (mul64 base 110) 100 = base * 110 div 100"
    using assms by (simp_all add: mul64_id quot64_nonneg)
qed

lemma nextPrice_band:
  assumes "0 < base" and "in64 (base * 110)"
  shows "max tick (base * 90 div 100) \<le> nextPrice rnd cur base tick \<and>
    nextPrice rnd cur base tick \<le> max tick (base * 110 div 100)"
proof -
  have "base * 90 div 100 \<le> base * 110 div 100" using assms(1) by (intro zdiv_mono1) simp_all
  note lim = clamp_bounds [OF this, of "RoundToTick (add64 cur (int64_of_float (price_delta rnd cur base))) tick"]
  then show ?thesis unfolding nextPrice_def Let_def band_limits [OF assms] by (auto simp only: split: if_split) linarith+
qed

lemma nextPrice_tick:
  assumes "0 < base" and "in64 (base * 110)" and "0 < tick"
    and "tick dvd base * 90 div 100" and "tick dvd base * 110 div 100"
  shows "tick dvd nextPrice rnd cur base tick"
proof -
  define p where "p = RoundToTick (add64 cur (int64_of_float (price_delta rnd cur base))) tick"
  have "tick dvd p" unfolding p_def by (rule RoundToTick_laws) (simp_all add: assms(3) add64_def wrap64_in64)
  then have "tick dvd clamp p (base * 90 div 100) (base * 110 div 100)"
    using clamp_cases [of p "base * 90 div 100" "base * 110 div 100"] assms(4,5) by auto
  then show ?thesis by (simp add: nextPrice_def Let_def band_limits [OF assms(1,2)] p_def)
qed

section \<open>The running figures\<close>

text \<open>While prices are positive, the last price lies between the recorded low and high.\<close>

definition sim_inv :: "sim_stock \<Rightarrow> bool" where
  "sim_inv st \<longleftrightarrow> 0 < ssLow st \<and> ssLow st \<le> ssPrice st \<and> ssPrice st \<le> ssHigh st"

lemma sim_inv_start: "0 < sBasePrice stock \<Longrightarrow> sim_inv (sim_start stock)"
  by (simp add: sim_inv_def sim_start_def)

lemma observe_inv: "sim_inv st \<Longrightarrow> 0 < price \<Longrightarrow> sim_inv (observe price v st)"
  by (auto simp: sim_inv_def observe_def Let_def)

lemma observe_extends:
  "sim_inv st \<Longrightarrow> ssHigh (observe price v st) = max (ssHigh st) price \<and> ssLow (observe price v st) = min (ssLow st) price"
  by (auto simp: sim_inv_def observe_def Let_def)

inductive sim_run :: "Stock \<Rightarrow> sim_stock \<Rightarrow> bool" for stock where
  start: "sim_run stock (sim_start stock)"
| turn: "sim_run stock st \<Longrightarrow> (\<And>t. t \<in> set (chQueue ch) \<Longrightarrow> 0 < tuPrice t) \<Longrightarrow>
    sim_next stock c (st, ch) = Some (st', ch') \<Longrightarrow> sim_run stock st'"

lemma sim_run_inv:
  assumes "0 < sBasePrice stock" and "in64 (sBasePrice stock * 110)" and "0 < sTickSize stock"
  shows "sim_run stock st \<Longrightarrow> sim_inv st \<and> ssPrevClose st = sBasePrice stock"
proof (induction rule: sim_run.induct)
  case start
  then show ?case using sim_inv_start [OF assms(1)] by (simp add: sim_start_def)
next
  case (turn st ch c st' ch')
  obtain p v where o: "st' = observe p v st" "0 < p"
  proof (cases c)
    case TakeTrade
    then show ?thesis using turn.hyps(2,3) that by (auto simp: sim_next_def split: list.splits)
  next
    case (TimerFires rnd k)
    have "sTickSize stock \<le> nextPrice rnd cur (sBasePrice stock) (sTickSize stock)" for cur
      using nextPrice_band [OF assms(1,2)] by (meson max.bounded_iff)
    then have "0 < nextPrice rnd cur (sBasePrice stock) (sTickSize stock)" for cur
      using assms(3) by (meson less_le_trans)
    then show ?thesis using turn.hyps(3) that TimerFires by (auto simp: sim_next_def)
  qed
  then show ?case using turn.IH observe_inv by (auto simp: observe_def Let_def)
qed

section \<open>Truncation\<close>

text \<open>
  The change of price is cut to an integer and then the price to a multiple of the tick size, both
  towards zero. \<open>rand.Float64\<close> lies in [0,1), so the random part is at most half a percent.
\<close>

lemma walk_factor_bounds: "0 \<le> walk_factor" "walk_factor \<le> 51 / 10000" "100 * walk_factor \<le> 1 / 2 + 1 / 10 ^ 15"
  by (code_simp)+

lemma reversion_factor_bounds: "0 \<le> reversion_factor" "reversion_factor \<le> 101 / 10000"
  by (code_simp)+

lemma swing_bounds:
  assumes "0 \<le> rnd" and "rnd \<le> 1"
  shows "- 1 \<le> fsub (fmul rnd 2) 1" and "fsub (fmul rnd 2) 1 \<le> 1"
proof -
  have "round53 (rnd * 2) \<le> of_int 2" using assms by (intro round53_le_int) simp_all
  moreover have "- of_int 0 \<le> round53 (rnd * 2)" using assms by (intro round53_ge_int) simp_all
  ultimately have "- of_int 1 \<le> round53 (fmul rnd 2 - 1)" "round53 (fmul rnd 2 - 1) \<le> of_int 1"
    unfolding fmul_def by (intro round53_ge_int round53_le_int; simp)+
  then show "- 1 \<le> fsub (fmul rnd 2) 1" "fsub (fmul rnd 2) 1 \<le> 1" by (simp_all add: fsub_def)
qed

text \<open>A bound on the change, from bounds on its two parts.\<close>

lemma price_delta_bounds:
  assumes rnd: "0 \<le> rnd" "rnd \<le> 1"
    and w: "0 \<le> fmul (float_of_int64 cur) walk_factor" "fmul (float_of_int64 cur) walk_factor \<le> of_int a * 2 powi k"
    and v: "\<bar>fmul (float_of_int64 (sub64 base cur)) reversion_factor\<bar> \<le> of_int b * 2 powi k"
    and m: "0 \<le> a" "0 \<le> b" "a + b < 2 ^ 53"
  shows "\<bar>price_delta rnd cur base\<bar> \<le> of_int (a + b) * 2 powi k"
proof -
  define s where "s = fsub (fmul rnd 2) 1"
  define x where "x = fmul (float_of_int64 cur) walk_factor"
  define y where "y = fmul (float_of_int64 (sub64 base cur)) reversion_factor"
  have s: "\<bar>s\<bar> \<le> 1" using swing_bounds [OF rnd] by (simp add: s_def abs_le_iff)
  have "\<bar>x * s\<bar> \<le> of_int a * 2 powi k * 1" unfolding abs_mult using w s by (intro mult_mono) (simp_all add: x_def)
  then have "\<bar>fmul x s\<bar> \<le> of_int a * 2 powi k"
    using m round53_le [of "x * s" a k] round53_ge [of a k "x * s"] by (simp add: fmul_def abs_le_iff)
  then have "\<bar>fmul x s + y\<bar> \<le> of_int (a + b) * 2 powi k"
    using v abs_triangle_ineq [of "fmul x s" y] by (simp add: y_def algebra_simps)
  then have "\<bar>fadd (fmul x s) y\<bar> \<le> of_int (a + b) * 2 powi k"
    using m round53_le [of "fmul x s + y" "a + b" k] round53_ge [of "a + b" k "fmul x s + y"]
    by (simp add: fadd_def abs_le_iff)
  then show ?thesis by (simp add: price_delta_def Let_def x_def y_def s_def)
qed

lemma float_small:
  assumes "0 \<le> n" and "n < 2 ^ 53"
  shows "0 \<le> float_of_int64 n" and "float_of_int64 n \<le> of_int n"
  using round53_le_int [of "of_int n" n] round53_sign [of "of_int n"] assms
  by (cases "n = 0"; simp add: float_of_int64_def round53_def [of 0])+

lemma float_le:
  assumes "0 \<le> n" and "n \<le> m" and "m < 2 ^ 53"
  shows "float_of_int64 n \<le> of_int m"
proof -
  have "(of_int n :: rat) \<le> of_int m" using assms(2) by (subst of_int_le_iff)
  then show ?thesis using assms(1,2,3) by (simp add: float_of_int64_def round53_le_int)
qed

lemma int64_of_float_small: "\<bar>x\<bar> < 1 \<Longrightarrow> int64_of_float x = 0"
proof -
  assume "\<bar>x\<bar> < 1"
  then have "(if 0 \<le> x then \<lfloor>x\<rfloor> else - \<lfloor>- x\<rfloor>) = 0" by (auto simp: floor_eq_iff abs_less_iff)
  then show ?thesis by (simp only: int64_of_float_def Let_def in64_0 if_True)
qed

text \<open>TLKM, with base price 3500 and tick size 25: no step goes up.\<close>

lemma tlkm_delta:
  assumes "0 \<le> rnd" and "rnd \<le> 1" and "3150 \<le> cur" and "cur \<le> 3500"
  shows "\<bar>price_delta rnd cur 3500\<bar> \<le> 22"
proof -
  have f: "0 \<le> float_of_int64 cur" "float_of_int64 cur \<le> 3500"
    using float_small [of cur] float_le [of cur 3500] assms(3,4) by simp_all
  have "float_of_int64 cur * walk_factor \<le> 3500 * (51 / 10000)"
    using f walk_factor_bounds by (intro mult_mono) simp_all
  then have w: "fmul (float_of_int64 cur) walk_factor \<le> of_int 18"
    unfolding fmul_def by (intro round53_le_int) simp_all
  have w0: "0 \<le> fmul (float_of_int64 cur) walk_factor"
    using f(1) walk_factor_bounds(1) round53_ge_int [of 0 "float_of_int64 cur * walk_factor"] by (simp add: fmul_def)
  have d: "sub64 3500 cur = 3500 - cur" using assms(3,4) by (simp add: sub64_id in64_def)
  have g: "0 \<le> float_of_int64 (3500 - cur)" "float_of_int64 (3500 - cur) \<le> of_int (3500 - cur)"
    using float_small [of "3500 - cur"] assms(3,4) by simp_all
  have "float_of_int64 (3500 - cur) \<le> 350"
    using float_le [of "3500 - cur" 350] assms(3,4) by simp
  then have "float_of_int64 (3500 - cur) * reversion_factor \<le> 350 * (101 / 10000)"
    using g reversion_factor_bounds by (intro mult_mono) simp_all
  then have "fmul (float_of_int64 (3500 - cur)) reversion_factor \<le> of_int 4"
    unfolding fmul_def by (intro round53_le_int) simp_all
  moreover have "0 \<le> fmul (float_of_int64 (3500 - cur)) reversion_factor"
    using g(1) reversion_factor_bounds(1) round53_ge_int [of 0 "float_of_int64 (3500 - cur) * reversion_factor"]
    by (simp add: fmul_def)
  ultimately show ?thesis using price_delta_bounds [OF assms(1,2) w0, of 18 0 3500 4] w d by simp
qed

lemma tlkm_step:
  assumes "0 \<le> rnd" and "rnd \<le> 1" and "3150 \<le> cur" and "cur \<le> 3500" and "25 dvd cur"
  shows "nextPrice rnd cur 3500 25 \<le> cur \<and> 3150 \<le> nextPrice rnd cur 3500 25 \<and> 25 dvd nextPrice rnd cur 3500 25"
proof -
  define d where "d = int64_of_float (price_delta rnd cur 3500)"
  have "- of_int 22 \<le> price_delta rnd cur 3500" "price_delta rnd cur 3500 \<le> of_int 22"
    using tlkm_delta [OF assms(1-4)] by (simp_all add: abs_le_iff)
  then have d: "d \<le> 22" "- 22 \<le> d" using int64_of_float_le [of _ 22] by (simp_all add: d_def in64_def)
  obtain j where j: "cur = 25 * j" using assms(5) by blast
  have "add64 cur d = cur + d" using d assms(3,4) by (simp add: add64_id in64_def)
  then have "RoundToTick (add64 cur d) 25 = (cur + d) div 25 * 25"
    using RoundToTick_laws(3) [of "cur + d" 25] d assms(3,4) by (simp add: in64_def)
  moreover have "(cur + d) div 25 * 25 \<le> cur" using j d(1) by simp
  ultimately have le: "RoundToTick (add64 cur d) 25 \<le> cur" by simp
  have lim: "quot64 (mul64 3500 90) 100 = 3150" "quot64 (mul64 3500 110) 100 = 3850" by code_simp+
  have "nextPrice rnd cur 3500 25 = clamp (RoundToTick (add64 cur d) 25) 3150 3850"
    by (simp add: nextPrice_def Let_def d_def lim clamp_def)
  moreover have "25 dvd nextPrice rnd cur 3500 25"
    using nextPrice_tick [of 3500 25 rnd cur] by (simp add: in64_def)
  ultimately show ?thesis using le assms(3,4) by (simp add: clamp_def)
qed

lemma tlkm_walk:
  "\<forall>r\<in>set rs. 0 \<le> r \<and> r \<le> 1 \<Longrightarrow>
   3150 \<le> foldl (\<lambda>p r. nextPrice r p 3500 25) 3500 rs \<and> foldl (\<lambda>p r. nextPrice r p 3500 25) 3500 rs \<le> 3500 \<and>
   25 dvd foldl (\<lambda>p r. nextPrice r p 3500 25) 3500 rs"
proof (induction rs rule: rev_induct)
  case (snoc r rs)
  then show ?case using tlkm_step [of r "foldl (\<lambda>p r. nextPrice r p 3500 25) 3500 rs"] by auto
qed simp

text \<open>GOTO, with base price 100: no step changes the price.\<close>

lemma goto_step:
  assumes "0 \<le> rnd" and "rnd \<le> 1"
  shows "nextPrice rnd 100 100 1 = 100"
proof -
  have "fmul (float_of_int64 100) walk_factor \<le> of_int 3 * 2 powi - 2" "0 \<le> fmul (float_of_int64 100) walk_factor"
    "\<bar>fmul (float_of_int64 (sub64 100 100)) reversion_factor\<bar> \<le> of_int 0 * 2 powi - 2"
    by code_simp+
  then have "\<bar>price_delta rnd 100 100\<bar> \<le> of_int (3 + 0) * 2 powi - 2"
    by (intro price_delta_bounds [OF assms]) simp_all
  then have "int64_of_float (price_delta rnd 100 100) = 0"
    by (intro int64_of_float_small) (simp add: power_int_def power2_eq_square)
  then show ?thesis by (simp add: nextPrice_def) code_simp
qed

section \<open>Properties\<close>

text \<open>
  C31: whatever the random draws and whatever price a trade has left, the next simulated price of a
  default stock is within ten percent of its base price and a multiple of its tick size.
\<close>

theorem simulated_prices_stay_in_band:
  assumes "s \<in> set DefaultStocks" and "p = nextPrice rnd cur (sBasePrice s) (sTickSize s)"
  shows "90 * sBasePrice s \<le> 100 * p \<and> 100 * p \<le> 110 * sBasePrice s \<and> sTickSize s dvd p"
proof -
  have s: "0 < sBasePrice s" "in64 (sBasePrice s * 110)" "0 < sTickSize s" "sTickSize s \<le> sBasePrice s * 90 div 100"
    "sTickSize s dvd sBasePrice s * 90 div 100" "sTickSize s dvd sBasePrice s * 110 div 100"
    "100 * (sBasePrice s * 90 div 100) = 90 * sBasePrice s" "100 * (sBasePrice s * 110 div 100) = 110 * sBasePrice s"
    using assms(1) by (auto simp: DefaultStocks_def defaultStocks_def in64_def)
  have "sBasePrice s * 90 div 100 \<le> sBasePrice s * 110 div 100" using s(1) by (intro zdiv_mono1) simp_all
  then have "sTickSize s \<le> sBasePrice s * 110 div 100" using s(4) by (rule order_trans [rotated])
  then have "sBasePrice s * 90 div 100 \<le> p \<and> p \<le> sBasePrice s * 110 div 100"
    using nextPrice_band [OF s(1,2), of "sTickSize s" rnd cur] unfolding assms(2) by (simp only: max_absorb2 s(4))
  then show ?thesis using nextPrice_tick [OF s(1-3,5,6), of rnd cur] s(7,8) unfolding assms(2) by linarith
qed

theorem simulated_prices_stay_in_band_witness:
  "\<exists>s\<in>set DefaultStocks. sCode s = ''BBCA'' \<and> 90 * sBasePrice s \<le> 100 * nextPrice (1 / 4) 20000 (sBasePrice s) (sTickSize s)"
proof -
  have "hd DefaultStocks \<in> set DefaultStocks" "sCode (hd DefaultStocks) = ''BBCA''"
    by (simp_all add: DefaultStocks_def defaultStocks_def)
  with simulated_prices_stay_in_band [OF this(1) refl, of "1 / 4" 20000] show ?thesis by blast
qed

text \<open>
  The walk truncates twice, to an integer and to the tick size. Without trades the price of TLKM
  (base 3500, tick 25) therefore never rises, and that of GOTO (base 100) never changes.
\<close>

lemma truncation_stops_the_random_walk:
  assumes "\<forall>r\<in>set (rs @ [r]). 0 \<le> r \<and> r < 1"
  shows "foldl (\<lambda>p r. nextPrice r p 3500 25) 3500 (rs @ [r]) \<le> foldl (\<lambda>p r. nextPrice r p 3500 25) 3500 rs \<and>
    foldl (\<lambda>p r. nextPrice r p 100 1) 100 rs = 100"
proof -
  have rs: "\<forall>x\<in>set rs. 0 \<le> x \<and> x \<le> 1" and r: "0 \<le> r" "r \<le> 1" using assms by auto
  have "foldl (\<lambda>p r. nextPrice r p 100 1) 100 rs = 100" using rs by (induction rs) (simp_all add: goto_step)
  then show ?thesis using tlkm_step [OF r] tlkm_walk [OF rs] by simp
qed

lemma truncation_stops_the_random_walk_witness:
  "nextPrice (9 / 10) 3500 3500 25 \<le> 3500"
  using truncation_stops_the_random_walk [of "[]" "9 / 10"] by simp

text \<open>
  However trades and simulated ticks interleave in the goroutine of a default stock, the last
  price lies between the recorded low and high, and the previous close stays the base price.
\<close>

lemma simulated_figures_are_consistent:
  assumes "s \<in> set DefaultStocks" and "sim_run s st"
  shows "0 < ssLow st \<and> ssLow st \<le> ssPrice st \<and> ssPrice st \<le> ssHigh st \<and> ssPrevClose st = sBasePrice s"
proof -
  have "0 < sBasePrice s" "in64 (sBasePrice s * 110)" "0 < sTickSize s"
    using assms(1) by (auto simp: DefaultStocks_def defaultStocks_def in64_def)
  from sim_run_inv [OF this assms(2)] show ?thesis by (simp add: sim_inv_def)
qed

lemma simulated_figures_are_consistent_witness:
  "ssLow (observe 9000 7 (sim_start (hd DefaultStocks))) \<le> ssPrice (observe 9000 7 (sim_start (hd DefaultStocks)))"
proof -
  let ?s = "hd DefaultStocks" and ?ch = "\<lparr>chQueue = [\<lparr>tuPrice = 9000, tuQty = 7\<rparr>], chClosed = False\<rparr>"
  have "sim_next ?s TakeTrade (sim_start ?s, ?ch) = Some (observe 9000 7 (sim_start ?s), ?ch\<lparr>chQueue := []\<rparr>)"
    by (simp add: sim_next_def)
  then have "sim_run ?s (observe 9000 7 (sim_start ?s))"
    by (rule sim_run.turn [OF sim_run.start, rotated]) simp
  moreover have "?s \<in> set DefaultStocks" by (simp add: DefaultStocks_def defaultStocks_def)
  ultimately show ?thesis using simulated_figures_are_consistent by blast
qed

end
