(* ===== verification/Binance_Model.thy ===== *)
theory Binance_Model
  imports Simulator_Model Go_Strings
begin

text \<open>
  The Binance price feed (src/internal/simulator/binance.go): decoding of a stream message into a
  ticker, and reconnection with exponential backoff. The WebSocket connection is third-party code:
  a connection is the sequence of frames it delivers before its error, each given as the JSON
  decoder leaves it.
\<close>

section \<open>Configuration and messages\<close>

record BinanceConfig =
  bcWSURL :: string
  bcSymbols :: "string \<rightharpoonup> string"
  bcMaxBackoff :: duration

definition DefaultBinanceConfig :: BinanceConfig where
  "DefaultBinanceConfig =
     \<lparr>bcWSURL = ''wss://stream.binance.com:9443'',
      bcSymbols = [''btcusdt'' \<mapsto> ''BTCUSDT'', ''ethusdt'' \<mapsto> ''ETHUSDT'', ''bnbusdt'' \<mapsto> ''BNBUSDT'',
                   ''solusdt'' \<mapsto> ''SOLUSDT'', ''adausdt'' \<mapsto> ''ADAUSDT''],
      bcMaxBackoff = 30 * 10 ^ 9\<rparr>"

record binanceMiniTicker =
  bmEventType :: string
  bmSymbol :: string
  bmClose :: string
  bmHigh :: string
  bmLow :: string
  bmVolume :: string

record binanceStreamMsg =
  bsStream :: string
  bsData :: binanceMiniTicker

datatype feed_error = ErrUnmarshal | ErrParsePrice string | ErrNoSymbols | ErrDial | ErrRead

section \<open>Messages\<close>

definition parsePrice :: "string \<Rightarrow> feed_error + int64" where
  "parsePrice s =
     (case ParseFloat s of
        None \<Rightarrow> Inl (ErrParsePrice s)
      | Some f \<Rightarrow> Inr (int64_of_float (Round (fmul f 100))))"

definition parseVolume :: "string \<Rightarrow> feed_error + int64" where
  "parseVolume s =
     (case ParseFloat s of None \<Rightarrow> Inl (ErrParsePrice s) | Some f \<Rightarrow> Inr (int64_of_float f))"

text \<open>A failed conversion returns 0 beside its error; high, low and volume ignore the error.\<close>

definition or_zero :: "feed_error + int64 \<Rightarrow> int64" where
  "or_zero r = (case r of Inl _ \<Rightarrow> 0 | Inr v \<Rightarrow> v)"

definition feed_ticker :: "time \<Rightarrow> string \<Rightarrow> int64 \<Rightarrow> binanceMiniTicker \<Rightarrow> Ticker" where
  "feed_ticker now code lastPrice m =
     \<lparr>tkStockCode = code, tkLastPrice = lastPrice, tkPrevClose = 0, tkChange = 0, tkChangePct = 0,
      tkHigh = or_zero (parsePrice (bmHigh m)), tkLow = or_zero (parsePrice (bmLow m)),
      tkVolume = or_zero (parseVolume (bmVolume m)), tkUpdatedAt = now\<rparr>"

definition Binance_handleMessage ::
  "BinanceConfig \<Rightarrow> time \<Rightarrow> time \<Rightarrow> binanceStreamMsg option \<Rightarrow> 'h feed_world \<Rightarrow> (feed_error option \<times> 'h feed_world) outcome" where
  "Binance_handleMessage cfg now1 now2 decoded w =
     (case decoded of
        None \<Rightarrow> Return (Some ErrUnmarshal, w)
      | Some msg \<Rightarrow>
          let symbol = ToLower (bmSymbol (bsData msg))
          in case bcSymbols cfg symbol of
               None \<Rightarrow> Return (None, w)
             | Some stockCode \<Rightarrow>
                 (case parsePrice (bmClose (bsData msg)) of
                    Inl err \<Rightarrow> Return (Some err, w)
                  | Inr lastPrice \<Rightarrow>
                      let ticker = feed_ticker now1 stockCode lastPrice (bsData msg);
                          (err, repo) = MarketRepo_UpdateTicker (fst w) ticker
                      in case Publish (snd w) \<lparr>evType = TickerUpdated, evStockCode = stockCode, evUserID = [],
                                               evPayload = PTicker ticker, evTimestamp = now2\<rparr> of
                           Panic \<Rightarrow> Panic
                         | Return bus \<Rightarrow> Return (None, repo, bus)))"

text \<open>The names of the streams, for the order \<open>syms\<close> in which the map is walked.\<close>

definition buildStreams :: "string list \<Rightarrow> string list" where
  "buildStreams syms = map (\<lambda>s. s @ ''@miniTicker'') syms"

text \<open>
  \<open>connect\<close>: \<open>dialed\<close> tells whether the dial succeeded, \<open>frames\<close> are the frames read before the
  read fails, with the clock readings of their handling. It never returns without an error.
\<close>

type_synonym frame = "time \<times> time \<times> binanceStreamMsg option"

fun read_frames :: "BinanceConfig \<Rightarrow> frame list \<Rightarrow> 'h feed_world \<Rightarrow> (feed_error \<times> 'h feed_world) outcome" where
  "read_frames cfg [] w = Return (ErrRead, w)"
| "read_frames cfg ((now1, now2, decoded) # fs) w =
     (case Binance_handleMessage cfg now1 now2 decoded w of
        Panic \<Rightarrow> Panic
      | Return (err, w) \<Rightarrow> read_frames cfg fs w)"

definition connect ::
  "BinanceConfig \<Rightarrow> string list \<Rightarrow> bool \<Rightarrow> frame list \<Rightarrow> 'h feed_world \<Rightarrow> (feed_error \<times> 'h feed_world) outcome" where
  "connect cfg syms dialed frames w =
     (if length (buildStreams syms) = 0 then Return (ErrNoSymbols, w)
      else if \<not> dialed then Return (ErrDial, w)
      else read_frames cfg frames w)"

section \<open>Reconnection\<close>

text \<open>
  \<open>1<<uint(attempt)\<close> at type \<open>time.Duration\<close> is a shift of a 64-bit integer; the product with
  \<open>time.Second\<close> wraps as well.
\<close>

definition calcBackoff :: "nat \<Rightarrow> duration \<Rightarrow> duration" where
  "calcBackoff attempt maxBackoff =
     (let d = mul64 (if attempt < 64 then wrap64 (2 ^ attempt) else 0) (10 ^ 9)
      in if d > maxBackoff then maxBackoff else d)"

text \<open>
  The loop of \<open>Start\<close> over the connections it makes while its context lives: the world after
  them, and the delays waited in between.
\<close>

fun feed_loop ::
  "BinanceConfig \<Rightarrow> string list \<Rightarrow> nat \<Rightarrow> (bool \<times> frame list) list \<Rightarrow> 'h feed_world \<Rightarrow> (duration list \<times> 'h feed_world) outcome" where
  "feed_loop cfg syms attempt [] w = Return ([], w)"
| "feed_loop cfg syms attempt ((dialed, frames) # cs) w =
     (case connect cfg syms dialed frames w of
        Panic \<Rightarrow> Panic
      | Return (err, w) \<Rightarrow>
          (case feed_loop cfg syms (Suc attempt) cs w of
             Panic \<Rightarrow> Panic
           | Return (ds, w) \<Rightarrow> Return (calcBackoff attempt (bcMaxBackoff cfg) # ds, w)))"

definition BinanceFeed_Start ::
  "(Stock \<Rightarrow> time \<times> time) \<Rightarrow> BinanceConfig \<Rightarrow> string list \<Rightarrow> Stock list \<Rightarrow> (bool \<times> frame list) list \<Rightarrow> 'h feed_world
     \<Rightarrow> (duration list \<times> 'h feed_world) outcome" where
  "BinanceFeed_Start ts cfg syms stocks conns w =
     feed_loop cfg syms 0 conns
       (fold (\<lambda>s r. MarketRepo_InitStock (fst (ts s)) (snd (ts s)) r s) stocks (fst w), snd w)"

section \<open>Backoff\<close>

lemma calcBackoff_small:
  assumes "attempt < 34"
  shows "calcBackoff attempt mx = min mx (2 ^ attempt * 10 ^ 9)"
proof -
  define x where "x = (2::int) ^ attempt"
  have "x \<le> 2 ^ 33" unfolding x_def using assms by (intro power_increasing) simp_all
  moreover have "0 \<le> x" by (simp add: x_def)
  ultimately have "in64 x" "in64 (x * 10 ^ 9)" by (simp_all add: in64_def)
  then have "in64 (2 ^ attempt)" "in64 (2 ^ attempt * 10 ^ 9)" by (simp_all only: x_def)
  then show ?thesis using assms by (simp add: calcBackoff_def wrap64_id mul64_id min_def Let_def)
qed

text \<open>From attempt 55 on the product is a multiple of \<open>2 ^ 64\<close>.\<close>

lemma calcBackoff_large:
  assumes "55 \<le> attempt" and "0 \<le> mx"
  shows "calcBackoff attempt mx = 0"
proof -
  have "mul64 (if attempt < 64 then wrap64 (2 ^ attempt) else 0) (10 ^ 9) = 0"
  proof (cases "attempt < 64")
    case True
    then have "attempt \<in> {55, 56, 57, 58, 59, 60, 61, 62, 63}" using assms(1) by auto
    then show ?thesis by (auto simp: mul64_def wrap64_def)
  qed (simp add: mul64_def)
  then show ?thesis using assms(2) by (simp add: calcBackoff_def)
qed

lemma feed_loop_delays:
  "feed_loop cfg syms a cs w = Return (ds, w') \<Longrightarrow>
   ds = map (\<lambda>i. calcBackoff i (bcMaxBackoff cfg)) [a..<a + length cs]"
proof (induction cfg syms a cs w arbitrary: ds w' rule: feed_loop.induct)
  case (2 cfg syms a dialed frames cs w)
  obtain err w1 where c: "connect cfg syms dialed frames w = Return (err, w1)"
    using "2.prems" by (auto split: outcome.splits)
  obtain ds1 where d: "feed_loop cfg syms (Suc a) cs w1 = Return (ds1, w')" "ds = calcBackoff a (bcMaxBackoff cfg) # ds1"
    using "2.prems" c by (auto split: outcome.splits)
  have "ds1 = map (\<lambda>i. calcBackoff i (bcMaxBackoff cfg)) [Suc a..<Suc a + length cs]" using "2.IH" [OF c refl d(1)] .
  moreover have "[a..<a + length ((dialed, frames) # cs)] = a # [Suc a..<Suc a + length cs]"
    by (subst upt_conv_Cons) simp_all
  ultimately show ?case by (simp only: d(2) list.map)
qed simp

section \<open>What a message changes\<close>

lemma Publish_open: "\<not> chClosed (busCh b) \<Longrightarrow> \<exists>b'. Publish b e = Return b' \<and> \<not> chClosed (busCh b')"
  by (auto simp: Publish_def try_send_def)

text \<open>
  A message changes the ticker of at most the stock its symbol maps to, and only if its last price
  is a number; while the bus is open it does not panic.
\<close>

lemma handleMessage_frame:
  assumes "\<not> chClosed (busCh (snd w))"
  shows "\<exists>err w'. Binance_handleMessage cfg now1 now2 decoded w = Return (err, w') \<and> \<not> chClosed (busCh (snd w')) \<and>
    mkBooks (fst w') = mkBooks (fst w) \<and> dom (mkTickers (fst w')) = dom (mkTickers (fst w)) \<and>
    (\<forall>code. mkTickers (fst w') code = mkTickers (fst w) code \<or>
       (\<exists>msg p. decoded = Some msg \<and> bcSymbols cfg (ToLower (bmSymbol (bsData msg))) = Some code \<and>
          parsePrice (bmClose (bsData msg)) = Inr p \<and> err = None \<and>
          mkTickers (fst w') code = Some (Some (feed_ticker now1 code p (bsData msg)))))"
proof (cases decoded)
  case None
  then show ?thesis using assms by (simp add: Binance_handleMessage_def)
next
  case (Some msg)
  show ?thesis
  proof (cases "bcSymbols cfg (ToLower (bmSymbol (bsData msg)))")
    case None
    then show ?thesis using assms Some by (simp add: Binance_handleMessage_def)
  next
    case code: (Some code)
    show ?thesis
    proof (cases "parsePrice (bmClose (bsData msg))")
      case (Inl e)
      then show ?thesis using assms Some code by (simp add: Binance_handleMessage_def)
    next
      case (Inr p)
      define t where "t = feed_ticker now1 code p (bsData msg)"
      obtain b where b: "Publish (snd w) \<lparr>evType = TickerUpdated, evStockCode = code, evUserID = [],
          evPayload = PTicker t, evTimestamp = now2\<rparr> = Return b" "\<not> chClosed (busCh b)"
        using Publish_open [OF assms] by blast
      obtain e r where r: "MarketRepo_UpdateTicker (fst w) t = (e, r)" by fastforce
      have t: "tkStockCode t = code" by (simp add: t_def feed_ticker_def)
      have run: "Binance_handleMessage cfg now1 now2 decoded w = Return (None, r, b)"
        using Some code Inr b(1) r by (simp add: Binance_handleMessage_def t_def [symmetric])
      have "mkBooks r = mkBooks (fst w)" "dom (mkTickers r) = dom (mkTickers (fst w))"
        using r t by (auto simp: MarketRepo_UpdateTicker_def split: option.splits if_splits)
      moreover have "mkTickers r c = mkTickers (fst w) c \<or> c = code \<and> mkTickers r c = Some (Some t)" for c
        using r t by (auto simp: MarketRepo_UpdateTicker_def split: option.splits if_splits)
      ultimately show ?thesis using run b(2) Some code Inr t_def by auto
    qed
  qed
qed

section \<open>Properties\<close>



end
