(* ===== verification/Server_Main.thy ===== *)
theory Server_Main
  imports Config_Model Server_Wiring Binance_Model
begin

text \<open>
  The start-up and shutdown of src/cmd/server/main.go: which parts a configuration and the outcome
  of the connection attempts put together, the stocks each of them gets, the routing of orders in
  a partitioned cluster, and the order of the shutdown.
\<close>

section \<open>Helpers\<close>

definition stockCodes :: "Stock list \<Rightarrow> string list" where
  "stockCodes stocks = map sCode stocks"

definition filterStocks :: "Stock list \<Rightarrow> string list \<Rightarrow> Stock list" where
  "filterStocks stocks allowed = filter (\<lambda>s. sCode s \<in> set allowed) stocks"

datatype log_level = LevelDebug | LevelInfo | LevelWarn | LevelError
datatype log_format = TextHandler | JSONHandler

definition setupLogger :: "string \<Rightarrow> string \<Rightarrow> log_level \<times> log_format" where
  "setupLogger level fmt =
     (if level = ''debug'' then LevelDebug else if level = ''warn'' then LevelWarn
      else if level = ''error'' then LevelError else LevelInfo,
      if fmt = ''text'' then TextHandler else JSONHandler)"

section \<open>Start-up\<close>

text \<open>Which connection attempts succeed.\<close>

record dials =
  dlPostgres :: bool
  dlNatsPub :: bool
  dlNatsSub :: bool
  dlRedisCache :: bool
  dlRedisPing :: bool
  dlRedisPubSub :: bool

datatype storage = InMemory | PostgreSQL

definition postgres_pool :: "Config \<Rightarrow> dials \<Rightarrow> bool" where
  "postgres_pool c d \<longleftrightarrow> (cDBWorkerEnabled c \<or> stType (cStorage c) = ''postgres'') \<and> dlPostgres d"

definition order_trade_storage :: "Config \<Rightarrow> dials \<Rightarrow> storage" where
  "order_trade_storage c d =
     (if stType (cStorage c) = ''postgres'' \<and> postgres_pool c d then PostgreSQL else InMemory)"

definition nats_publisher :: "Config \<Rightarrow> dials \<Rightarrow> bool" where
  "nats_publisher c d \<longleftrightarrow> ntEnabled (cNATS c) \<and> dlNatsPub d"

definition nats_subscriber :: "Config \<Rightarrow> dials \<Rightarrow> bool" where
  "nats_subscriber c d \<longleftrightarrow> ntEnabled (cNATS c) \<and> dlNatsSub d"

definition redis_cache :: "Config \<Rightarrow> dials \<Rightarrow> bool" where
  "redis_cache c d \<longleftrightarrow> rdEnabled (cRedis c) \<and> dlRedisCache d \<and> dlRedisPing d"

definition redis_pubsub :: "Config \<Rightarrow> dials \<Rightarrow> bool" where
  "redis_pubsub c d \<longleftrightarrow> rdEnabled (cRedis c) \<and> \<not> ntEnabled (cNATS c) \<and> dlRedisPubSub d"

definition server_stocks :: "Config \<Rightarrow> Stock list" where
  "server_stocks c = (if bnEnabled (cBinance c) then DefaultStocks @ BinanceStocks else DefaultStocks)"

text \<open>\<open>Inl\<close> stands for the exit of the process.\<close>

definition server_partitioner :: "Config \<Rightarrow> partition_error + Partitioner option" where
  "server_partitioner c =
     (if ptEnabled (cPartition c)
      then (case New (ptInstanceIndex (cPartition c)) (ptTotalInstances (cPartition c)) of
              Inl e \<Rightarrow> Inl e | Inr p \<Rightarrow> Inr (Some p))
      else Inr None)"

definition engine_stocks :: "Stock list \<Rightarrow> Partitioner option \<Rightarrow> Stock list" where
  "engine_stocks stocks part =
     (case part of None \<Rightarrow> stocks | Some p \<Rightarrow> filterStocks stocks (OwnedStocks p (stockCodes stocks)))"

definition simulator_stocks :: "Config \<Rightarrow> Stock list option" where
  "simulator_stocks c = (if smEnabled (cSimulator c) \<and> \<not> bnEnabled (cBinance c) then Some DefaultStocks else None)"

definition binance_stocks :: "Config \<Rightarrow> Stock list option" where
  "binance_stocks c = (if bnEnabled (cBinance c) then Some BinanceStocks else None)"

record Assembly =
  amPool :: bool
  amDBWorker :: bool
  amStorage :: storage
  amNatsPub :: bool
  amNatsSub :: bool
  amRedisCache :: bool
  amRedisPubSub :: bool
  amStocks :: "Stock list"
  amPartitioner :: "Partitioner option"
  amEngineStocks :: "Stock list"
  amRouted :: bool
  amAuth :: bool
  amUserRepo :: bool
  amSimulator :: "Stock list option"
  amBinance :: "Stock list option"
  amRateLimiter :: bool

datatype exit_reason = InvalidConfig config_error | InvalidPartition partition_error

definition server_main :: "Config \<Rightarrow> dials \<Rightarrow> exit_reason + Assembly" where
  "server_main c d =
     (case Validate c of
        Some e \<Rightarrow> Inl (InvalidConfig e)
      | None \<Rightarrow>
          (case server_partitioner c of
             Inl e \<Rightarrow> Inl (InvalidPartition e)
           | Inr part \<Rightarrow>
               Inr \<lparr>amPool = postgres_pool c d, amDBWorker = cDBWorkerEnabled c, amStorage = order_trade_storage c d,
                    amNatsPub = nats_publisher c d, amNatsSub = nats_subscriber c d,
                    amRedisCache = redis_cache c d, amRedisPubSub = redis_pubsub c d,
                    amStocks = server_stocks c, amPartitioner = part,
                    amEngineStocks = engine_stocks (server_stocks c) part,
                    amRouted = (part \<noteq> None \<and> nats_publisher c d),
                    amAuth = auEnabled (cAuth c), amUserRepo = (auEnabled (cAuth c) \<and> postgres_pool c d),
                    amSimulator = simulator_stocks c, amBinance = binance_stocks c,
                    amRateLimiter = rlEnabled (cRateLimit c)\<rparr>))"

text \<open>The market repository after the feeds have initialised their stocks.\<close>

definition init_stocks :: "(Stock \<Rightarrow> time \<times> time) \<Rightarrow> Stock list \<Rightarrow> MarketRepo \<Rightarrow> MarketRepo" where
  "init_stocks ts stocks r = fold (\<lambda>s r. MarketRepo_InitStock (fst (ts s)) (snd (ts s)) r s) stocks r"

definition market_after_start :: "(Stock \<Rightarrow> time \<times> time) \<Rightarrow> Assembly \<Rightarrow> MarketRepo" where
  "market_after_start ts a =
     init_stocks ts (case amBinance a of None \<Rightarrow> [] | Some ss \<Rightarrow> ss)
       (init_stocks ts (case amSimulator a of None \<Rightarrow> [] | Some ss \<Rightarrow> ss) NewMarketRepo)"

section \<open>Orders of other instances\<close>

text \<open>The subjects and queue groups \<open>wireEngineNATSOrders\<close> subscribes to, and its handler.\<close>

definition wireEngineNATSOrders :: "Partitioner \<Rightarrow> Stock list \<Rightarrow> (string \<times> string) list" where
  "wireEngineNATSOrders p stocks =
     map (\<lambda>sc. (''engine.orders.'' @ sc, ''engine-'' @ sc)) (OwnedStocks p (stockCodes stocks))"

text \<open>The decoded order gets a new object, at an address \<open>a\<close> that is not in use.\<close>

definition engine_order_handler :: "addr \<Rightarrow> Order option \<Rightarrow> 'w Engine \<Rightarrow> 'w Engine outcome" where
  "engine_order_handler a decoded e =
     (case decoded of
        None \<Rightarrow> Return e
      | Some x \<Rightarrow>
          (case SubmitOrder (e\<lparr>engHeap := (engHeap e)(a := x)\<rparr>) a of
             Panic \<Rightarrow> Panic
           | Return (err, e') \<Rightarrow> Return e'))"

section \<open>Shutdown\<close>

datatype shutdown_step =
    HttpShutdown | RateLimiterStop | EngineStop | SimulatorStop | BusStop | DBWorkerStop | NatsPubClose | NatsSubClose
  | RedisCacheClose | RedisPubSubClose | PoolClose

definition shutdown_steps :: "Assembly \<Rightarrow> shutdown_step list" where
  "shutdown_steps a =
     [HttpShutdown] @ (if amRateLimiter a then [RateLimiterStop] else []) @ [EngineStop] @
     (if amSimulator a \<noteq> None then [SimulatorStop] else []) @ [BusStop] @
     (if amDBWorker a then [DBWorkerStop] else []) @
     (if amNatsPub a then [NatsPubClose] else []) @ (if amNatsSub a then [NatsSubClose] else []) @
     (if amRedisCache a then [RedisCacheClose] else []) @ (if amRedisPubSub a then [RedisPubSubClose] else []) @
     (if amPool a then [PoolClose] else [])"

section \<open>Initialised stocks\<close>

lemma init_stocks_other: "code \<notin> sCode ` set stocks \<Longrightarrow> mkTickers (init_stocks ts stocks r) code = mkTickers r code"
  by (induction stocks arbitrary: r) (simp_all add: init_stocks_def MarketRepo_InitStock_def Let_def)

lemma init_stocks_mono: "mkTickers r code \<noteq> None \<Longrightarrow> mkTickers (init_stocks ts stocks r) code = mkTickers r code"
  by (induction stocks arbitrary: r) (auto simp: init_stocks_def MarketRepo_InitStock_def Let_def)

lemma init_stocks_init:
  "code \<in> sCode ` set stocks \<Longrightarrow> mkTickers r code = None \<Longrightarrow>
   \<exists>now. mkTickers (init_stocks ts stocks r) code = Some (Some (zero_ticker code now))"
proof (induction stocks arbitrary: r)
  case (Cons s stocks)
  let ?r = "MarketRepo_InitStock (fst (ts s)) (snd (ts s)) r s"
  have step: "init_stocks ts (s # stocks) r = init_stocks ts stocks ?r" by (simp add: init_stocks_def)
  show ?case
  proof (cases "sCode s = code")
    case True
    then have "mkTickers ?r code = Some (Some (zero_ticker code (fst (ts s))))"
      using Cons.prems(2) by (auto simp: MarketRepo_InitStock_def Let_def)
    then show ?thesis using init_stocks_mono [of ?r code ts stocks] by (auto simp: step)
  next
    case False
    then have "mkTickers ?r code = None" using Cons.prems(2) by (simp add: MarketRepo_InitStock_def Let_def)
    then show ?thesis using Cons.IH [of ?r] Cons.prems(1) False by (auto simp: step)
  qed
qed simp

lemma market_after_start_tickers:
  "mkTickers (market_after_start ts a) code \<noteq> None \<longleftrightarrow>
   (\<exists>ss. (amSimulator a = Some ss \<or> amBinance a = Some ss) \<and> code \<in> sCode ` set ss)"
proof -
  define s1 where "s1 = (case amSimulator a of None \<Rightarrow> [] | Some ss \<Rightarrow> ss)"
  define s2 where "s2 = (case amBinance a of None \<Rightarrow> [] | Some ss \<Rightarrow> ss)"
  define r where "r = init_stocks ts s1 NewMarketRepo"
  have 1: "mkTickers r code \<noteq> None \<longleftrightarrow> code \<in> sCode ` set s1"
    using init_stocks_init [of code s1 NewMarketRepo ts] init_stocks_other [of code s1 ts NewMarketRepo]
    by (cases "code \<in> sCode ` set s1") (auto simp: r_def NewMarketRepo_def)
  have "mkTickers (init_stocks ts s2 r) code \<noteq> None \<longleftrightarrow> mkTickers r code \<noteq> None \<or> code \<in> sCode ` set s2"
    using init_stocks_init [of code s2 r ts] init_stocks_other [of code s2 ts r] init_stocks_mono [of r code ts s2]
    by (metis option.distinct(1))
  then show ?thesis
    using 1 by (auto simp: market_after_start_def r_def s1_def s2_def split: option.splits)
qed

section \<open>Routing in a cluster\<close>

lemma engine_stocks_owned:
  assumes "code \<in> set (stockCodes stocks)"
  shows "code \<in> set (stockCodes (engine_stocks stocks (Some p))) \<longleftrightarrow> OwnsStock p code"
  using assms by (auto simp: engine_stocks_def filterStocks_def stockCodes_def OwnedStocks_def)

lemma engine_subjects_owned:
  assumes "code \<in> set (stockCodes stocks)"
  shows "engine_subject code \<in> fst ` set (wireEngineNATSOrders p stocks) \<longleftrightarrow> OwnsStock p code"
  using assms by (auto simp: wireEngineNATSOrders_def OwnedStocks_def engine_subject_def image_image)

lemma Router_cases:
  "Router_SubmitOrder (NewRouter loc pub p) w ord =
     (if OwnsStock p (oStockCode ord) then (map_option LocalError (fst (loc w ord)), snd (loc w ord))
      else (map_option (ForwardError (engine_subject (oStockCode ord))) (fst (pub w (engine_subject (oStockCode ord)) ord)),
            snd (pub w (engine_subject (oStockCode ord)) ord)))"
  by (simp add: Router_SubmitOrder_def NewRouter_def split_beta Let_def)

section \<open>Properties\<close>

text \<open>
  C8: in a partitioned cluster every order reaches exactly one matching engine. For a stock of the
  server there is one instance that runs a matcher for it and subscribes to its subject; that
  instance submits the order locally, and every other one publishes it on that subject.
\<close>

theorem orders_reach_exactly_one_engine:
  assumes "1 \<le> tot" and "in64 tot" and "oStockCode ord \<in> set (stockCodes stocks)"
  shows "\<exists>i<nat tot. \<forall>j<nat tot. let p = \<lparr>instanceIndex = int j, totalInstances = tot\<rparr>; code = oStockCode ord in
    (engMatchers (NewEngine (engine_stocks stocks (Some p)) h (w0::'w)) code \<noteq> None \<longleftrightarrow> j = i) \<and>
    (engine_subject code \<in> fst ` set (wireEngineNATSOrders p stocks) \<longleftrightarrow> j = i) \<and>
    (\<forall>w. Router_SubmitOrder (NewRouter loc pub p) w ord =
       (if j = i then (map_option LocalError (fst (loc w ord)), snd (loc w ord))
        else (map_option (ForwardError (engine_subject code)) (fst (pub w (engine_subject code) ord)),
              snd (pub w (engine_subject code) ord))))"
proof -
  obtain i where i: "i < nat tot" and own: "\<And>j. j < nat tot \<Longrightarrow> OwnsStock (instance_of tot j) (oStockCode ord) \<longleftrightarrow> j = i"
    using unique_owner [OF assms(1,2), of "oStockCode ord"] by blast
  show ?thesis
  proof (intro exI conjI allI impI)
    fix j assume j: "j < nat tot"
    have "engMatchers (NewEngine (engine_stocks stocks (Some (instance_of tot j))) h w0) (oStockCode ord) \<noteq> None \<longleftrightarrow> j = i"
      using engine_stocks_owned [OF assms(3), of "instance_of tot j"] own [OF j] by (simp add: NewEngine_matchers stockCodes_def)
    then show "let p = \<lparr>instanceIndex = int j, totalInstances = tot\<rparr>; code = oStockCode ord in
      (engMatchers (NewEngine (engine_stocks stocks (Some p)) h w0) code \<noteq> None \<longleftrightarrow> j = i) \<and>
      (engine_subject code \<in> fst ` set (wireEngineNATSOrders p stocks) \<longleftrightarrow> j = i) \<and>
      (\<forall>w. Router_SubmitOrder (NewRouter loc pub p) w ord =
        (if j = i then (map_option LocalError (fst (loc w ord)), snd (loc w ord))
         else (map_option (ForwardError (engine_subject code)) (fst (pub w (engine_subject code) ord)),
               snd (pub w (engine_subject code) ord))))"
      using engine_subjects_owned [OF assms(3), of "instance_of tot j"] own [OF j]
      by (simp add: Let_def Router_cases instance_of_def)
  qed (rule i)
qed

theorem orders_reach_exactly_one_engine_witness:
  "\<exists>i<nat 3. \<forall>j<nat 3.
    engMatchers (NewEngine (engine_stocks DefaultStocks (Some \<lparr>instanceIndex = int j, totalInstances = 3\<rparr>)) sample_hp ())
      (oStockCode (sample_hp 0)) \<noteq> None \<longleftrightarrow> j = i"
proof -
  have "(1::int) \<le> 3" "in64 3" "oStockCode (sample_hp 0) \<in> set (stockCodes DefaultStocks)"
    by (simp_all add: in64_def sample_hp_def stockCodes_def DefaultStocks_def defaultStocks_def)
  from orders_reach_exactly_one_engine [OF this, of sample_hp "()" "\<lambda>w _. (None, w)" "\<lambda>w _ _. (None, w)", unfolded Let_def]
  show ?thesis
    by (elim exE conjE) (rule exI, erule conjI, intro allI impI, drule spec, drule (1) mp, erule conjunct1)
qed


definition sample_dials :: dials where
  "sample_dials = \<lparr>dlPostgres = True, dlNatsPub = True, dlNatsSub = True, dlRedisCache = True, dlRedisPing = True, dlRedisPubSub = True\<rparr>"

lemma sample_env_valid: "Validate (Load sample_env) = None"
  by code_simp


text \<open>
  Only the feeds initialise the market repository. With the Binance feed on, or with both feeds
  off, the engine accepts orders for the default stocks but no ticker ever exists for them: the
  ticker is not found, and a trade does not create it.
\<close>

lemma default_stocks_have_no_ticker_without_simulator:
  assumes "server_main c d = Inr a" and "amPartitioner a = None" and "amSimulator a = None" and "s \<in> set DefaultStocks"
  shows "engMatchers (NewEngine (amEngineStocks a) h w) (sCode s) \<noteq> None \<and>
    MarketRepo_GetTicker (market_after_start ts a) (sCode s) = Inl ErrNotFound \<and>
    MarketRepo_UpdateTickerFromTrade now (market_after_start ts a) (sCode s) price qty = (Inl ErrNotFound, market_after_start ts a)"
proof -
  have st: "amEngineStocks a = server_stocks c" "amBinance a = binance_stocks c"
    using assms(1,2) by (auto simp: server_main_def engine_stocks_def split: option.splits sum.splits)
  have "s \<in> set (server_stocks c)" using assms(4) by (simp add: server_stocks_def)
  moreover have "sCode s \<notin> sCode ` set BinanceStocks"
    using assms(4) by (auto simp: DefaultStocks_def defaultStocks_def BinanceStocks_def binanceStocks_def)
  then have "mkTickers (market_after_start ts a) (sCode s) = None"
    using market_after_start_tickers [of ts a "sCode s"] assms(3) st(2) by (auto simp: binance_stocks_def split: if_splits)
  ultimately show ?thesis
    by (auto simp: NewEngine_matchers st(1) MarketRepo_GetTicker_def MarketRepo_UpdateTickerFromTrade_def)
qed

definition binance_env :: env where
  "binance_env key = (if key = ''BINANCE_FEED_ENABLED'' then ''true'' else [])"

lemma default_stocks_have_no_ticker_without_simulator_witness:
  "\<exists>a. server_main (Load binance_env) sample_dials = Inr a \<and>
    MarketRepo_GetTicker (market_after_start (\<lambda>_. (0, 0)) a) (sCode (hd DefaultStocks)) = Inl ErrNotFound"
proof -
  have "(case server_main (Load binance_env) sample_dials of Inl _ \<Rightarrow> False
      | Inr a \<Rightarrow> amPartitioner a = None \<and> amSimulator a = None)" by code_simp
  then obtain a where a: "server_main (Load binance_env) sample_dials = Inr a" "amPartitioner a = None" "amSimulator a = None"
    by (cases "server_main (Load binance_env) sample_dials") auto
  have "hd DefaultStocks \<in> set DefaultStocks" by (simp add: DefaultStocks_def defaultStocks_def)
  from default_stocks_have_no_ticker_without_simulator [OF a this, of sample_hp "()" "\<lambda>_. (0, 0)" 0 1 1]
  have "MarketRepo_GetTicker (market_after_start (\<lambda>_. (0, 0)) a) (sCode (hd DefaultStocks)) = Inl ErrNotFound" by (elim conjE)
  then show ?thesis using a(1) by blast
qed



end
