(* ===== verification/Json_Data.thy ===== *)
theory Json_Data
  imports Handlers
begin

text \<open>
  The JSON documents that clients of the server read: values, the accessors Go's type assertions
  give on a decoded \<open>interface{}\<close>, and the documents the struct tags of the response envelope
  (src/pkg/response/json.go) and of the entities (src/internal/domain/entity) prescribe. A document
  is the value its bytes stand for. An instant is written by the argument \<open>ft\<close> (RFC 3339). A nil
  slice, which encodes as \<open>null\<close>, and an empty one are both the empty array: the accessors read
  the two alike.
\<close>

datatype json =
    JNull | JBool bool | JNumber rat | JString string | JArray "json list" | JObject "(string \<times> json) list"

type_synonym fields = "(string \<times> json) list"

section \<open>Reading\<close>

text \<open>
  \<open>m[k]\<close> on a decoded object, and the assertions \<open>v.(map[string]interface{})\<close>,
  \<open>v.([]interface{})\<close>, \<open>v.(string)\<close> and \<open>v.(float64)\<close> in their two-value form: a value of
  another type reads as the zero value.
\<close>

definition member :: "fields \<Rightarrow> string \<Rightarrow> json" where
  "member m k = (case map_of m k of None \<Rightarrow> JNull | Some v \<Rightarrow> v)"

definition has_member :: "fields \<Rightarrow> string \<Rightarrow> bool" where
  "has_member m k \<longleftrightarrow> map_of m k \<noteq> None"

definition as_object :: "json \<Rightarrow> fields option" where
  "as_object v = (case v of JObject m \<Rightarrow> Some m | _ \<Rightarrow> None)"

definition as_array :: "json \<Rightarrow> json list" where
  "as_array v = (case v of JArray vs \<Rightarrow> vs | _ \<Rightarrow> [])"

definition as_string :: "json \<Rightarrow> string" where
  "as_string v = (case v of JString s \<Rightarrow> s | _ \<Rightarrow> [])"

definition as_number :: "json \<Rightarrow> float64" where
  "as_number v = (case v of JNumber x \<Rightarrow> x | _ \<Rightarrow> 0)"

definition as_bool :: "json \<Rightarrow> bool" where
  "as_bool v = (case v of JBool b \<Rightarrow> b | _ \<Rightarrow> False)"

text \<open>A nil map has no members.\<close>

definition object_fields :: "json \<Rightarrow> fields" where
  "object_fields v = (case as_object v of None \<Rightarrow> [] | Some m \<Rightarrow> m)"

lemma member_simps [simp]:
  "member [] k = JNull" "member ((k', v) # m) k = (if k = k' then v else member m k)"
  by (simp_all add: member_def)

lemma has_member_simps [simp]:
  "\<not> has_member [] k" "has_member ((k', v) # m) k \<longleftrightarrow> k = k' \<or> has_member m k"
  by (auto simp: has_member_def)

lemma as_simps [simp]:
  "as_object (JObject m) = Some m" "as_array (JArray vs) = vs" "as_string (JString s) = s"
  "as_number (JNumber x) = x" "as_bool (JBool b) = b"
  "as_object JNull = None" "as_array JNull = []" "as_string JNull = []" "as_number JNull = 0" "as_bool JNull = False"
  "object_fields (JObject m) = m" "object_fields JNull = []"
  by (simp_all add: as_object_def as_array_def as_string_def as_number_def as_bool_def object_fields_def)

section \<open>Writing\<close>

definition json_of_int :: "int64 \<Rightarrow> json" where
  "json_of_int n = JNumber (of_int n)"

definition json_of_Order :: "(time \<Rightarrow> string) \<Rightarrow> Order \<Rightarrow> json" where
  "json_of_Order ft x =
     JObject [(''id'', JString (oID x)), (''user_id'', JString (oUserID x)), (''stock_code'', JString (oStockCode x)),
       (''side'', JString (oSide x)), (''price'', json_of_int (oPrice x)), (''quantity'', json_of_int (oQuantity x)),
       (''filled_quantity'', json_of_int (oFilledQuantity x)), (''status'', JString (oStatus x)),
       (''created_at'', JString (ft (oCreatedAt x))), (''updated_at'', JString (ft (oUpdatedAt x)))]"

definition json_of_Trade :: "(time \<Rightarrow> string) \<Rightarrow> Trade \<Rightarrow> json" where
  "json_of_Trade ft x =
     JObject [(''id'', JString (tID x)), (''stock_code'', JString (tStockCode x)), (''buy_order_id'', JString (tBuyOrderID x)),
       (''sell_order_id'', JString (tSellOrderID x)), (''price'', json_of_int (tPrice x)),
       (''quantity'', json_of_int (tQuantity x)), (''buyer_user_id'', JString (tBuyerUserID x)),
       (''seller_user_id'', JString (tSellerUserID x)), (''executed_at'', JString (ft (tExecutedAt x)))]"

definition json_of_PriceLevel :: "PriceLevel \<Rightarrow> json" where
  "json_of_PriceLevel x =
     JObject [(''price'', json_of_int (plPrice x)), (''quantity'', json_of_int (plQuantity x)), (''count'', json_of_int (plCount x))]"

definition json_of_OrderBook :: "(time \<Rightarrow> string) \<Rightarrow> OrderBook \<Rightarrow> json" where
  "json_of_OrderBook ft x =
     JObject [(''stock_code'', JString (obStockCode x)), (''bids'', JArray (map json_of_PriceLevel (obBids x))),
       (''asks'', JArray (map json_of_PriceLevel (obAsks x))), (''updated_at'', JString (ft (obUpdatedAt x)))]"

definition json_of_Ticker :: "(time \<Rightarrow> string) \<Rightarrow> Ticker \<Rightarrow> json" where
  "json_of_Ticker ft x =
     JObject [(''stock_code'', JString (tkStockCode x)), (''last_price'', json_of_int (tkLastPrice x)),
       (''prev_close'', json_of_int (tkPrevClose x)), (''change'', json_of_int (tkChange x)),
       (''change_pct'', JNumber (tkChangePct x)), (''high'', json_of_int (tkHigh x)), (''low'', json_of_int (tkLow x)),
       (''volume'', json_of_int (tkVolume x)), (''updated_at'', JString (ft (tkUpdatedAt x)))]"

text \<open>The password hash is never written.\<close>

definition json_of_User :: "(time \<Rightarrow> string) \<Rightarrow> User \<Rightarrow> json" where
  "json_of_User ft x =
     JObject [(''id'', JString (uID x)), (''username'', JString (uUsername x)), (''created_at'', JString (ft (uCreatedAt x)))]"

text \<open>The maps of the account handlers are encoded with their keys in order.\<close>

definition json_of_data :: "(time \<Rightarrow> string) \<Rightarrow> data \<Rightarrow> json" where
  "json_of_data ft d =
     (case d of
        DOrder x \<Rightarrow> json_of_Order ft x
      | DOrders xs \<Rightarrow> JArray (map (json_of_Order ft) xs)
      | DTicker x \<Rightarrow> json_of_Ticker ft x
      | DTickers xs \<Rightarrow> JArray (map (json_of_Ticker ft) xs)
      | DBook x \<Rightarrow> json_of_OrderBook ft x
      | DTrades xs \<Rightarrow> JArray (map (json_of_Trade ft) xs)
      | DAuth u token expires \<Rightarrow>
          JObject ([(''expires_at'', JString (ft expires)), (''token'', JString token)]
                   @ (case u of None \<Rightarrow> [] | Some u \<Rightarrow> [(''user'', json_of_User ft u)])))"

definition json_of_FieldError :: "FieldError \<Rightarrow> json" where
  "json_of_FieldError x = JObject [(''field'', JString (feField x)), (''message'', JString (feMessage x))]"

definition json_of_apiError :: "apiError \<Rightarrow> json" where
  "json_of_apiError x =
     JObject ([(''code'', JString (aeCode x)), (''message'', JString (aeMessage x))]
              @ (if aeDetails x = [] then [] else [(''details'', JArray (map json_of_FieldError (aeDetails x)))]))"

definition json_of_Meta :: "Meta \<Rightarrow> json" where
  "json_of_Meta x =
     JObject [(''total'', json_of_int (mTotal x)), (''page'', json_of_int (mPage x)), (''per_page'', json_of_int (mPerPage x)),
       (''pages'', json_of_int (mPages x))]"

text \<open>The members marked \<open>omitempty\<close> are left out when they are nil.\<close>

definition json_of_envelope :: "(time \<Rightarrow> string) \<Rightarrow> envelope \<Rightarrow> fields" where
  "json_of_envelope ft e =
     [(''success'', JBool (enSuccess e))]
     @ (case enData e of None \<Rightarrow> [] | Some d \<Rightarrow> [(''data'', json_of_data ft d)])
     @ (case enError e of None \<Rightarrow> [] | Some x \<Rightarrow> [(''error'', json_of_apiError x)])
     @ (case enMeta e of None \<Rightarrow> [] | Some x \<Rightarrow> [(''meta'', json_of_Meta x)])"

section \<open>What a client reads of a response\<close>

lemma envelope_data:
  "member (json_of_envelope ft e) ''data'' = (case enData e of None \<Rightarrow> JNull | Some d \<Rightarrow> json_of_data ft d)"
  by (simp add: json_of_envelope_def split: option.split)

lemma envelope_success: "member (json_of_envelope ft e) ''success'' = JBool (enSuccess e)"
  by (simp add: json_of_envelope_def)

lemma envelope_meta:
  "member (json_of_envelope ft e) ''meta'' = (case enMeta e of None \<Rightarrow> JNull | Some x \<Rightarrow> json_of_Meta x)"
  by (simp add: json_of_envelope_def split: option.split)

lemma order_document:
  "as_object (json_of_Order ft x) = Some (object_fields (json_of_Order ft x))"
  "as_string (member (object_fields (json_of_Order ft x)) ''id'') = oID x"
  "as_string (member (object_fields (json_of_Order ft x)) ''status'') = oStatus x"
  "as_number (member (object_fields (json_of_Order ft x)) ''filled_quantity'') = of_int (oFilledQuantity x)"
  by (simp_all add: json_of_Order_def json_of_int_def)

lemma trade_document:
  "member (object_fields (json_of_Trade ft x)) ''buy_order_id'' = JString (tBuyOrderID x)"
  "member (object_fields (json_of_Trade ft x)) ''sell_order_id'' = JString (tSellOrderID x)"
  by (simp_all add: json_of_Trade_def)

end
