(* ===== verification/Tool_Stats.thy ===== *)
theory Tool_Stats
  imports Go_Strings
begin

text \<open>
  What the load and compliance tools (src/cmd/loadtest, matchtest, stresstest, wsloadtest,
  compliancetest) share: latency percentiles, synthetic client addresses, the WebSocket URL of a
  server, and the scheduling of their goroutines. The tools are separate programs, each with its own
  copy of these helpers; copies that are the same code are one definition here.
\<close>

section \<open>Text\<close>

definition digit :: "nat \<Rightarrow> char" where
  "digit d = char_of (48 + d)"

fun decimal :: "nat \<Rightarrow> string" where
  "decimal n = (if n < 10 then [digit n] else decimal (n div 10) @ [digit (n mod 10)])"

declare decimal.simps [simp del]

text \<open>The verb \<open>%d\<close>.\<close>

definition Itoa :: "int64 \<Rightarrow> string" where
  "Itoa n = (if n < 0 then CHR ''-'' # decimal (nat (- n)) else decimal (nat n))"

definition HasPrefix :: "string \<Rightarrow> string \<Rightarrow> bool" where
  "HasPrefix s p \<longleftrightarrow> take (length p) s = p"

definition TrimPrefix :: "string \<Rightarrow> string \<Rightarrow> string" where
  "TrimPrefix s p = (if HasPrefix s p then drop (length p) s else s)"

definition TrimRight :: "string \<Rightarrow> char \<Rightarrow> string" where
  "TrimRight s c = rev (dropWhile (\<lambda>x. x = c) (rev s))"

lemma digits_value_append:
  "digits_value (xs @ ys) acc = (case digits_value xs acc of None \<Rightarrow> None | Some v \<Rightarrow> digits_value ys v)"
  by (induction xs arbitrary: acc) (simp_all add: Let_def)

lemma digits_value_digit: "d < 10 \<Longrightarrow> digits_value [digit d] acc = Some (10 * acc + int d)"
proof -
  assume "d < 10"
  then have "int (of_char (digit d)) = 48 + int d" by (simp add: digit_def)
  then have "(of_char (digit d) :: int) = 48 + int d" by (simp only: of_nat_of_char)
  then show ?thesis using \<open>d < 10\<close> by simp
qed

lemma digits_value_decimal: "digits_value (decimal n) 0 = Some (int n)"
proof (induction n rule: decimal.induct)
  case (1 n)
  show ?case
  proof (cases "n < 10")
    case True
    then show ?thesis using digits_value_digit [OF True, of 0] by (simp add: decimal.simps [of n])
  next
    case False
    have "10 * int (n div 10) + int (n mod 10) = int n" by presburger
    then show ?thesis
      using False "1.IH" by (simp add: decimal.simps [of n] digits_value_append digits_value_digit del: digits_value.simps)
  qed
qed

lemma decimal_inj: "decimal m = decimal n \<Longrightarrow> m = n"
proof -
  assume "decimal m = decimal n"
  then have "Some (int m) = Some (int n)" using digits_value_decimal by metis
  then show ?thesis by simp
qed

lemma Itoa_inj: "0 \<le> m \<Longrightarrow> 0 \<le> n \<Longrightarrow> Itoa m = Itoa n \<longleftrightarrow> m = n"
  using decimal_inj [of "nat m" "nat n"] by (auto simp: Itoa_def)

section \<open>Addresses\<close>

text \<open>The helpers of src/cmd/wsloadtest; stresstest and compliancetest have the same ones.\<close>

definition maxConnPerIP :: int64 where "maxConnPerIP = 10"

definition fakeIP :: "int64 \<Rightarrow> string" where
  "fakeIP i = ''10.0.'' @ Itoa (quot64 i maxConnPerIP) @ ''.1''"

definition makeWSURL :: "string \<Rightarrow> string" where
  "makeWSURL base =
     (let base = TrimRight base CHR ''/''
      in if HasPrefix base ''https://'' then ''wss://'' @ drop 8 base @ ''/ws''
         else ''ws://'' @ TrimPrefix base ''http://'' @ ''/ws'')"

lemma quot64_ten: "0 \<le> i \<Longrightarrow> in64 i \<Longrightarrow> quot64 i maxConnPerIP = i div 10"
  by (simp add: quot64_nonneg maxConnPerIP_def)

text \<open>Two clients share an address exactly when they are in the same group of ten.\<close>

lemma fakeIP_eq_iff:
  assumes "0 \<le> i" "in64 i" "0 \<le> j" "in64 j"
  shows "fakeIP i = fakeIP j \<longleftrightarrow> i div 10 = j div 10"
  using assms Itoa_inj [of "i div 10" "j div 10"] by (simp add: fakeIP_def quot64_ten)

text \<open>So among any number of clients at most ten share an address.\<close>

lemma fakeIP_group:
  assumes "in64 (int n)"
  shows "card {i. i < n \<and> fakeIP (int i) = ip} \<le> 10"
proof (cases "\<exists>k. k < n \<and> fakeIP (int k) = ip")
  case True
  then obtain k where k: "k < n" "fakeIP (int k) = ip" by blast
  have "{i. i < n \<and> fakeIP (int i) = ip} \<subseteq> {10 * (k div 10)..<10 * (k div 10) + 10}"
  proof
    fix i assume "i \<in> {i. i < n \<and> fakeIP (int i) = ip}"
    then have "i < n" "fakeIP (int i) = ip" by simp_all
    moreover have "in64 (int i)" "in64 (int k)" using assms k(1) \<open>i < n\<close> by (auto simp: in64_def)
    ultimately have "int i div 10 = int k div 10" using k fakeIP_eq_iff [of "int i" "int k"] by simp
    then have "i div 10 = k div 10" by (metis of_nat_eq_iff of_nat_numeral zdiv_int)
    then have "10 * (k div 10) \<le> i \<and> i < 10 * (k div 10) + 10" by linarith
    then show "i \<in> {10 * (k div 10)..<10 * (k div 10) + 10}" by simp
  qed
  from card_mono [OF _ this] show ?thesis by simp
next
  case False
  then have "{i. i < n \<and> fakeIP (int i) = ip} = {}" by blast
  then show ?thesis by (simp only: card.empty)
qed

lemma makeWSURL_http:
  assumes "h \<noteq> []" and "last h \<noteq> CHR ''/''"
  shows "makeWSURL (''http://'' @ h) = ''ws://'' @ h @ ''/ws''"
    and "makeWSURL (''http://'' @ h @ ''/'') = ''ws://'' @ h @ ''/ws''"
    and "makeWSURL (''https://'' @ h) = ''wss://'' @ h @ ''/ws''"
proof -
  have h: "h = butlast h @ [last h]" using assms(1) by simp
  have r: "rev h = last h # rev (butlast h)" by (subst h) simp
  have t: "TrimRight (p @ h) CHR ''/'' = p @ h" "TrimRight (p @ h @ ''/'') CHR ''/'' = p @ h" for p
    using assms by (simp_all add: TrimRight_def r)
  show "makeWSURL (''http://'' @ h) = ''ws://'' @ h @ ''/ws''"
    "makeWSURL (''http://'' @ h @ ''/'') = ''ws://'' @ h @ ''/ws''"
    "makeWSURL (''https://'' @ h) = ''wss://'' @ h @ ''/ws''"
    unfolding makeWSURL_def t by (simp_all add: Let_def HasPrefix_def TrimPrefix_def)
qed

section \<open>Percentiles\<close>

definition Ceil :: "float64 \<Rightarrow> float64" where
  "Ceil x = of_int \<lceil>x\<rceil>"

text \<open>
  The \<open>percentile\<close> of src/cmd/stresstest, also \<open>stats.percentile\<close> of loadtest and \<open>pctile\<close> of
  wsloadtest. \<open>sort.Slice\<close> on numbers has one possible result.
\<close>

definition percentile :: "duration list \<Rightarrow> float64 \<Rightarrow> duration" where
  "percentile d p =
     (if length d = 0 then 0
      else let s = sort d;
               idx = sub64 (int64_of_float (Ceil (fmul (fdiv p 100) (float_of_int64 (int (length s)))))) 1;
               idx = (if idx < 0 then 0 else idx);
               idx = (if idx \<ge> int (length s) then int (length s) - 1 else idx)
           in s ! nat idx)"

text \<open>The \<open>Percentile\<close> of src/cmd/matchtest, which truncates instead.\<close>

definition Percentile :: "duration list \<Rightarrow> float64 \<Rightarrow> duration" where
  "Percentile d p =
     (if length d = 0 then 0
      else let sorted_d = sort d;
               idx = int64_of_float (fdiv (fmul (float_of_int64 (int (length sorted_d))) p) 100);
               idx = (if idx \<ge> int (length sorted_d) then int (length sorted_d) - 1 else idx)
           in sorted_d ! nat idx)"

text \<open>Small integers are exact in floating point.\<close>

lemma float_of_int64_exact: "0 \<le> n \<Longrightarrow> n < 2 ^ 53 \<Longrightarrow> float_of_int64 n = of_int n"
  using round53_le_int [of "of_int n" n] round53_ge_pos [of n 0 "of_int n"]
  by (cases "n = 0") (simp_all add: float_of_int64_def round53_def [of 0])

text \<open>
  The rank computed in floating point is the exact one for the percentages the tools ask for,
  although 95/100 and 99/100 are not exact doubles: they are rounded down, by too little to reach the
  next integer.
\<close>

lemma rank_float:
  assumes n: "0 < n" "n < 2 ^ 44" and p: "0 < p" "p \<le> 100"
    and q: "q \<le> of_int p / 100" "of_int p / 100 \<le> q + 1 / 2 ^ 53"
  shows "Ceil (fmul q (float_of_int64 n)) = of_int \<lceil>(of_int (p * n) :: rat) / 100\<rceil>"
proof -
  define m where "m = \<lceil>(of_int (p * n) :: rat) / 100\<rceil>"
  define y where "y = q * of_int n"
  have "(of_int (p * n) :: rat) / 100 \<le> of_int m" "of_int m - 1 < (of_int (p * n) :: rat) / 100"
    unfolding m_def by (simp_all add: ceiling_correct) linarith
  then have le: "(of_int (p * n) :: rat) \<le> of_int (100 * m)" and gt: "of_int (100 * m - 100) < (of_int (p * n) :: rat)"
    by simp_all
  then have m: "p * n \<le> 100 * m" "100 * m - 100 + 1 \<le> p * n" by linarith+
  have "p * n \<le> 100 * n" using p n by (intro mult_right_mono) simp_all
  then have m_bounds: "1 \<le> m" "m \<le> n" using m mult_pos_pos [OF p(1) n(1)] by linarith+
  have "y \<le> of_int p / 100 * of_int n" unfolding y_def using q n by (intro mult_right_mono) simp_all
  also have "\<dots> \<le> of_int m" using le by simp
  finally have up: "round53 y \<le> of_int m" using m_bounds n by (intro round53_le_int) simp_all
  have "of_int p / 100 * of_int n \<le> (q + 1 / 2 ^ 53) * of_int n" using q(2) n by (intro mult_right_mono) simp_all
  then have "of_int (p * n) / 100 - of_int n / 2 ^ 53 \<le> y" by (simp add: y_def field_simps)
  moreover have "(of_int n :: rat) < of_int (2 ^ 44)" using n(2) by (simp only: of_int_less_iff)
  moreover have "(of_int (100 * m - 100 + 1) :: rat) \<le> of_int (p * n)" using m(2) by (simp only: of_int_le_iff)
  ultimately have "of_int (256 * (m - 1) + 1) * 2 powi (- 8) \<le> y" by (simp add: power_int_minus field_simps)
  then have "of_int (256 * (m - 1) + 1) * 2 powi (- 8) \<le> round53 y"
    using m_bounds n by (intro round53_ge_pos) simp_all
  then have "of_int (m - 1) < round53 y" by (simp add: power_int_minus field_simps)
  with up have "\<lceil>round53 y\<rceil> = m" by (simp add: ceiling_eq_iff)
  then show ?thesis using n by (simp add: Ceil_def fmul_def float_of_int64_exact y_def m_def)
qed

lemma percentages:
  "fdiv 50 100 = 1 / 2" "fdiv 95 100 = 8556839292003942 / 2 ^ 53" "fdiv 99 100 = 8917127262193582 / 2 ^ 53"
  "fdiv 100 100 = 1"
  by code_simp+

definition percentages_asked :: "int list" where "percentages_asked = [50, 95, 99, 100]"

lemma fdiv_percent:
  assumes "p \<in> set percentages_asked"
  shows "fdiv (of_int p) 100 \<le> of_int p / 100 \<and> of_int p / 100 \<le> fdiv (of_int p) 100 + 1 / 2 ^ 53"
proof -
  from assms consider "p = 50" | "p = 95" | "p = 99" | "p = 100" by (auto simp: percentages_asked_def)
  then show ?thesis by cases (simp_all add: percentages)
qed

text \<open>The element with rank \<open>k\<close> of a list: at least \<open>k\<close> elements are not larger, fewer than \<open>k\<close> are smaller.\<close>

lemma sorted_rank:
  fixes d :: "'a :: linorder list"
  assumes "i < length d"
  shows "Suc i \<le> length (filter (\<lambda>x. x \<le> sort d ! i) d)" and "length (filter (\<lambda>x. x < sort d ! i) d) \<le> i"
proof -
  define s where "s = sort d"
  have len: "length (filter P d) = card {j. j < length s \<and> P (s ! j)}" for P
  proof -
    have "length (filter P d) = length (filter P s)" unfolding s_def by (simp flip: size_mset add: mset_filter)
    then show ?thesis by (simp add: length_filter_conv_card)
  qed
  have i: "i < length s" using assms by (simp add: s_def)
  have mono: "j \<le> k \<Longrightarrow> k < length s \<Longrightarrow> s ! j \<le> s ! k" for j k
    by (simp add: s_def sorted_nth_mono)
  have "{..i} \<subseteq> {j. j < length s \<and> s ! j \<le> s ! i}" using mono i by auto
  from card_mono [OF _ this] show "Suc i \<le> length (filter (\<lambda>x. x \<le> sort d ! i) d)" unfolding len s_def [symmetric] by simp
  have "{j. j < length s \<and> s ! j < s ! i} \<subseteq> {..<i}" using mono i by (auto simp: not_le [symmetric])
  from card_mono [OF _ this] show "length (filter (\<lambda>x. x < sort d ! i) d) \<le> i" unfolding len s_def [symmetric] by simp
qed

lemma rank_bounds:
  assumes "0 < n" and "0 < p" and "p \<le> 100"
  shows "1 \<le> \<lceil>(of_int (p * n) :: rat) / 100\<rceil>" and "\<lceil>(of_int (p * n) :: rat) / 100\<rceil> \<le> n"
proof -
  have "(of_int (p * n) :: rat) > 0" using assms by simp
  then have "0 < (of_int (p * n) :: rat) / 100" by (rule divide_pos_pos) simp
  then show "1 \<le> \<lceil>(of_int (p * n) :: rat) / 100\<rceil>" by linarith
  have "(of_int (p * n) :: rat) \<le> of_int (100 * n)" using assms by (simp only: of_int_le_iff) simp
  then show "\<lceil>(of_int (p * n) :: rat) / 100\<rceil> \<le> n" by (intro ceiling_le) simp
qed

lemma percentile_index:
  assumes "p \<in> set percentages_asked" and "d \<noteq> []" and "int (length d) < 2 ^ 44"
  shows "percentile d (of_int p) = sort d ! nat (\<lceil>(of_int (p * int (length d)) :: rat) / 100\<rceil> - 1)"
proof -
  define n where "n = int (length d)"
  define m where "m = \<lceil>(of_int (p * n) :: rat) / 100\<rceil>"
  have p: "0 < p" "p \<le> 100" using assms(1) by (auto simp: percentages_asked_def)
  have n: "0 < n" "n < 2 ^ 44" using assms(2,3) by (simp_all add: n_def)
  have m: "1 \<le> m" "m \<le> n" using rank_bounds [OF n(1) p] by (simp_all add: m_def)
  have "Ceil (fmul (fdiv (of_int p) 100) (float_of_int64 n)) = of_int m"
    unfolding m_def using fdiv_percent [OF assms(1)] by (intro rank_float n p) simp_all
  moreover have "int64_of_float (of_int m) = m" using m n by (simp add: int64_of_float_def in64_def)
  moreover have "sub64 m 1 = m - 1" using m n by (simp add: sub64_id in64_def)
  ultimately have "percentile d (of_int p) = sort d ! nat (m - 1)"
    using assms(2) m by (simp add: percentile_def n_def [symmetric] Let_def)
  then show ?thesis unfolding m_def n_def .
qed

text \<open>The truncating variant takes the next larger element where the rank is a whole number.\<close>

lemma Percentile_index:
  assumes "p \<in> set percentages_asked" and "d \<noteq> []" and "int (length d) < 2 ^ 44"
  shows "Percentile d (of_int p) = sort d ! nat (min (p * int (length d) div 100) (int (length d) - 1))"
proof -
  define n where "n = int (length d)"
  define k where "k = p * n div 100"
  have p: "0 < p" "p \<le> 100" using assms(1) by (auto simp: percentages_asked_def)
  have n: "0 < n" "n < 2 ^ 44" using assms(2,3) by (simp_all add: n_def)
  have pn: "0 < p * n" "p * n \<le> 100 * n" using p n by simp_all
  then have k: "0 \<le> k" "k \<le> n" unfolding k_def by linarith+
  have ex: "fmul (float_of_int64 n) (of_int p) = of_int (p * n)"
    using float_of_int64_exact [of "p * n"] float_of_int64_exact [of n] n pn
    by (simp add: fmul_def float_of_int64_def mult.commute)
  define y :: rat where "y = of_int (p * n) / 100"
  have kp: "100 * k \<le> p * n" "p * n \<le> 100 * k + 99" unfolding k_def by linarith+
  have "(of_int (100 * k) :: rat) \<le> of_int (p * n)" "(of_int (p * n) :: rat) \<le> of_int (100 * k + 99)"
    using kp by (simp_all only: of_int_le_iff)
  then have y: "of_int k \<le> y" "y \<le> of_int (128 * k + 127) * 2 powi (- 7)"
    by (simp_all add: y_def power_int_minus field_simps)
  have "of_int k \<le> round53 y"
  proof (cases "k = 0")
    case True
    have "(0 :: rat) < of_int (p * n)" using pn(1) by (simp only: of_int_0_less_iff)
    then have "0 < y" unfolding y_def by (rule divide_pos_pos) simp
    then show ?thesis using round53_sign [of y] True by simp
  next
    case False
    then show ?thesis using round53_ge_pos [of k 0 y] y(1) k n by simp
  qed
  moreover have "round53 y \<le> of_int (128 * k + 127) * 2 powi (- 7)" using y(2) k n by (intro round53_le) simp_all
  then have "round53 y < of_int k + 1" by (simp add: power_int_minus field_simps)
  ultimately have "\<lfloor>round53 y\<rfloor> = k" by (simp add: floor_eq_iff)
  moreover have "0 \<le> round53 y" using \<open>of_int k \<le> round53 y\<close> k(1) by (metis of_int_0_le_iff order_trans)
  ultimately have "int64_of_float (fdiv (fmul (float_of_int64 n) (of_int p)) 100) = k"
    using k n unfolding ex by (simp add: fdiv_def int64_of_float_def in64_def y_def)
  then show ?thesis using assms(2) by (auto simp: Percentile_def n_def [symmetric] k_def [symmetric] Let_def min_def)
qed

section \<open>Thresholds\<close>

text \<open>
  A share \<open>c\<close> of \<open>n\<close> as a percentage, and the test that it reaches a threshold. For the thresholds
  of the tools the test in floating point is the exact one.
\<close>

definition share :: "int64 \<Rightarrow> int64 \<Rightarrow> float64" where
  "share c n = fmul (fdiv (float_of_int64 c) (float_of_int64 n)) 100"

definition thresholds :: "int list" where "thresholds = [50, 75, 90, 95]"

lemma threshold_share: "t \<in> set thresholds \<Longrightarrow> fmul (fdiv (of_int t) 100) 100 = of_int t"
proof -
  have "list_all (\<lambda>t. fmul (fdiv (of_int t) 100) 100 = of_int t) thresholds" by code_simp
  then show "t \<in> set thresholds \<Longrightarrow> ?thesis" by (auto simp: list_all_iff)
qed

lemma share_reaches:
  assumes t: "t \<in> set thresholds" and c: "0 \<le> c" "c \<le> n" and n: "0 < n" "n < 2 ^ 40"
  shows "of_int t \<le> share c n \<longleftrightarrow> t * n \<le> 100 * c"
proof -
  have t': "0 < t" "t \<le> 95" using t by (auto simp: thresholds_def)
  define x :: rat where "x = of_int c / of_int n"
  define y where "y = round53 x"
  have sh: "share c n = round53 (y * 100)"
    using c n by (simp add: share_def fmul_def fdiv_def float_of_int64_exact x_def y_def)
  have n': "0 < (of_int n :: rat)" "(of_int n :: rat) < 2 ^ 40"
    using n by (simp, metis of_int_less_iff of_int_numeral of_int_power)
  have gap: "1 / 2 ^ 47 \<le> 1 / (100 * (of_int n :: rat))" using n' by (simp add: field_simps)
  define f :: int where "f = \<lfloor>(of_int t :: rat) / 100 * 2 ^ 48\<rfloor>"
  have f: "of_int f \<le> (of_int t :: rat) / 100 * 2 ^ 48" "(of_int t :: rat) / 100 * 2 ^ 48 < of_int f + 1"
    unfolding f_def by linarith+
  have "(of_int t :: rat) \<le> 95" using t'(2) by simp
  then have "(of_int f :: rat) < of_int (2 ^ 53 - 2)" using f(1) by simp
  then have f_small: "f < 2 ^ 53 - 2" by (simp only: of_int_less_iff)
  have "(of_int 1 :: rat) \<le> of_int t" using t'(1) by (simp only: of_int_le_iff)
  then have "(of_int 1 :: rat) < of_int f" using f(2) by simp
  then have f_pos: "1 < f" by (simp only: of_int_less_iff)
  consider "100 * c = t * n" | "t * n + 1 \<le> 100 * c" | "100 * c + 1 \<le> t * n" by linarith
  then show ?thesis
  proof cases
    case 1
    then have "(of_int (100 * c) :: rat) = of_int (t * n)" by (simp only:)
    then have x: "x = of_int t / 100" using n' by (simp add: x_def field_simps)
    have "share c n = of_int t" unfolding sh y_def x using threshold_share [OF t] by (simp only: fmul_def fdiv_def)
    then show ?thesis using 1 by simp
  next
    case 2
    then have "(of_int (t * n + 1) :: rat) \<le> of_int (100 * c)" by (simp only: of_int_le_iff)
    then have "of_int (t * n + 1) / (100 * of_int n) \<le> of_int (100 * c) / (100 * (of_int n :: rat))"
      using n' by (intro divide_right_mono) simp_all
    then have "of_int t / 100 + 1 / (100 * of_int n) \<le> x" using n' by (simp add: x_def add_divide_distrib)
    then have "of_int (f + 1) * 2 powi (- 48) \<le> x" using f gap by (simp add: power_int_minus field_simps)
    then have "of_int (f + 1) * 2 powi (- 48) \<le> y"
      unfolding y_def using f_pos f_small by (intro round53_ge_pos) simp_all
    then have "of_int t * 2 powi 0 \<le> y * 100" using f(2) by (simp add: power_int_minus field_simps)
    then have "of_int t \<le> share c n" unfolding sh using round53_ge_pos [of t 0 "y * 100"] t' by simp
    then show ?thesis using 2 by simp
  next
    case 3
    then have "(of_int (100 * c + 1) :: rat) \<le> of_int (t * n)" by (simp only: of_int_le_iff)
    then have le: "of_int (100 * c + 1) / (100 * of_int n) \<le> of_int (t * n) / (100 * (of_int n :: rat))"
      using n' by (intro divide_right_mono) simp_all
    have "x + 1 / (100 * of_int n) = of_int (100 * c + 1) / (100 * of_int n)" using n' by (simp add: x_def add_divide_distrib)
    also note le
    also have "of_int (t * n) / (100 * (of_int n :: rat)) = of_int t / 100" using n' by simp
    finally have "x \<le> of_int t / 100 - 1 / (100 * of_int n)" by linarith
    then have "x \<le> of_int (f - 1) * 2 powi (- 48)" using f gap by (simp add: power_int_minus field_simps)
    then have "y \<le> of_int (f - 1) * 2 powi (- 48)"
      unfolding y_def using f_pos f_small by (intro round53_le) simp_all
    then have "y * 100 \<le> of_int (t * 2 ^ 42 - 1) * 2 powi (- 42)" using f(1) by (simp add: power_int_minus field_simps)
    then have "share c n \<le> of_int (t * 2 ^ 42 - 1) * 2 powi (- 42)"
      unfolding sh using t' by (intro round53_le) simp_all
    then have "share c n < of_int t" by (simp add: power_int_minus field_simps)
    then show ?thesis using 3 by simp
  qed
qed

section \<open>Goroutines\<close>

text \<open>
  A group of goroutines with local states \<open>gs i\<close> on a shared state: \<open>f i\<close> is the next step of
  goroutine \<open>i\<close>, which leaves a goroutine that has returned as it is. A schedule lists the
  goroutines in the order in which they take their steps.
\<close>

primrec schedule :: "(nat \<Rightarrow> 'g \<Rightarrow> 's \<Rightarrow> 'g \<times> 's) \<Rightarrow> nat list \<Rightarrow> (nat \<Rightarrow> 'g) \<times> 's \<Rightarrow> (nat \<Rightarrow> 'g) \<times> 's" where
  "schedule f [] x = x"
| "schedule f (i # js) x = schedule f js (let (g, s) = f i (fst x i) (snd x) in ((fst x)(i := g), s))"

text \<open>
  \<open>WaitGroup.Wait\<close> for \<open>n\<close> goroutines of at most \<open>k\<close> steps each: whatever the schedule has left
  over is done in the end.
\<close>

definition wait_all :: "nat \<Rightarrow> nat \<Rightarrow> nat list" where
  "wait_all n k = concat (replicate k [0..<n])"

lemma schedule_append: "schedule f (xs @ ys) x = schedule f ys (schedule f xs x)"
  by (induction xs arbitrary: x) simp_all

lemma schedule_inv:
  assumes "P x" and "\<And>i gs s. i \<in> set js \<Longrightarrow> P (gs, s) \<Longrightarrow> P (gs(i := fst (f i (gs i) s)), snd (f i (gs i) s))"
  shows "P (schedule f js x)"
  using assms
proof (induction js arbitrary: x)
  case (Cons i js)
  obtain gs s where x: "x = (gs, s)" by fastforce
  have "P (gs(i := fst (f i (gs i) s)), snd (f i (gs i) s))" using Cons.prems(1) x by (intro Cons.prems(2)) simp_all
  then show ?case using Cons x by (simp add: case_prod_beta)
qed simp

end
