(* ===== verification/Tool_Client.thy ===== *)
theory Tool_Client
  imports Json_Data Tool_Stats "HOL-Library.State_Monad"
begin

text \<open>
  The world of a test tool: the server it talks to, the network in between and the clock, as a state
  \<open>'w\<close> with the calls the tools make on it. The server is a parameter; theory \<open>Tool_Properties\<close>
  plugs the modelled one in. The section on pools is the contract of the tools' bounded worker
  pools.
\<close>

section \<open>Calls\<close>

text \<open>
  \<open>hcToken\<close> is the bearer token, empty when the \<open>Authorization\<close> header is not set. A reply is a
  status with the JSON value of its body, \<open>None\<close> when the body is not JSON; an error is one of the
  network or a timeout.
\<close>

record http_call =
  hcMethod :: string
  hcPath :: string
  hcToken :: string
  hcBody :: "json option"

type_synonym reply = "int64 \<times> json option"

record serverMsg =
  sgType :: string
  sgChannel :: string
  sgStock :: string
  sgData :: json
  sgMessage :: string

text \<open>
  The operations on the world: an HTTP exchange, the clock, a pause, and for WebSockets a dial with
  its \<open>X-Forwarded-For\<close> header, a write (whose errors the tools ignore), a read with a timeout, and
  a close. A connection is a number.
\<close>

record 'w peer =
  prDo :: "http_call \<Rightarrow> 'w \<Rightarrow> (string + reply) \<times> 'w"
  prNow :: "'w \<Rightarrow> time"
  prWait :: "duration \<Rightarrow> 'w \<Rightarrow> 'w"
  prDial :: "string \<Rightarrow> 'w \<Rightarrow> (string + nat) \<times> 'w"
  prWrite :: "nat \<Rightarrow> json \<Rightarrow> 'w \<Rightarrow> 'w"
  prRead :: "nat \<Rightarrow> duration \<Rightarrow> 'w \<Rightarrow> (string + serverMsg) \<times> 'w"
  prClose :: "nat \<Rightarrow> 'w \<Rightarrow> 'w"

text \<open>A call with the time it took.\<close>

definition timed_call :: "'w peer \<Rightarrow> http_call \<Rightarrow> 'w \<Rightarrow> ((string + reply) \<times> duration) \<times> 'w" where
  "timed_call pr c w = (let (r, w') = prDo pr c w in ((r, prNow pr w' - prNow pr w), w'))"

section \<open>Decoding into structs\<close>

text \<open>
  \<open>json.Unmarshal\<close> of a member into a field: \<open>null\<close> and an absent member leave the zero value, a
  value of another type is an error. Members are looked up by their exact names.
\<close>

definition field_bool :: "fields \<Rightarrow> string \<Rightarrow> bool option" where
  "field_bool m k = (case member m k of JBool b \<Rightarrow> Some b | JNull \<Rightarrow> Some False | _ \<Rightarrow> None)"

definition field_string :: "fields \<Rightarrow> string \<Rightarrow> string option" where
  "field_string m k = (case member m k of JString s \<Rightarrow> Some s | JNull \<Rightarrow> Some [] | _ \<Rightarrow> None)"

definition field_int :: "fields \<Rightarrow> string \<Rightarrow> int64 option" where
  "field_int m k =
     (case member m k of
        JNumber x \<Rightarrow> if of_int \<lfloor>x\<rfloor> = x \<and> in64 \<lfloor>x\<rfloor> then Some \<lfloor>x\<rfloor> else None
      | JNull \<Rightarrow> Some 0 | _ \<Rightarrow> None)"

definition document :: "json \<Rightarrow> fields option" where
  "document v = (case v of JObject m \<Rightarrow> Some m | JNull \<Rightarrow> Some [] | _ \<Rightarrow> None)"

definition field_object :: "fields \<Rightarrow> string \<Rightarrow> fields option" where
  "field_object m k = document (member m k)"

text \<open>The server's decoding of an order request (src/internal/transport/http/handler/order.go).\<close>

definition decode_createOrderBody :: "json \<Rightarrow> createOrderBody option" where
  "decode_createOrderBody v =
     do { m \<leftarrow> document v;
          stock \<leftarrow> field_string m ''stock_code'';
          side \<leftarrow> field_string m ''side'';
          price \<leftarrow> field_int m ''price'';
          qty \<leftarrow> field_int m ''quantity'';
          Some \<lparr>bdStockCode = stock, bdSide = side, bdPrice = price, bdQuantity = qty\<rparr> }"

text \<open>An order document with an integral price is decoded as it was meant.\<close>

lemma decode_order:
  assumes "member m ''stock_code'' = JString stock" "member m ''side'' = JString side"
    and "member m ''price'' = JNumber (of_int price)" "member m ''quantity'' = JNumber (of_int qty)"
    and "in64 price" "in64 qty"
  shows "decode_createOrderBody (JObject m) =
    Some \<lparr>bdStockCode = stock, bdSide = side, bdPrice = price, bdQuantity = qty\<rparr>"
  using assms by (simp add: decode_createOrderBody_def document_def field_string_def field_int_def)

text \<open>A request body the server accepts: it decodes and passes validation.\<close>

definition acceptable :: "json \<Rightarrow> bool" where
  "acceptable v \<longleftrightarrow>
     (case decode_createOrderBody v of
        None \<Rightarrow> False
      | Some b \<Rightarrow> request_ok \<lparr>rqStockCode = bdStockCode b, rqSide = bdSide b, rqPrice = bdPrice b, rqQuantity = bdQuantity b\<rparr>)"

lemma acceptable_order:
  assumes "member m ''stock_code'' = JString stock" "member m ''side'' = JString side"
    and "member m ''price'' = JNumber (of_int price)" "member m ''quantity'' = JNumber (of_int qty)"
    and "IsValidStockCode stock" "side = ''BUY'' \<or> side = ''SELL''"
    and "1 \<le> price" "price \<le> 999999999" "1 \<le> qty" "qty \<le> 1000000"
  shows "acceptable (JObject m)"
proof -
  have "decode_createOrderBody (JObject m) =
      Some \<lparr>bdStockCode = stock, bdSide = side, bdPrice = price, bdQuantity = qty\<rparr>"
    using assms by (intro decode_order) (simp_all add: in64_def)
  then show ?thesis
    using assms by (auto simp: acceptable_def request_ok_def Side_IsValid_def SideBuy_def SideSell_def)
qed

text \<open>The five stocks all tools trade in.\<close>

lemma tool_stocks_valid: "list_all IsValidStockCode [''BBCA'', ''BBRI'', ''TLKM'', ''ASII'', ''GOTO'']"
  by code_simp

section \<open>Worker pools\<close>

text \<open>
  A bounded pool: a goroutine is launched when a slot of the semaphore is free and gives it back when
  it is done. The laws are those of the channel of capacity \<open>cap\<close> used as the semaphore.
\<close>

locale worker_pool =
  fixes cap :: nat and step :: "'s \<Rightarrow> 'e \<Rightarrow> 's option"
    and running :: "'s \<Rightarrow> nat" and started :: "'s \<Rightarrow> nat" and finished :: "'s \<Rightarrow> nat"
  assumes step_cases: "step s e = Some s' \<Longrightarrow>
      running s' = running s \<and> started s' = started s \<and> finished s' = finished s \<or>
      running s < cap \<and> running s' = Suc (running s) \<and> started s' = Suc (started s) \<and> finished s' = finished s \<or>
      Suc (running s') = running s \<and> started s' = started s \<and> finished s' = Suc (finished s)"
begin

text \<open>A run, \<open>None\<close> when some event was not possible.\<close>

primrec run_events :: "'s \<Rightarrow> 'e list \<Rightarrow> 's option" where
  "run_events s [] = Some s"
| "run_events s (e # es) = (case step s e of None \<Rightarrow> None | Some s' \<Rightarrow> run_events s' es)"

text \<open>Never more goroutines than slots, and everything launched is running or finished.\<close>

lemma run_accounts:
  assumes "run_events s es = Some s'" and "running s \<le> cap" and "started s = running s + finished s"
  shows "running s' \<le> cap \<and> started s' = running s' + finished s'"
  using assms
proof (induction es arbitrary: s)
  case (Cons e es)
  from Cons.prems(1) obtain t where t: "step s e = Some t" "run_events t es = Some s'"
    by (auto split: option.splits)
  have "running t \<le> cap \<and> started t = running t + finished t" using step_cases [OF t(1)] Cons.prems(2,3) by auto
  then show ?case using Cons.IH [OF t(2)] by blast
qed simp

text \<open>So when nothing is running any more, everything launched has finished.\<close>

lemma run_complete:
  assumes "run_events s es = Some s'" and "running s \<le> cap" and "started s = running s + finished s" and "running s' = 0"
  shows "finished s' = started s'"
  using run_accounts [OF assms(1-3)] assms(4) by simp

end

end
