(* ===== verification/Compliance_Tool.thy ===== *)
theory Compliance_Tool
  imports Tool_Client
begin

text \<open>
  The compliance validator src/cmd/compliancetest: a runner that performs checks against a server and
  prints a scorecard with a verdict. The runner's methods are computations of the state monad over its
  record, which holds the world too. The detail texts of the checks are only printed and are left out.
  The interleaving of the goroutines a check starts is an argument.
\<close>

section \<open>Checks and the runner\<close>

record ct_config =
  ccWsClients :: int64
  ccTimeout :: duration
  ccSkipScale :: bool

record checkResult =
  ckSection :: string
  ckName :: string
  ckPass :: bool
  ckBonus :: bool

definition ct_pass :: "string \<Rightarrow> string \<Rightarrow> checkResult" where
  "ct_pass section name = \<lparr>ckSection = section, ckName = name, ckPass = True, ckBonus = False\<rparr>"

definition ct_fail :: "string \<Rightarrow> string \<Rightarrow> checkResult" where
  "ct_fail section name = \<lparr>ckSection = section, ckName = name, ckPass = False, ckBonus = False\<rparr>"

definition bonusPass :: "string \<Rightarrow> string \<Rightarrow> checkResult" where
  "bonusPass section name = \<lparr>ckSection = section, ckName = name, ckPass = True, ckBonus = True\<rparr>"

definition bonusFail :: "string \<Rightarrow> string \<Rightarrow> checkResult" where
  "bonusFail section name = \<lparr>ckSection = section, ckName = name, ckPass = False, ckBonus = True\<rparr>"

record 'w runner =
  rnCfg :: ct_config
  rnResults :: "checkResult list"
  rnBuyerToken :: string
  rnSellerToken :: string
  rnWorld :: 'w

type_synonym ('w, 'a) act = "('w runner, 'a) state"

definition newRunner :: "ct_config \<Rightarrow> 'w \<Rightarrow> 'w runner" where
  "newRunner cfg w = \<lparr>rnCfg = cfg, rnResults = [], rnBuyerToken = [], rnSellerToken = [], rnWorld = w\<rparr>"

definition add_check :: "checkResult \<Rightarrow> ('w, unit) act" where
  "add_check c = State_Monad.update (\<lambda>r. r\<lparr>rnResults := rnResults r @ [c]\<rparr>)"

text \<open>A check with its outcome, and its bonus variant.\<close>

definition verdict_of :: "string \<Rightarrow> string \<Rightarrow> bool \<Rightarrow> checkResult" where
  "verdict_of section name ok = (if ok then ct_pass section name else ct_fail section name)"

definition bonus_of :: "string \<Rightarrow> string \<Rightarrow> bool \<Rightarrow> checkResult" where
  "bonus_of section name ok = (if ok then bonusPass section name else bonusFail section name)"

text \<open>A call on the world.\<close>

definition on_world :: "('w \<Rightarrow> 'a \<times> 'w) \<Rightarrow> ('w, 'a) act" where
  "on_world f = State (\<lambda>r. let (x, w) = f (rnWorld r) in (x, r\<lparr>rnWorld := w\<rparr>))"

definition tokens :: "('w, string \<times> string) act" where
  "tokens = State (\<lambda>r. ((rnBuyerToken r, rnSellerToken r), r))"

definition sleep :: "'w peer \<Rightarrow> duration \<Rightarrow> ('w, unit) act" where
  "sleep pr d = on_world (\<lambda>w. ((), prWait pr d w))"

section \<open>HTTP helpers\<close>

text \<open>
  The status and the decoded body; a body that is not a JSON object leaves the map nil. An error
  comes with status zero.
\<close>

definition doJSON :: "'w peer \<Rightarrow> string \<Rightarrow> string \<Rightarrow> string \<Rightarrow> json option \<Rightarrow> ('w, int64 \<times> fields \<times> string option) act" where
  "doJSON pr meth path token body =
     on_world (\<lambda>w. let (r, w) = prDo pr \<lparr>hcMethod = meth, hcPath = path, hcToken = token, hcBody = body\<rparr> w
                    in (case r of
                          Inl err \<Rightarrow> (0, [], Some err)
                        | Inr (status, raw) \<Rightarrow> (status, (case raw of None \<Rightarrow> [] | Some v \<Rightarrow> object_fields v), None), w))"

definition ct_register :: "'w peer \<Rightarrow> string \<Rightarrow> string \<Rightarrow> ('w, string + string) act" where
  "ct_register pr username password = do {
     (status, m, err) \<leftarrow> doJSON pr ''POST'' ''/api/v1/auth/register'' []
       (Some (JObject [(''password'', JString password), (''username'', JString username)]));
     State_Monad.return
       (case err of
          Some e \<Rightarrow> Inl (''register request failed: '' @ e)
        | None \<Rightarrow>
            if status \<noteq> 200 \<and> status \<noteq> 201 then Inl (''register returned HTTP '' @ Itoa status)
            else case as_object (member m ''data'') of
                   None \<Rightarrow> Inl ''register: no data field in response''
                 | Some data \<Rightarrow>
                     (let token = as_string (member data ''token'')
                      in if token = [] then Inl ''register: empty token in response'' else Inr token)) }"

definition json_of_ct_order :: "string \<Rightarrow> string \<Rightarrow> float64 \<Rightarrow> int64 \<Rightarrow> json" where
  "json_of_ct_order stock side price qty =
     JObject [(''price'', JNumber price), (''quantity'', json_of_int qty), (''side'', JString side),
       (''stock_code'', JString stock), (''type'', JString ''LIMIT'')]"

definition ct_placeOrder :: "'w peer \<Rightarrow> string \<Rightarrow> string \<Rightarrow> string \<Rightarrow> float64 \<Rightarrow> int64 \<Rightarrow> ('w, string + string \<times> string) act" where
  "ct_placeOrder pr token stock side price qty = do {
     (status, m, err) \<leftarrow> doJSON pr ''POST'' ''/api/v1/orders'' token (Some (json_of_ct_order stock side price qty));
     State_Monad.return
       (case err of
          Some e \<Rightarrow> Inl (''place order: '' @ e)
        | None \<Rightarrow>
            if status \<noteq> 200 \<and> status \<noteq> 201 then Inl (''place order HTTP '' @ Itoa status)
            else case as_object (member m ''data'') of
                   None \<Rightarrow> Inl ''place order: no data field''
                 | Some data \<Rightarrow> Inr (as_string (member data ''id''), as_string (member data ''status''))) }"

text \<open>The members of the order, \<open>None\<close> for an error or a reply without data.\<close>

definition ct_getOrder :: "'w peer \<Rightarrow> string \<Rightarrow> string \<Rightarrow> ('w, fields option) act" where
  "ct_getOrder pr token ident = do {
     (status, m, err) \<leftarrow> doJSON pr ''GET'' (''/api/v1/orders/'' @ ident) token None;
     State_Monad.return (case err of Some e \<Rightarrow> None | None \<Rightarrow> as_object (member m ''data'')) }"

section \<open>WebSocket helpers\<close>

definition dialWS :: "'w peer \<Rightarrow> string \<Rightarrow> ('w, string + nat) act" where
  "dialWS pr ip = on_world (prDial pr ip)"

definition subscribeWS :: "'w peer \<Rightarrow> nat \<Rightarrow> string \<Rightarrow> string \<Rightarrow> ('w, unit) act" where
  "subscribeWS pr conn ch stock =
     on_world (\<lambda>w. ((), prWrite pr conn
       (JObject [(''action'', JString ''subscribe''), (''channel'', JString ch), (''stock'', JString stock)]) w))"

definition closeWS :: "'w peer \<Rightarrow> nat \<Rightarrow> ('w, unit) act" where
  "closeWS pr conn = on_world (\<lambda>w. ((), prClose pr conn w))"

text \<open>
  \<open>readUntil\<close> with the time that remains until its deadline. A read takes at least one tick of the
  clock, a nanosecond, so the loop ends.
\<close>

function read_until :: "'w peer \<Rightarrow> nat \<Rightarrow> duration \<Rightarrow> (serverMsg \<Rightarrow> bool) \<Rightarrow> 'w \<Rightarrow> serverMsg option \<times> 'w" where
  "read_until pr conn remaining good w =
     (if remaining \<le> 0 then (None, w)
      else case prRead pr conn remaining w of
             (Inl err, w') \<Rightarrow> (None, w')
           | (Inr msg, w') \<Rightarrow>
               if good msg then (Some msg, w')
               else read_until pr conn (remaining - max 1 (prNow pr w' - prNow pr w)) good w')"
  by pat_completeness auto
termination
  by (relation "measure (\<lambda>(pr, conn, remaining, good, w). nat remaining)") auto

declare read_until.simps [simp del]

definition readUntil :: "'w peer \<Rightarrow> nat \<Rightarrow> duration \<Rightarrow> (serverMsg \<Rightarrow> bool) \<Rightarrow> ('w, bool) act" where
  "readUntil pr conn timeout good = on_world (\<lambda>w. let (m, w) = read_until pr conn timeout good w in (m \<noteq> None, w))"

definition second :: duration where "second = 10 ^ 9"

definition milliseconds :: "int \<Rightarrow> duration" where "milliseconds n = n * 10 ^ 6"

text \<open>The characters of the check names outside ASCII, in UTF-8.\<close>

definition dash :: string where "dash = '' '' @ [CHR 0xE2, CHR 0x80, CHR 0x94] @ '' ''"

definition arrow :: string where "arrow = '' '' @ [CHR 0xE2, CHR 0x86, CHR 0x92] @ '' ''"

definition geq :: string where "geq = [CHR 0xE2, CHR 0x89, CHR 0xA5]"

section \<open>SETUP\<close>

definition runSetup :: "'w peer \<Rightarrow> ('w, unit) act" where
  "runSetup pr = do {
     (status, m, err) \<leftarrow> doJSON pr ''GET'' ''/healthz'' [] None;
     add_check (verdict_of ''SETUP'' ''Server reachable (GET /healthz)'' (err = None \<and> status = 200));
     ts \<leftarrow> on_world (\<lambda>w. (prNow pr w, w));
     buyer \<leftarrow> ct_register pr (''ct_buyer_'' @ Itoa ts) ''password123'';
     case buyer of
       Inl e \<Rightarrow> add_check (ct_fail ''SETUP'' ''Auth: register buyer + seller'')
     | Inr buyerToken \<Rightarrow> do {
         seller \<leftarrow> ct_register pr (''ct_seller_'' @ Itoa ts) ''password123'';
         case seller of
           Inl e \<Rightarrow> add_check (ct_fail ''SETUP'' ''Auth: register buyer + seller'')
         | Inr sellerToken \<Rightarrow> do {
             State_Monad.update (\<lambda>r. r\<lparr>rnBuyerToken := buyerToken, rnSellerToken := sellerToken\<rparr>);
             add_check (ct_pass ''SETUP'' ''Auth: register buyer + seller'') } } }"

section \<open>REST API\<close>

text \<open>The checks that only look at the status of a reply.\<close>

definition status_ok :: "'w peer \<Rightarrow> string \<Rightarrow> string \<Rightarrow> ('w, bool \<times> fields) act" where
  "status_ok pr path token = do {
     (status, m, err) \<leftarrow> doJSON pr ''GET'' path token None;
     State_Monad.return (err = None \<and> status = 200, m) }"

definition runREST :: "'w peer \<Rightarrow> ('w, unit) act" where
  "runREST pr = do {
     (buyer, seller) \<leftarrow> tokens;
     b \<leftarrow> ct_placeOrder pr buyer ''BBCA'' ''BUY'' 9500 100;
     add_check (verdict_of ''REST API'' (''POST /api/v1/orders'' @ dash @ ''create BUY order'') (\<not> isl b));
     s \<leftarrow> ct_placeOrder pr seller ''BBCA'' ''SELL'' 9500 100;
     add_check (verdict_of ''REST API'' (''POST /api/v1/orders'' @ dash @ ''create SELL order'') (\<not> isl s));
     (ok3, m3) \<leftarrow> status_ok pr ''/api/v1/orders'' buyer;
     add_check (verdict_of ''REST API'' (''GET /api/v1/orders'' @ dash @ ''list orders'') ok3);
     (ok4, m4) \<leftarrow> status_ok pr ''/api/v1/orders?stock=BBCA'' buyer;
     add_check (verdict_of ''REST API'' (''GET /api/v1/orders?stock=BBCA'' @ dash @ ''filter by stock'') ok4);
     (ok5, m5) \<leftarrow> status_ok pr ''/api/v1/orders?status=OPEN'' buyer;
     add_check (verdict_of ''REST API'' (''GET /api/v1/orders?status=OPEN'' @ dash @ ''filter by status'') ok5);
     (ok6, m6) \<leftarrow> status_ok pr ''/api/v1/trades'' [];
     add_check (verdict_of ''REST API'' (''GET /api/v1/trades'' @ dash @ ''global trade history'') ok6);
     (ok7, m7) \<leftarrow> status_ok pr ''/api/v1/market/ticker/BBCA'' [];
     add_check (verdict_of ''REST API'' (''GET /market/ticker/BBCA'' @ dash @ ''ticker snapshot (last_price field)'')
       (ok7 \<and> has_member (object_fields (member m7 ''data'')) ''last_price''));
     (ok8, m8) \<leftarrow> status_ok pr ''/api/v1/market/orderbook/BBCA'' [];
     add_check (verdict_of ''REST API'' (''GET /market/orderbook/BBCA'' @ dash @ ''order book depth (bids+asks)'')
       (ok8 \<and> has_member (object_fields (member m8 ''data'')) ''bids'' \<and> has_member (object_fields (member m8 ''data'')) ''asks''));
     (ok9, m9) \<leftarrow> status_ok pr ''/api/v1/market/trades/BBCA'' [];
     add_check (bonus_of ''REST API'' (''[bonus] GET /market/trades/BBCA'' @ dash @ ''recent trades'') ok9) }"

section \<open>MATCHING ENGINE\<close>

definition matchStock :: string where "matchStock = ''TLKM''"

definition matchPrice :: float64 where "matchPrice = 3500"

definition order_id :: "string + string \<times> string \<Rightarrow> string" where
  "order_id r = (case r of Inl e \<Rightarrow> [] | Inr (ident, status) \<Rightarrow> ident)"

text \<open>
  The search for a trade in a list of trades: when none involves the two orders, any trade counts.
\<close>

definition trade_found :: "string \<Rightarrow> string \<Rightarrow> json list \<Rightarrow> bool" where
  "trade_found buyID sellID data =
     (let found = list_ex (\<lambda>t. let tm = object_fields t
                              in member tm ''buy_order_id'' = JString buyID \<or> member tm ''sell_order_id'' = JString sellID) data
      in if \<not> found \<and> length data > 0 then True else found)"

definition trade_check :: "'w peer \<Rightarrow> string \<Rightarrow> string \<Rightarrow> ('w, unit) act" where
  "trade_check pr buyID sellID = do {
     sleep pr (milliseconds 300);
     (status, m, err) \<leftarrow> doJSON pr ''GET'' ''/api/v1/trades'' [] None;
     add_check (verdict_of ''MATCHING ENGINE'' (''BUY+SELL match'' @ arrow @ ''trade record created'')
       (err = None \<and> trade_found buyID sellID (as_array (member m ''data'')))) }"

definition order_is :: "string \<Rightarrow> fields option \<Rightarrow> bool" where
  "order_is st ord = (case ord of None \<Rightarrow> False | Some m \<Rightarrow> member m ''status'' = JString st)"

text \<open>Asking for an order up to \<open>n\<close> times, 200 ms apart, until it is as wanted.\<close>

primrec poll_order :: "'w peer \<Rightarrow> string \<Rightarrow> string \<Rightarrow> (fields option \<Rightarrow> bool) \<Rightarrow> nat \<Rightarrow> ('w, bool) act" where
  "poll_order pr token ident good 0 = State_Monad.return False"
| "poll_order pr token ident good (Suc n) = do {
     ord \<leftarrow> ct_getOrder pr token ident;
     if good ord then State_Monad.return True
     else do { sleep pr (milliseconds 200); poll_order pr token ident good n } }"

text \<open>A failed poll asks once more, for the text of the report.\<close>

definition filled_check :: "'w peer \<Rightarrow> string \<Rightarrow> string \<Rightarrow> string \<Rightarrow> ('w, unit) act" where
  "filled_check pr token ident side = do {
     filled \<leftarrow> poll_order pr token ident (order_is ''FILLED'') 25;
     (if filled then State_Monad.return None else ct_getOrder pr token ident);
     add_check (verdict_of ''MATCHING ENGINE'' (side @ '' order status'' @ arrow @ ''FILLED after match'') filled) }"

definition orderbook_check :: "'w peer \<Rightarrow> ('w, unit) act" where
  "orderbook_check pr = do {
     (status, m, err) \<leftarrow> doJSON pr ''GET'' (''/api/v1/market/orderbook/'' @ matchStock) [] None;
     add_check (verdict_of ''MATCHING ENGINE'' ''Orderbook endpoint reachable after match''
       (err = None \<and> as_object (member m ''data'') \<noteq> None)) }"

text \<open>
  The race check. The users are registered one after the other, falling back to the runner's own; then
  every pair is placed by a goroutine of its own, the buy order first.
\<close>

definition racePairs :: nat where "racePairs = 20"

definition token_or :: "string \<Rightarrow> string + string \<Rightarrow> string" where
  "token_or fallback r = (case r of Inl e \<Rightarrow> fallback | Inr token \<Rightarrow> token)"

primrec race_users :: "'w peer \<Rightarrow> time \<Rightarrow> nat list \<Rightarrow> ('w, (string \<times> string) list) act" where
  "race_users pr ts [] = State_Monad.return []"
| "race_users pr ts (i # js) = do {
     (buyer, seller) \<leftarrow> tokens;
     b \<leftarrow> ct_register pr (''rc_buyer_'' @ Itoa ts @ ''_'' @ Itoa (int i)) ''password123'';
     s \<leftarrow> ct_register pr (''rc_seller_'' @ Itoa ts @ ''_'' @ Itoa (int i)) ''password123'';
     rest \<leftarrow> race_users pr ts js;
     State_Monad.return ((token_or buyer b, token_or seller s) # rest) }"

datatype race_stage = RaceBuy | RaceSell string | RaceDone

record 'w race =
  raRunner :: "'w runner"
  raBuyIDs :: "nat \<Rightarrow> string"
  raAttempted :: int64

definition race_step :: "'w peer \<Rightarrow> (string \<times> string) list \<Rightarrow> nat \<Rightarrow> race_stage \<Rightarrow> 'w race \<Rightarrow> race_stage \<times> 'w race" where
  "race_step pr users i g s =
     (case g of
        RaceBuy \<Rightarrow>
          (let (b, r) = run_state (ct_placeOrder pr (fst (users ! i)) matchStock ''BUY'' matchPrice 100) (raRunner s)
           in (if order_id b = [] then RaceDone else RaceSell (order_id b), s\<lparr>raRunner := r\<rparr>))
      | RaceSell bID \<Rightarrow>
          (let (x, r) = run_state (ct_placeOrder pr (snd (users ! i)) matchStock ''SELL'' matchPrice 100) (raRunner s);
               s = s\<lparr>raRunner := r\<rparr>
           in (RaceDone, if order_id x = [] then s
                         else s\<lparr>raAttempted := add64 (raAttempted s) 1, raBuyIDs := (raBuyIDs s)(i := bID)\<rparr>))
      | RaceDone \<Rightarrow> (RaceDone, s))"

definition race_run :: "'w peer \<Rightarrow> (string \<times> string) list \<Rightarrow> nat list \<Rightarrow> ('w, (nat \<Rightarrow> string) \<times> int64) act" where
  "race_run pr users sched =
     State (\<lambda>r. let s = snd (schedule (race_step pr users) (filter (\<lambda>i. i < racePairs) sched @ wait_all racePairs 2)
                        ((\<lambda>_. RaceBuy), \<lparr>raRunner = r, raBuyIDs = (\<lambda>_. []), raAttempted = 0\<rparr>))
                in ((raBuyIDs s, raAttempted s), raRunner s))"

text \<open>The number of buy orders found to be filled.\<close>

primrec race_matched :: "'w peer \<Rightarrow> (string \<times> string) list \<Rightarrow> (nat \<Rightarrow> string) \<Rightarrow> nat list \<Rightarrow> int64 \<Rightarrow> ('w, int64) act" where
  "race_matched pr users ids [] matched = State_Monad.return matched"
| "race_matched pr users ids (i # js) matched =
     (if ids i = [] then race_matched pr users ids js matched
      else do {
        ok \<leftarrow> poll_order pr (fst (users ! i)) (ids i) (order_is ''FILLED'') 25;
        race_matched pr users ids js (if ok then add64 matched 1 else matched) })"

definition race_check :: "'w peer \<Rightarrow> nat list \<Rightarrow> ('w, unit) act" where
  "race_check pr sched = do {
     ts \<leftarrow> on_world (\<lambda>w. (prNow pr w, w));
     users \<leftarrow> race_users pr ts [0..<racePairs];
     (ids, attempted) \<leftarrow> race_run pr users sched;
     sleep pr (milliseconds 500);
     matched \<leftarrow> race_matched pr users ids [0..<racePairs] 0;
     let matchRate = (if attempted > 0 then share matched attempted else 0);
     add_check (verdict_of ''MATCHING ENGINE''
       (''Race condition safety: 20 concurrent BUY+SELL pairs ('' @ geq @ ''75% matched)'') (matchRate \<ge> 75)) }"

definition partially_filled :: "fields option \<Rightarrow> bool" where
  "partially_filled ord =
     (case ord of None \<Rightarrow> False
      | Some m \<Rightarrow> as_number (member m ''filled_quantity'') \<ge> 100 \<and> as_string (member m ''status'') \<noteq> ''FILLED'')"

definition partial_check :: "'w peer \<Rightarrow> ('w, unit) act" where
  "partial_check pr = do {
     ts \<leftarrow> on_world (\<lambda>w. (prNow pr w, w));
     (buyer, seller) \<leftarrow> tokens;
     bt \<leftarrow> ct_register pr (''pf_buyer_'' @ Itoa ts) ''password123'';
     st \<leftarrow> ct_register pr (''pf_seller_'' @ Itoa ts) ''password123'';
     let name = ''[bonus] Partial fill: BUY 200 + SELL 100'' @ arrow @ ''partial fill'';
     b \<leftarrow> ct_placeOrder pr (token_or buyer bt) matchStock ''BUY'' matchPrice 200;
     (if isl b then add_check (bonusFail ''MATCHING ENGINE'' name)
      else do {
        s \<leftarrow> ct_placeOrder pr (token_or seller st) matchStock ''SELL'' matchPrice 100;
        if isl s then add_check (bonusFail ''MATCHING ENGINE'' name)
        else do {
          sleep pr (milliseconds 500);
          ok \<leftarrow> poll_order pr (token_or buyer bt) (order_id b) partially_filled 25;
          (if ok then State_Monad.return None else ct_getOrder pr (token_or buyer bt) (order_id b));
          add_check (bonus_of ''MATCHING ENGINE'' name ok) } }) }"

definition skipped :: "string \<Rightarrow> string \<Rightarrow> string \<Rightarrow> int \<Rightarrow> checkResult" where
  "skipped section before after i = ct_fail section (before @ Itoa i @ after)"

primrec add_checks :: "checkResult list \<Rightarrow> ('w, unit) act" where
  "add_checks [] = State_Monad.return ()"
| "add_checks (c # cs) = do { add_check c; add_checks cs }"

definition runMatching :: "'w peer \<Rightarrow> nat list \<Rightarrow> ('w, unit) act" where
  "runMatching pr sched = do {
     (buyer, seller) \<leftarrow> tokens;
     b \<leftarrow> ct_placeOrder pr buyer matchStock ''BUY'' matchPrice 100;
     (if order_id b = [] then do {
        add_check (ct_fail ''MATCHING ENGINE'' ''BUY order accepted by engine'');
        add_checks (map (skipped ''MATCHING ENGINE'' ''check '' ('' (skipped'' @ dash @ ''BUY placement failed)'')) [2..7]) }
      else do {
        add_check (ct_pass ''MATCHING ENGINE'' ''BUY order accepted by engine'');
        s \<leftarrow> ct_placeOrder pr seller matchStock ''SELL'' matchPrice 100;
        add_check (verdict_of ''MATCHING ENGINE'' ''SELL order accepted, match attempted'' (order_id s \<noteq> []));
        trade_check pr (order_id b) (order_id s);
        filled_check pr buyer (order_id b) ''BUY'';
        filled_check pr seller (order_id s) ''SELL'';
        orderbook_check pr;
        race_check pr sched;
        partial_check pr }) }"

section \<open>WEBSOCKET\<close>

text \<open>A subscription and its acknowledgement within five seconds.\<close>

definition subscribe_ack :: "'w peer \<Rightarrow> nat \<Rightarrow> string \<Rightarrow> ('w, bool) act" where
  "subscribe_ack pr conn ch = do {
     subscribeWS pr conn ch ''BBCA'';
     readUntil pr conn (5 * second) (\<lambda>m. sgType m = ''subscribed'' \<and> sgChannel m = ch) }"

text \<open>A pair of orders that match, whatever becomes of them.\<close>

definition place_pair :: "'w peer \<Rightarrow> ('w, unit) act" where
  "place_pair pr = do {
     (buyer, seller) \<leftarrow> tokens;
     ct_placeOrder pr buyer ''BBCA'' ''BUY'' 9500 100;
     ct_placeOrder pr seller ''BBCA'' ''SELL'' 9500 100;
     State_Monad.return () }"

text \<open>
  The two readers of the broadcast check: until which instant each reads, or what it found. After the
  schedule each reader goes on alone until it is done.
\<close>

definition reader_step :: "'w peer \<Rightarrow> (nat \<Rightarrow> nat) \<Rightarrow> nat \<Rightarrow> time + bool \<Rightarrow> 'w \<Rightarrow> (time + bool) \<times> 'w" where
  "reader_step pr conns i g w =
     (case g of
        Inr found \<Rightarrow> (Inr found, w)
      | Inl until \<Rightarrow>
          if until - prNow pr w \<le> 0 then (Inr False, w)
          else case prRead pr (conns i) (until - prNow pr w) w of
                 (Inl err, w) \<Rightarrow> (Inr False, w)
               | (Inr msg, w) \<Rightarrow> (if sgType msg = ''market.trade'' then Inr True else Inl until, w))"

definition finish_reader :: "'w peer \<Rightarrow> nat \<Rightarrow> time + bool \<Rightarrow> 'w \<Rightarrow> bool \<times> 'w" where
  "finish_reader pr conn g w =
     (case g of
        Inr found \<Rightarrow> (found, w)
      | Inl until \<Rightarrow> (let (m, w) = read_until pr conn (until - prNow pr w) (\<lambda>m. sgType m = ''market.trade'') w in (m \<noteq> None, w)))"

definition read_both :: "'w peer \<Rightarrow> nat \<Rightarrow> nat \<Rightarrow> nat list \<Rightarrow> 'w \<Rightarrow> (bool \<times> bool) \<times> 'w" where
  "read_both pr conn1 conn2 sched w =
     (let until = prNow pr w + 8 * second;
          (gs, w) = schedule (reader_step pr (\<lambda>i. if i = 0 then conn1 else conn2)) (filter (\<lambda>i. i < 2) sched) ((\<lambda>_. Inl until), w);
          (r1, w) = finish_reader pr conn1 (gs 0) w;
          (r2, w) = finish_reader pr conn2 (gs 1) w
      in ((r1, r2), w))"

definition broadcast_check :: "'w peer \<Rightarrow> nat list \<Rightarrow> ('w, unit) act" where
  "broadcast_check pr sched = (let name = ''Broadcast: 2 clients both receive same trade event'' in do {
     c1 \<leftarrow> dialWS pr ''10.98.0.1'';
     case c1 of
       Inl e \<Rightarrow> add_check (ct_fail ''WEBSOCKET'' name)
     | Inr conn1 \<Rightarrow> do {
         c2 \<leftarrow> dialWS pr ''10.98.0.2'';
         case c2 of
           Inl e \<Rightarrow> do { closeWS pr conn1; add_check (ct_fail ''WEBSOCKET'' name) }
         | Inr conn2 \<Rightarrow> do {
             subscribeWS pr conn1 ''market.trade'' ''BBCA'';
             subscribeWS pr conn2 ''market.trade'' ''BBCA'';
             sleep pr (milliseconds 500);
             place_pair pr;
             (r1, r2) \<leftarrow> on_world (read_both pr conn1 conn2 sched);
             add_check (verdict_of ''WEBSOCKET'' name (r1 \<and> r2));
             closeWS pr conn1;
             closeWS pr conn2 } } })"

definition nonblocking_check :: "'w peer \<Rightarrow> ('w, unit) act" where
  "nonblocking_check pr = (let name = ''Non-blocking broadcast: slow client doesn'' @ [CHR 0x27] @ ''t starve fast client'' in do {
     c1 \<leftarrow> dialWS pr ''10.97.0.1'';
     case c1 of
       Inl e \<Rightarrow> add_check (ct_fail ''WEBSOCKET'' name)
     | Inr slowConn \<Rightarrow> do {
         c2 \<leftarrow> dialWS pr ''10.97.0.2'';
         case c2 of
           Inl e \<Rightarrow> do { closeWS pr slowConn; add_check (ct_fail ''WEBSOCKET'' name) }
         | Inr fastConn \<Rightarrow> do {
             subscribeWS pr slowConn ''market.trade'' ''BBCA'';
             subscribeWS pr fastConn ''market.trade'' ''BBCA'';
             sleep pr (milliseconds 300);
             place_pair pr;
             fastGot \<leftarrow> readUntil pr fastConn (8 * second) (\<lambda>m. sgType m = ''market.trade'');
             closeWS pr slowConn;
             closeWS pr fastConn;
             add_check (verdict_of ''WEBSOCKET'' name fastGot) } } })"

text \<open>The checks on one connection.\<close>

definition single_connection_checks :: "'w peer \<Rightarrow> nat \<Rightarrow> ('w, unit) act" where
  "single_connection_checks pr conn = do {
     add_check (ct_pass ''WEBSOCKET'' ''Connect to /ws'');
     a2 \<leftarrow> subscribe_ack pr conn ''market.ticker'';
     add_check (verdict_of ''WEBSOCKET'' (''Subscribe market.ticker'' @ arrow @ ''ack received'') a2);
     a3 \<leftarrow> subscribe_ack pr conn ''market.trade'';
     add_check (verdict_of ''WEBSOCKET'' (''Subscribe market.trade'' @ arrow @ ''ack received'') a3);
     a4 \<leftarrow> subscribe_ack pr conn ''market.orderbook'';
     add_check (bonus_of ''WEBSOCKET'' (''[bonus] Subscribe market.orderbook'' @ arrow @ ''ack received'') a4);
     place_pair pr;
     a5 \<leftarrow> readUntil pr conn (8 * second) (\<lambda>m. sgType m = ''market.trade'');
     add_check (verdict_of ''WEBSOCKET'' ''Receive market.trade event after BUY+SELL match'' a5);
     a6 \<leftarrow> readUntil pr conn (10 * second) (\<lambda>m. sgType m = ''market.ticker'');
     add_check (verdict_of ''WEBSOCKET'' ''Receive market.ticker event (simulator or trade-triggered)'' a6);
     closeWS pr conn }"

definition runWebSocket :: "'w peer \<Rightarrow> nat list \<Rightarrow> ('w, unit) act" where
  "runWebSocket pr sched = do {
     c \<leftarrow> dialWS pr ''10.99.0.1'';
     case c of
       Inl e \<Rightarrow> do {
         add_check (ct_fail ''WEBSOCKET'' ''Connect to /ws'');
         add_checks (map (skipped ''WEBSOCKET'' ''WS check '' ('' (skipped'' @ dash @ ''no connection)'')) [2..8]) }
     | Inr conn \<Rightarrow> do {
         single_connection_checks pr conn;
         broadcast_check pr sched;
         nonblocking_check pr } }"

section \<open>SCALE\<close>

text \<open>The goroutine of one client: dial, then close the connection two seconds later.\<close>

datatype scale_stage = ScaleDial | ScaleHold nat | ScaleDone

definition scale_step :: "'w peer \<Rightarrow> nat \<Rightarrow> scale_stage \<Rightarrow> 'w \<times> int64 \<Rightarrow> scale_stage \<times> 'w \<times> int64" where
  "scale_step pr i g s =
     (let (w, connected) = s
      in case g of
           ScaleDial \<Rightarrow>
             (case prDial pr (fakeIP (int i)) w of
                (Inl e, w) \<Rightarrow> (ScaleDone, w, connected)
              | (Inr conn, w) \<Rightarrow> (ScaleHold conn, w, add64 connected 1))
         | ScaleHold conn \<Rightarrow> (ScaleDone, prClose pr conn w, connected)
         | ScaleDone \<Rightarrow> (ScaleDone, w, connected))"

definition scale_dials :: "'w peer \<Rightarrow> nat \<Rightarrow> nat list \<Rightarrow> 'w \<Rightarrow> int64 \<times> 'w" where
  "scale_dials pr n sched w =
     (let (gs, w, connected) = schedule (scale_step pr) (filter (\<lambda>i. i < n) sched @ wait_all n 2) ((\<lambda>_. ScaleDial), w, 0)
      in (connected, w))"

text \<open>The orders the thirty workers place within fifteen seconds; those that succeed are counted.\<close>

primrec throughput_orders :: "'w peer \<Rightarrow> string \<Rightarrow> nat \<Rightarrow> int64 \<Rightarrow> 'w \<Rightarrow> int64 \<times> 'w" where
  "throughput_orders pr token 0 submitted w = (submitted, w)"
| "throughput_orders pr token (Suc n) submitted w =
     (let (r, w) = prDo pr \<lparr>hcMethod = ''POST'', hcPath = ''/api/v1/orders'', hcToken = token,
                            hcBody = Some (json_of_ct_order ''BBCA'' ''BUY'' 9500 100)\<rparr> w
      in throughput_orders pr token n
           (case r of Inl e \<Rightarrow> submitted
            | Inr (status, _) \<Rightarrow> if 200 \<le> status \<and> status < 300 then add64 submitted 1 else submitted) w)"

text \<open>With no clients the rate is not a number and the check fails.\<close>

definition runScale :: "'w peer \<Rightarrow> nat list \<Rightarrow> nat \<Rightarrow> ('w, unit) act" where
  "runScale pr sched orders = do {
     n \<leftarrow> State (\<lambda>r. (ccWsClients (rnCfg r), r));
     connected \<leftarrow> on_world (scale_dials pr (nat n) sched);
     add_check (verdict_of ''SCALE'' (Itoa n @ '' concurrent WS connections ('' @ geq @ ''95% success)'')
       (n \<noteq> 0 \<and> share connected n \<ge> 95));
     ts \<leftarrow> on_world (\<lambda>w. (prNow pr w, w));
     (buyer, seller) \<leftarrow> tokens;
     t \<leftarrow> ct_register pr (''thr_user_'' @ Itoa ts) ''password123'';
     submitted \<leftarrow> on_world (throughput_orders pr (token_or buyer t) orders 0);
     let rpm = fmul (fdiv (float_of_int64 submitted) 15) 60;
     add_check (bonus_of ''SCALE'' (''[bonus] Throughput '' @ geq @ ''1000 orders/min (15s burst)'') (rpm \<ge> 1000)) }"

section \<open>Scorecard\<close>

definition sectionOrder :: "string list" where
  "sectionOrder = [''SETUP'', ''REST API'', ''MATCHING ENGINE'', ''WEBSOCKET'', ''SCALE'']"

record scorecard =
  scTotalRequired :: int64
  scPassRequired :: int64
  scTotalBonus :: int64
  scPassBonus :: int64

definition count_check :: "scorecard \<Rightarrow> checkResult \<Rightarrow> scorecard" where
  "count_check sc c =
     (if ckBonus c
      then (let sc = sc\<lparr>scTotalBonus := scTotalBonus sc + 1\<rparr>
            in if ckPass c then sc\<lparr>scPassBonus := scPassBonus sc + 1\<rparr> else sc)
      else (let sc = sc\<lparr>scTotalRequired := scTotalRequired sc + 1\<rparr>
            in if ckPass c then sc\<lparr>scPassRequired := scPassRequired sc + 1\<rparr> else sc))"

text \<open>The counts over the sections in order, and the verdict.\<close>

definition printScorecard :: "checkResult list \<Rightarrow> scorecard" where
  "printScorecard results =
     foldl (\<lambda>sc name. foldl count_check sc (filter (\<lambda>c. ckSection c = name) results))
       \<lparr>scTotalRequired = 0, scPassRequired = 0, scTotalBonus = 0, scPassBonus = 0\<rparr> sectionOrder"

definition compliant :: "scorecard \<Rightarrow> bool" where
  "compliant sc \<longleftrightarrow> scPassRequired sc = scTotalRequired sc"

section \<open>The program\<close>

definition setup_failed :: "'w runner \<Rightarrow> bool" where
  "setup_failed r \<longleftrightarrow>
     list_ex (\<lambda>c. ckSection c = ''SETUP'' \<and> \<not> ckPass c) (rnResults r) \<or> rnBuyerToken r = [] \<or> rnSellerToken r = []"

text \<open>The interleavings of the race, the readers and the scale test, and the orders of the throughput test.\<close>

record ct_choices =
  chRace :: "nat list"
  chReaders :: "nat list"
  chDials :: "nat list"
  chOrders :: nat

definition remaining_checks :: "'w peer \<Rightarrow> ct_config \<Rightarrow> ct_choices \<Rightarrow> ('w, unit) act" where
  "remaining_checks pr cfg ch = do {
     runREST pr;
     runMatching pr (chRace ch);
     runWebSocket pr (chReaders ch);
     if ccSkipScale cfg then State_Monad.return () else runScale pr (chDials ch) (chOrders ch) }"

definition ct_main :: "'w peer \<Rightarrow> ct_config \<Rightarrow> ct_choices \<Rightarrow> 'w \<Rightarrow> scorecard \<times> 'w runner" where
  "ct_main pr cfg ch w =
     (let r = snd (run_state (runSetup pr) (newRunner cfg w))
      in if setup_failed r then (printScorecard (rnResults r), r)
         else let r = snd (run_state (remaining_checks pr cfg ch) r) in (printScorecard (rnResults r), r))"

section \<open>The checks a run performs\<close>

text \<open>
  A computation has a shape when, whatever the server answers, it appends checks of these sections and
  kinds, in this order, and keeps the configuration.
\<close>

definition kind_of :: "checkResult \<Rightarrow> string \<times> bool" where
  "kind_of c = (ckSection c, ckBonus c)"

definition shape :: "('w, 'a) act \<Rightarrow> (string \<times> bool) list \<Rightarrow> bool" where
  "shape m ks \<longleftrightarrow>
     (\<forall>r. let r' = snd (run_state m r)
          in rnCfg r' = rnCfg r \<and> (\<exists>cs. rnResults r' = rnResults r @ cs \<and> map kind_of cs = ks))"

named_theorems shapes \<open>the checks a computation appends\<close>

lemma shape_return [shapes]: "shape (State_Monad.return x) []"
  by (simp add: shape_def)

lemma shape_world [shapes]: "shape (on_world f) []"
  by (simp add: shape_def on_world_def Let_def split: prod.split)

lemma shape_tokens [shapes]: "shape tokens []"
  by (simp add: shape_def tokens_def)

lemma shape_config [shapes]: "shape (State (\<lambda>r. (f r, r))) []"
  by (simp add: shape_def)

lemma shape_check: "shape (add_check c) [kind_of c]"
  by (simp add: shape_def add_check_def State_Monad.update_def)

lemma shape_verdict [shapes]: "shape (add_check (verdict_of sec name ok)) [(sec, False)]"
  using shape_check [of "verdict_of sec name ok"] by (simp add: kind_of_def verdict_of_def ct_pass_def ct_fail_def split: if_splits)

lemma shape_bonus [shapes]: "shape (add_check (bonus_of sec name ok)) [(sec, True)]"
  using shape_check [of "bonus_of sec name ok"] by (simp add: kind_of_def bonus_of_def bonusPass_def bonusFail_def split: if_splits)

lemma shape_plain [shapes]:
  "shape (add_check (ct_pass sec name)) [(sec, False)]" "shape (add_check (ct_fail sec name)) [(sec, False)]"
  "shape (add_check (bonusFail sec name)) [(sec, True)]"
  using shape_verdict [of sec name True] shape_verdict [of sec name False] shape_bonus [of sec name False]
  by (simp_all add: verdict_of_def bonus_of_def)

lemma shape_tokens_set [shapes]: "shape (State_Monad.update (\<lambda>r. r\<lparr>rnBuyerToken := b, rnSellerToken := s\<rparr>)) []"
  by (simp add: shape_def State_Monad.update_def)

lemma shape_bind:
  assumes "shape m xs" and "\<And>x. shape (f x) ys"
  shows "shape (State_Monad.bind m f) (xs @ ys)"
  unfolding shape_def
proof
  fix r
  obtain x r1 where 1: "run_state m r = (x, r1)" by fastforce
  obtain cs where cs: "rnCfg r1 = rnCfg r" "rnResults r1 = rnResults r @ cs" "map kind_of cs = xs"
    using assms(1) 1 by (auto simp: shape_def Let_def dest: spec [of _ r])
  obtain ds where ds: "rnCfg (snd (run_state (f x) r1)) = rnCfg r1" "rnResults (snd (run_state (f x) r1)) = rnResults r1 @ ds"
    "map kind_of ds = ys"
    using assms(2) [of x] by (auto simp: shape_def Let_def dest: spec [of _ r1])
  show "let r' = snd (run_state (State_Monad.bind m f) r)
        in rnCfg r' = rnCfg r \<and> (\<exists>cs. rnResults r' = rnResults r @ cs \<and> map kind_of cs = xs @ ys)"
    using 1 cs ds by (auto simp: Let_def)
qed

lemma shape_eq: "shape m xs \<Longrightarrow> xs = ys \<Longrightarrow> shape m ys"
  by simp

lemma shape_prod: "(\<And>a b. shape (f a b) ks) \<Longrightarrow> shape (case x of (a, b) \<Rightarrow> f a b) ks"
  by (cases x) simp

lemma shape_sum:
  "(\<And>a. shape (f a) ks) \<Longrightarrow> (\<And>b. shape (g b) ks') \<Longrightarrow> ks' = ks \<Longrightarrow> shape (case x of Inl a \<Rightarrow> f a | Inr b \<Rightarrow> g b) ks"
  by (cases x) simp_all

lemma shape_if: "shape m ks \<Longrightarrow> shape n ks' \<Longrightarrow> ks' = ks \<Longrightarrow> shape (if b then m else n) ks"
  by simp

lemma shape_let: "shape (f x) ks \<Longrightarrow> shape (Let x f) ks"
  by simp

lemmas shape_rules = shape_bind shape_prod shape_sum shape_if shape_let

lemma shape_doJSON [shapes]: "shape (doJSON pr meth path token body) []"
  unfolding doJSON_def by (rule shapes)

lemma shape_register [shapes]: "shape (ct_register pr u p) []"
  unfolding ct_register_def by (rule shape_eq, (rule shapes shape_rules | (simp; fail))+)

lemma shape_placeOrder [shapes]: "shape (ct_placeOrder pr token stock side price qty) []"
  unfolding ct_placeOrder_def by (rule shape_eq, (rule shapes shape_rules | (simp; fail))+)

lemma shape_getOrder [shapes]: "shape (ct_getOrder pr token ident) []"
  unfolding ct_getOrder_def by (rule shape_eq, (rule shapes shape_rules | (simp; fail))+)

lemma shape_status_ok [shapes]: "shape (status_ok pr path token) []"
  unfolding status_ok_def by (rule shape_eq, (rule shapes shape_rules | (simp; fail))+)

lemma shape_sleep [shapes]: "shape (sleep pr d) []"
  unfolding sleep_def by (rule shapes)

lemma shape_ws [shapes]:
  "shape (dialWS pr ip) []" "shape (subscribeWS pr conn ch stock) []" "shape (closeWS pr conn) []"
  "shape (readUntil pr conn timeout good) []"
  unfolding dialWS_def subscribeWS_def closeWS_def readUntil_def by (rule shapes)+

lemma shape_poll [shapes]: "shape (poll_order pr token ident good n) []"
proof (induction n)
  case (Suc n)
  then show ?case by simp (rule shape_eq, (rule shapes shape_rules Suc | (simp; fail))+)
qed (simp add: shapes)

lemma shape_race_users [shapes]: "shape (race_users pr ts js) []"
proof (induction js)
  case (Cons j js)
  then show ?case by simp (rule shape_eq, (rule shapes shape_rules Cons | (simp; fail))+)
qed (simp add: shapes)

lemma shape_race_matched [shapes]: "shape (race_matched pr users ids js n) []"
proof (induction js arbitrary: n)
  case (Cons j js)
  show ?case
  proof (cases "ids j = []")
    case False
    then show ?thesis by simp (rule shape_eq, (rule shapes shape_rules Cons | (simp; fail))+)
  qed (simp add: Cons)
qed (simp add: shapes)

text \<open>The goroutines of the race touch the world only.\<close>

lemma placeOrder_frame:
  "run_state (ct_placeOrder pr token stock side price qty) r = (x, r') \<Longrightarrow> rnCfg r' = rnCfg r \<and> rnResults r' = rnResults r"
  using shape_placeOrder [of pr token stock side price qty] by (auto simp: shape_def Let_def dest: spec [of _ r])

lemma race_step_frame:
  "rnCfg (raRunner (snd (race_step pr users i g s))) = rnCfg (raRunner s) \<and>
   rnResults (raRunner (snd (race_step pr users i g s))) = rnResults (raRunner s)"
  by (cases g) (auto simp: race_step_def Let_def split: prod.split dest: placeOrder_frame)

lemma shape_race_run [shapes]: "shape (race_run pr users sched) []"
proof -
  have "rnCfg (raRunner (snd (schedule (race_step pr users) js (gs, s)))) = rnCfg (raRunner s) \<and>
      rnResults (raRunner (snd (schedule (race_step pr users) js (gs, s)))) = rnResults (raRunner s)" for js gs s
    by (rule schedule_inv [where P = "\<lambda>x. rnCfg (raRunner (snd x)) = rnCfg (raRunner s) \<and> rnResults (raRunner (snd x)) = rnResults (raRunner s)"])
      (simp_all add: race_step_frame)
  then show ?thesis by (simp add: shape_def race_run_def Let_def)
qed

lemma shape_checks [shapes]: "shape (add_checks (map (skipped sec before after) js)) (replicate (length js) (sec, False))"
proof (induction js)
  case (Cons j js)
  have "shape (add_check (skipped sec before after j)) [(sec, False)]" unfolding skipped_def by (rule shapes)
  then show ?case by simp (rule shape_eq, (rule shape_bind Cons | assumption)+, simp)
qed (simp add: shapes)

lemma shape_setup: "shape (runSetup pr) (replicate 2 (''SETUP'', False))"
  unfolding runSetup_def by (rule shape_eq, (rule shapes shape_rules | (simp add: numeral_2_eq_2; fail))+)

lemma shape_REST: "shape (runREST pr) (replicate 8 (''REST API'', False) @ [(''REST API'', True)])"
  unfolding runREST_def by (rule shape_eq, (rule shapes shape_rules | (simp add: numeral_eq_Suc; fail))+)

lemma shape_matching_parts [shapes]:
  "shape (trade_check pr b s) [(''MATCHING ENGINE'', False)]" "shape (filled_check pr token ident side) [(''MATCHING ENGINE'', False)]"
  "shape (orderbook_check pr) [(''MATCHING ENGINE'', False)]" "shape (race_check pr sched) [(''MATCHING ENGINE'', False)]"
  "shape (partial_check pr) [(''MATCHING ENGINE'', True)]"
  unfolding trade_check_def filled_check_def orderbook_check_def race_check_def partial_check_def
  by (rule shape_eq, (rule shapes shape_rules | (simp; fail))+)+

lemma shape_ws_parts [shapes]:
  "shape (subscribe_ack pr conn ch) []" "shape (place_pair pr) []"
  unfolding subscribe_ack_def place_pair_def by (rule shape_eq, (rule shapes shape_rules | (simp; fail))+)+

lemma shape_ws_checks [shapes]:
  "shape (broadcast_check pr sched) [(''WEBSOCKET'', False)]" "shape (nonblocking_check pr) [(''WEBSOCKET'', False)]"
  "shape (single_connection_checks pr conn)
     [(''WEBSOCKET'', False), (''WEBSOCKET'', False), (''WEBSOCKET'', False), (''WEBSOCKET'', True), (''WEBSOCKET'', False),
      (''WEBSOCKET'', False)]"
  unfolding broadcast_check_def nonblocking_check_def single_connection_checks_def
  by (rule shape_eq, (rule shapes shape_rules | (simp add: numeral_eq_Suc; fail))+)+

lemma shape_scale: "shape (runScale pr sched orders) [(''SCALE'', False), (''SCALE'', True)]"
  unfolding runScale_def by (rule shape_eq, (rule shapes shape_rules | (simp; fail))+)

section \<open>Complete runs\<close>

text \<open>
  A computation is thorough when it appends the checks of a given shape or a required check that has
  failed, all of them in known sections.
\<close>

definition failed :: "checkResult \<Rightarrow> bool" where
  "failed c \<longleftrightarrow> \<not> ckBonus c \<and> \<not> ckPass c"

definition thorough :: "('w, 'a) act \<Rightarrow> (string \<times> bool) list \<Rightarrow> bool" where
  "thorough m ks \<longleftrightarrow>
     (\<forall>r. \<exists>cs. rnResults (snd (run_state m r)) = rnResults r @ cs \<and> ckSection ` set cs \<subseteq> set sectionOrder \<and>
        (map kind_of cs = ks \<or> (\<exists>c\<in>set cs. failed c)))"

lemma shape_results:
  assumes "shape m ks"
  obtains cs where "rnResults (snd (run_state m r)) = rnResults r @ cs" and "map kind_of cs = ks"
  using assms by (auto simp: shape_def Let_def dest: spec [of _ r])

lemma kinds_sections: "map kind_of cs = ks \<Longrightarrow> ckSection ` set cs = fst ` set ks"
  by (auto simp: kind_of_def image_image)

lemma thorough_shape: "shape m ks \<Longrightarrow> fst ` set ks \<subseteq> set sectionOrder \<Longrightarrow> thorough m ks"
  unfolding thorough_def by (metis shape_results kinds_sections)

lemma thorough_failed:
  fixes m :: "('w, 'a) act"
  assumes "shape m ks'" and "sec \<in> set sectionOrder" and "fst ` set ks' \<subseteq> set sectionOrder"
  shows "thorough (State_Monad.bind (add_check (ct_fail sec name)) (\<lambda>_. m)) ks"
  unfolding thorough_def
proof
  fix r :: "'w runner"
  let ?r = "r\<lparr>rnResults := rnResults r @ [ct_fail sec name]\<rparr>"
  obtain cs where cs: "rnResults (snd (run_state m ?r)) = rnResults ?r @ cs" "map kind_of cs = ks'"
    using shape_results [OF assms(1), of ?r] by blast
  then show "\<exists>cs. rnResults (snd (run_state (State_Monad.bind (add_check (ct_fail sec name)) (\<lambda>_. m)) r)) = rnResults r @ cs \<and>
      ckSection ` set cs \<subseteq> set sectionOrder \<and> (map kind_of cs = ks \<or> (\<exists>c\<in>set cs. failed c))"
    using kinds_sections [OF cs(2)] assms(2,3)
    by (intro exI [of _ "ct_fail sec name # cs"]) (auto simp: add_check_def State_Monad.update_def failed_def ct_fail_def)
qed

lemma thorough_bind:
  assumes "thorough m xs" and "\<And>x. thorough (f x) ys"
  shows "thorough (State_Monad.bind m f) (xs @ ys)"
  unfolding thorough_def
proof
  fix r
  obtain x r1 where 1: "run_state m r = (x, r1)" by fastforce
  obtain cs where cs: "rnResults r1 = rnResults r @ cs" "ckSection ` set cs \<subseteq> set sectionOrder"
    "map kind_of cs = xs \<or> (\<exists>c\<in>set cs. failed c)"
    using assms(1) 1 unfolding thorough_def by (metis snd_conv)
  obtain ds where ds: "rnResults (snd (run_state (f x) r1)) = rnResults r1 @ ds" "ckSection ` set ds \<subseteq> set sectionOrder"
    "map kind_of ds = ys \<or> (\<exists>c\<in>set ds. failed c)"
    using assms(2) [of x] unfolding thorough_def by metis
  show "\<exists>cs. rnResults (snd (run_state (State_Monad.bind m f) r)) = rnResults r @ cs \<and>
      ckSection ` set cs \<subseteq> set sectionOrder \<and> (map kind_of cs = xs @ ys \<or> (\<exists>c\<in>set cs. failed c))"
    using 1 cs ds by (intro exI [of _ "cs @ ds"]) auto
qed

lemma thorough_if: "thorough m ks \<Longrightarrow> thorough n ks \<Longrightarrow> thorough (if b then m else n) ks"
  by simp

lemma thorough_sum:
  "(\<And>a. thorough (f a) ks) \<Longrightarrow> (\<And>b. thorough (g b) ks) \<Longrightarrow> thorough (case x of Inl a \<Rightarrow> f a | Inr b \<Rightarrow> g b) ks"
  by (cases x) simp_all

lemma thorough_silent: "shape m [] \<Longrightarrow> (\<And>x. thorough (f x) ks) \<Longrightarrow> thorough (State_Monad.bind m f) ks"
  using thorough_bind [OF thorough_shape, of m "[]" f ks] by simp

lemma thorough_prod: "(\<And>a b. thorough (f a b) ks) \<Longrightarrow> thorough (case x of (a, b) \<Rightarrow> f a b) ks"
  by (cases x) simp

definition matching_kinds :: "(string \<times> bool) list" where
  "matching_kinds = replicate 7 (''MATCHING ENGINE'', False) @ [(''MATCHING ENGINE'', True)]"

definition websocket_kinds :: "(string \<times> bool) list" where
  "websocket_kinds = replicate 3 (''WEBSOCKET'', False) @ [(''WEBSOCKET'', True)] @ replicate 4 (''WEBSOCKET'', False)"

lemma thorough_matching: "thorough (runMatching pr sched) matching_kinds"
  unfolding runMatching_def
  apply (rule thorough_silent, rule shapes, rule thorough_prod, rule thorough_silent, rule shapes, rule thorough_if)
   apply (rule thorough_failed, rule shapes; simp add: sectionOrder_def)
  apply (rule thorough_shape, rule shape_eq, (rule shapes shape_rules | (simp add: matching_kinds_def numeral_eq_Suc; fail))+)
  apply (simp add: matching_kinds_def sectionOrder_def numeral_eq_Suc)
  done

lemma thorough_websocket: "thorough (runWebSocket pr sched) websocket_kinds"
  unfolding runWebSocket_def
  apply (rule thorough_silent, rule shapes, rule thorough_sum)
   apply (rule thorough_failed, rule shapes; simp add: sectionOrder_def)
  apply (rule thorough_shape, rule shape_eq, (rule shapes shape_rules | (simp add: websocket_kinds_def numeral_eq_Suc; fail))+)
  apply (simp add: websocket_kinds_def sectionOrder_def numeral_eq_Suc)
  done

text \<open>The checks of a complete run.\<close>

definition expected_kinds :: "bool \<Rightarrow> (string \<times> bool) list" where
  "expected_kinds skipScale =
     replicate 2 (''SETUP'', False) @ replicate 8 (''REST API'', False) @ [(''REST API'', True)] @ matching_kinds @ websocket_kinds @
     (if skipScale then [] else [(''SCALE'', False), (''SCALE'', True)])"

lemma thorough_remaining:
  "thorough (remaining_checks pr cfg ch) (drop 2 (expected_kinds (ccSkipScale cfg)))"
proof -
  have R: "thorough (runREST pr) (replicate 8 (''REST API'', False) @ [(''REST API'', True)])"
    by (rule thorough_shape [OF shape_REST]) (simp add: sectionOrder_def)
  have S: "thorough (if ccSkipScale cfg then State_Monad.return () else runScale pr (chDials ch) (chOrders ch))
      (if ccSkipScale cfg then [] else [(''SCALE'', False), (''SCALE'', True)])"
    by (simp, intro conjI impI thorough_shape [OF shape_return] thorough_shape [OF shape_scale]) (simp_all add: sectionOrder_def)
  have "drop 2 (expected_kinds (ccSkipScale cfg)) = (replicate 8 (''REST API'', False) @ [(''REST API'', True)]) @
      (matching_kinds @ (websocket_kinds @ (if ccSkipScale cfg then [] else [(''SCALE'', False), (''SCALE'', True)])))"
    by (simp add: expected_kinds_def numeral_2_eq_2)
  then show ?thesis unfolding remaining_checks_def
    by (simp only:) (intro thorough_bind R thorough_matching thorough_websocket S)
qed

section \<open>The verdict\<close>

lemma count_checks:
  "scTotalRequired (foldl count_check sc cs) = scTotalRequired sc + int (length (filter (\<lambda>c. \<not> ckBonus c) cs)) \<and>
   scPassRequired (foldl count_check sc cs) = scPassRequired sc + int (length (filter (\<lambda>c. \<not> ckBonus c \<and> ckPass c) cs))"
  by (induction cs arbitrary: sc) (simp_all add: count_check_def Let_def)

lemma required_split:
  "length (filter (\<lambda>c. \<not> ckBonus c) cs) = length (filter (\<lambda>c. \<not> ckBonus c \<and> ckPass c) cs) + length (filter failed cs)"
  by (induction cs) (auto simp: failed_def)

lemma count_sections:
  "scTotalRequired (foldl (\<lambda>sc name. foldl count_check sc (filter (\<lambda>c. ckSection c = name) cs)) sc names) -
     scPassRequired (foldl (\<lambda>sc name. foldl count_check sc (filter (\<lambda>c. ckSection c = name) cs)) sc names) =
   scTotalRequired sc - scPassRequired sc + int (\<Sum>name\<leftarrow>names. length (filter failed (filter (\<lambda>c. ckSection c = name) cs)))"
proof (induction names arbitrary: sc)
  case (Cons name names)
  let ?cs = "filter (\<lambda>c. ckSection c = name) cs"
  show ?case
    using Cons.IH [of "foldl count_check sc ?cs"] count_checks [of sc ?cs] required_split [of ?cs]
    by (simp del: filter_filter)
qed simp

text \<open>The verdict is positive exactly when no required check of a known section has failed.\<close>

lemma compliant_iff:
  assumes "ckSection ` set cs \<subseteq> set sectionOrder"
  shows "compliant (printScorecard cs) \<longleftrightarrow> (\<forall>c\<in>set cs. \<not> failed c)"
proof -
  have "compliant (printScorecard cs) \<longleftrightarrow> (\<Sum>name\<leftarrow>sectionOrder. length (filter failed (filter (\<lambda>c. ckSection c = name) cs))) = 0"
    using count_sections [of cs "\<lparr>scTotalRequired = 0, scPassRequired = 0, scTotalBonus = 0, scPassBonus = 0\<rparr>" sectionOrder]
    unfolding compliant_def printScorecard_def scorecard.simps by linarith
  also have "\<dots> \<longleftrightarrow> (\<forall>name\<in>set sectionOrder. \<forall>c\<in>set cs. ckSection c = name \<longrightarrow> \<not> failed c)"
    by (auto simp: filter_empty_conv)
  finally show ?thesis using assms by auto
qed

text \<open>After the set-up, a check has failed or both tokens are there.\<close>

lemma register_token: "run_state (ct_register pr u p) r = (Inr token, r') \<Longrightarrow> token \<noteq> []"
  by (auto simp: ct_register_def Let_def split: prod.splits option.splits if_splits)

lemma setup_outcome:
  assumes "r' = snd (run_state (runSetup pr) r)"
  shows "(\<exists>c\<in>set (rnResults r'). ckSection c = ''SETUP'' \<and> failed c) \<or> rnBuyerToken r' \<noteq> [] \<and> rnSellerToken r' \<noteq> []"
  using assms
  by (auto simp: runSetup_def add_check_def State_Monad.update_def failed_def ct_fail_def
      split: prod.splits sum.splits dest: register_token)

text \<open>A run is positive exactly when it is complete and no required check has failed.\<close>

lemma required_pass: "\<not> failed c \<longleftrightarrow> ckBonus c \<or> ckPass c"
  by (auto simp: failed_def)

lemma verdict_complete:
  fixes pr :: "'w peer" and cfg ch w
  defines "out \<equiv> ct_main pr cfg ch w"
  shows "compliant (fst out) \<longleftrightarrow>
    map kind_of (rnResults (snd out)) = expected_kinds (ccSkipScale cfg) \<and> (\<forall>c\<in>set (rnResults (snd out)). \<not> failed c)"
proof -
  define r where "r = snd (run_state (runSetup pr) (newRunner cfg w))"
  obtain cs where cs: "rnResults r = cs" "map kind_of cs = replicate 2 (''SETUP'', False)"
    using shape_results [OF shape_setup, of pr "newRunner cfg w"] by (auto simp: r_def newRunner_def)
  have known: "ckSection ` set cs \<subseteq> set sectionOrder" using kinds_sections [OF cs(2)] by (simp add: sectionOrder_def)
  show ?thesis
  proof (cases "setup_failed r")
    case True
    then have out: "out = (printScorecard cs, r)" by (simp add: out_def ct_main_def Let_def r_def [symmetric] cs(1))
    have no_bonus: "\<not> ckBonus c" if "c \<in> set cs" for c
    proof -
      have "kind_of c \<in> set (map kind_of cs)" using that by simp
      then show ?thesis unfolding cs(2) by (simp add: kind_of_def)
    qed
    have "\<exists>c\<in>set cs. failed c"
      using True setup_outcome [OF r_def] no_bonus by (auto simp: setup_failed_def list_ex_iff failed_def cs(1))
    then show ?thesis using compliant_iff [OF known] by (auto simp: out cs(1))
  next
    case False
    define r' where "r' = snd (run_state (remaining_checks pr cfg ch) r)"
    have out: "out = (printScorecard (rnResults r'), r')" using False by (simp add: out_def ct_main_def Let_def r_def [symmetric] r'_def)
    obtain ds where ds: "rnResults r' = cs @ ds" "ckSection ` set ds \<subseteq> set sectionOrder"
      "map kind_of ds = drop 2 (expected_kinds (ccSkipScale cfg)) \<or> (\<exists>c\<in>set ds. failed c)"
      using thorough_remaining [of pr cfg ch] unfolding thorough_def r'_def cs(1) [symmetric] by metis
    have "compliant (fst out) \<longleftrightarrow> (\<forall>c\<in>set (cs @ ds). \<not> failed c)"
      using compliant_iff [of "cs @ ds"] known ds(2) by (simp add: out ds(1) image_Un)
    moreover have "replicate 2 (''SETUP'', False) @ drop 2 (expected_kinds (ccSkipScale cfg)) = expected_kinds (ccSkipScale cfg)"
      by (simp add: expected_kinds_def numeral_2_eq_2)
    ultimately show ?thesis using ds(3) cs(2) by (auto simp: out ds(1))
  qed
qed

text \<open>The check for the trade of the two orders passes with any trade at all.\<close>

lemma trade_found_iff: "trade_found buyID sellID data \<longleftrightarrow> data \<noteq> []"
  by (auto simp: trade_found_def Let_def list_ex_iff)

end
