(* ===== verification/Loadtest_Tool.thy ===== *)
theory Loadtest_Tool
  imports Tool_Client
begin

text \<open>
  The load generator src/cmd/loadtest: one registered user places random orders at a fixed rate, in
  growing bursts, or as fast as a number of workers can. Random numbers and the order in which
  requests finish are arguments; what is printed is kept as the numbers and the verdict.
\<close>

section \<open>Requests\<close>

record lt_config =
  ltBaseURL :: string
  ltRate :: int64
  ltDuration :: duration
  ltWorkers :: int64
  ltBurst :: bool
  ltFlood :: bool

record lt_result =
  lrLatency :: duration
  lrStatus :: int64
  lrErr :: "string option"

record lt_orderReq =
  loStockCode :: string
  loSide :: string
  loPrice :: float64
  loQuantity :: int64

definition json_of_registerReq :: "string \<Rightarrow> string \<Rightarrow> json" where
  "json_of_registerReq username password = JObject [(''username'', JString username), (''password'', JString password)]"

text \<open>\<open>registerResp\<close>: the flag and the token.\<close>

definition decode_registerResp :: "json \<Rightarrow> (bool \<times> string) option" where
  "decode_registerResp v =
     do { m \<leftarrow> document v;
          success \<leftarrow> field_bool m ''success'';
          data \<leftarrow> field_object m ''data'';
          token \<leftarrow> field_string data ''token'';
          Some (success, token) }"

definition lt_registerUser :: "'w peer \<Rightarrow> string \<Rightarrow> string \<Rightarrow> 'w \<Rightarrow> (string + string) \<times> 'w" where
  "lt_registerUser pr username password w =
     (let (r, w) = prDo pr \<lparr>hcMethod = ''POST'', hcPath = ''/api/v1/auth/register'', hcToken = [],
                            hcBody = Some (json_of_registerReq username password)\<rparr> w
      in (case r of
            Inl err \<Rightarrow> Inl err
          | Inr (status, raw) \<Rightarrow>
              (case raw \<bind> decode_registerResp of
                 None \<Rightarrow> Inl ''parse register response''
               | Some (success, token) \<Rightarrow>
                   if \<not> success \<or> token = [] then Inl ''register failed'' else Inr token), w))"

definition json_of_orderReq :: "lt_orderReq \<Rightarrow> json" where
  "json_of_orderReq q =
     JObject [(''stock_code'', JString (loStockCode q)), (''side'', JString (loSide q)), (''price'', JNumber (loPrice q)),
       (''quantity'', json_of_int (loQuantity q))]"

definition lt_placeOrder :: "'w peer \<Rightarrow> string \<Rightarrow> lt_orderReq \<Rightarrow> 'w \<Rightarrow> lt_result \<times> 'w" where
  "lt_placeOrder pr token req w =
     (let ((r, latency), w) = timed_call pr \<lparr>hcMethod = ''POST'', hcPath = ''/api/v1/orders'', hcToken = token,
                                            hcBody = Some (json_of_orderReq req)\<rparr> w
      in (case r of
            Inl err \<Rightarrow> \<lparr>lrLatency = latency, lrStatus = 0, lrErr = Some err\<rparr>
          | Inr (status, _) \<Rightarrow> \<lparr>lrLatency = latency, lrStatus = status, lrErr = None\<rparr>, w))"

section \<open>Statistics\<close>

record lt_stats =
  ltTotal :: int64
  ltSuccess :: int64
  ltErrors :: int64
  ltClientErrors :: int64
  ltLatencies :: "duration list"
  ltStatusCounts :: "int64 \<Rightarrow> int64"
  ltStartTime :: time
  ltFinishTime :: time

definition newStats :: lt_stats where
  "newStats = \<lparr>ltTotal = 0, ltSuccess = 0, ltErrors = 0, ltClientErrors = 0, ltLatencies = [], ltStatusCounts = (\<lambda>_. 0),
               ltStartTime = 0, ltFinishTime = 0\<rparr>"

definition stats_add :: "lt_stats \<Rightarrow> lt_result \<Rightarrow> lt_stats" where
  "stats_add s r =
     (let s = s\<lparr>ltTotal := add64 (ltTotal s) 1\<rparr>;
          s = (if lrErr r \<noteq> None \<or> lrStatus r \<ge> 500 then s\<lparr>ltErrors := add64 (ltErrors s) 1\<rparr>
               else if lrStatus r \<ge> 200 \<and> lrStatus r < 300 then s\<lparr>ltSuccess := add64 (ltSuccess s) 1\<rparr>
               else if lrStatus r \<ge> 400 \<and> lrStatus r < 500 then s\<lparr>ltClientErrors := add64 (ltClientErrors s) 1\<rparr>
               else s)
      in s\<lparr>ltLatencies := ltLatencies s @ [lrLatency r],
           ltStatusCounts := (ltStatusCounts s)(lrStatus r := add64 (ltStatusCounts s (lrStatus r)) 1)\<rparr>)"

definition stats_percentile :: "lt_stats \<Rightarrow> float64 \<Rightarrow> duration" where
  "stats_percentile s p = percentile (ltLatencies s) p"

text \<open>\<open>Duration.Seconds\<close> and \<open>Duration.Minutes\<close>, for durations that are not negative.\<close>

definition Seconds :: "duration \<Rightarrow> float64" where
  "Seconds d = fadd (float_of_int64 (d div 10 ^ 9)) (fdiv (float_of_int64 (d mod 10 ^ 9)) (10 ^ 9))"

definition Minutes :: "duration \<Rightarrow> float64" where
  "Minutes d = fadd (float_of_int64 (d div (60 * 10 ^ 9))) (fdiv (float_of_int64 (d mod (60 * 10 ^ 9))) (60 * 10 ^ 9))"

text \<open>The figures \<open>print\<close> shows; the error rate, a quotient by the total, only when there was a request.\<close>

record lt_report =
  lpTotal :: int64
  lpSuccess :: int64
  lpClientErr :: int64
  lpErrors :: int64
  lpErrorRate :: "float64 option"
  lpRps :: float64
  lpRpm :: float64
  lpP50 :: duration
  lpP95 :: duration
  lpP99 :: duration
  lpCodes :: "int64 \<Rightarrow> int64"

definition stats_print :: "lt_stats \<Rightarrow> lt_report" where
  "stats_print s =
     (let elapsed = ltFinishTime s - ltStartTime s;
          rps = fdiv (float_of_int64 (ltTotal s)) (Seconds elapsed)
      in \<lparr>lpTotal = ltTotal s, lpSuccess = ltSuccess s, lpClientErr = ltClientErrors s, lpErrors = ltErrors s,
          lpErrorRate = (if ltTotal s = 0 then None
                         else Some (share (ltErrors s) (ltTotal s))),
          lpRps = rps, lpRpm = fmul rps 60, lpP50 = stats_percentile s 50, lpP95 = stats_percentile s 95,
          lpP99 = stats_percentile s 99, lpCodes = ltStatusCounts s\<rparr>)"

section \<open>Random orders\<close>

definition lt_stocks :: "string list" where
  "lt_stocks = [''BBCA'', ''BBRI'', ''TLKM'', ''ASII'', ''GOTO'']"

definition lt_prices :: "string \<Rightarrow> float64" where
  "lt_prices s =
     (if s = ''BBCA'' then 9500 else if s = ''BBRI'' then 5000 else if s = ''TLKM'' then 3500
      else if s = ''ASII'' then 6000 else if s = ''GOTO'' then 100 else 0)"

text \<open>
  The arguments are what \<open>rand.Intn(len(stocks))\<close>, \<open>rand.Intn(2)\<close>, \<open>rand.Float64()\<close> and
  \<open>rand.Intn(10)\<close> return.
\<close>

definition lt_randomOrder :: "nat \<Rightarrow> nat \<Rightarrow> float64 \<Rightarrow> nat \<Rightarrow> lt_orderReq" where
  "lt_randomOrder k coin u q =
     (let stock = lt_stocks ! k;
          side = (if coin = 1 then ''SELL'' else ''BUY'');
          basePrice = lt_prices stock;
          variation = fmul (fmul basePrice (round53 (2 / 100))) (fsub (fmul u 2) 1);
          price = fmul (Round (fdiv (fadd basePrice variation) 25)) 25;
          price = (if price \<le> 0 then basePrice else price);
          qty = (int q + 1) * 100
      in \<lparr>loStockCode = stock, loSide = side, loPrice = price, loQuantity = qty\<rparr>)"

section \<open>Runs\<close>

text \<open>
  \<open>runFixedRate\<close> as the events of its goroutines: the launcher receives a tick, then waits for a
  slot of the semaphore and launches a request; a request finishes and is counted; the deadline is
  seen by the launcher only when it is not waiting for a slot. The run returns when the deadline has
  been seen and no request is left.
\<close>

datatype lt_event = Ticked | Launched | Answered lt_result | TimeUp

record lt_pool =
  lqWaiting :: bool
  lqRunning :: nat
  lqSent :: nat
  lqDone :: bool
  lqStats :: lt_stats
  lqCounted :: nat

definition fixedRate_start :: lt_pool where
  "fixedRate_start = \<lparr>lqWaiting = False, lqRunning = 0, lqSent = 0, lqDone = False, lqStats = newStats, lqCounted = 0\<rparr>"

definition fixedRate_step :: "nat \<Rightarrow> lt_pool \<Rightarrow> lt_event \<Rightarrow> lt_pool option" where
  "fixedRate_step workers s e =
     (case e of
        Ticked \<Rightarrow> if lqWaiting s \<or> lqDone s then None else Some (s\<lparr>lqWaiting := True\<rparr>)
      | Launched \<Rightarrow>
          if lqWaiting s \<and> lqRunning s < workers
          then Some (s\<lparr>lqWaiting := False, lqRunning := Suc (lqRunning s), lqSent := Suc (lqSent s)\<rparr>) else None
      | Answered r \<Rightarrow>
          if lqRunning s = 0 then None
          else Some (s\<lparr>lqRunning := lqRunning s - 1, lqStats := stats_add (lqStats s) r, lqCounted := Suc (lqCounted s)\<rparr>)
      | TimeUp \<Rightarrow> if lqWaiting s \<or> lqDone s then None else Some (s\<lparr>lqDone := True\<rparr>))"

definition fixedRate_returned :: "lt_pool \<Rightarrow> bool" where
  "fixedRate_returned s \<longleftrightarrow> lqDone s \<and> lqRunning s = 0"

text \<open>
  \<open>runBurst\<close>: the phases one after the other, each launching its number of requests under the same
  semaphore. The state holds how many requests the current and the following phases have still to
  launch.
\<close>

definition burst_phases :: "nat list" where "burst_phases = [200, 400, 800, 1600, 3200]"

record lt_burst =
  lbLeft :: "nat list"
  lbRunning :: nat
  lbLaunched :: nat
  lbStats :: lt_stats
  lbCounted :: nat

definition burst_start :: lt_burst where
  "burst_start = \<lparr>lbLeft = burst_phases, lbRunning = 0, lbLaunched = 0, lbStats = newStats, lbCounted = 0\<rparr>"

datatype burst_event = BurstLaunch | BurstAnswer lt_result | PhaseOver

definition burst_step :: "nat \<Rightarrow> lt_burst \<Rightarrow> burst_event \<Rightarrow> lt_burst option" where
  "burst_step workers s e =
     (case e of
        BurstLaunch \<Rightarrow>
          (case lbLeft s of
             Suc n # ps \<Rightarrow>
               if lbRunning s < workers
               then Some (s\<lparr>lbLeft := n # ps, lbRunning := Suc (lbRunning s), lbLaunched := Suc (lbLaunched s)\<rparr>) else None
           | _ \<Rightarrow> None)
      | BurstAnswer r \<Rightarrow>
          if lbRunning s = 0 then None
          else Some (s\<lparr>lbRunning := lbRunning s - 1, lbStats := stats_add (lbStats s) r, lbCounted := Suc (lbCounted s)\<rparr>)
      | PhaseOver \<Rightarrow> (case lbLeft s of 0 # ps \<Rightarrow> Some (s\<lparr>lbLeft := ps\<rparr>) | _ \<Rightarrow> None))"

definition burst_returned :: "lt_burst \<Rightarrow> bool" where
  "burst_returned s \<longleftrightarrow> lbLeft s = [] \<and> lbRunning s = 0"

text \<open>
  \<open>runFlood\<close>: each worker places an order and counts it, again and again; the list gives the random
  choices of the requests in the order in which they were made.
\<close>

primrec runFlood :: "'w peer \<Rightarrow> string \<Rightarrow> (nat \<times> nat \<times> float64 \<times> nat) list \<Rightarrow> 'w \<times> lt_stats \<Rightarrow> 'w \<times> lt_stats" where
  "runFlood pr token [] x = x"
| "runFlood pr token (c # cs) x =
     (let (k, coin, u, q) = c;
          (r, w) = lt_placeOrder pr token (lt_randomOrder k coin u q) (fst x)
      in runFlood pr token cs (w, stats_add (snd x) r))"

section \<open>The verdict\<close>

text \<open>Without a request the error rate is not a number, which is not below one.\<close>

definition lt_verdict :: "lt_config \<Rightarrow> lt_stats \<Rightarrow> bool" where
  "lt_verdict cfg s =
     (let elapsed = ltFinishTime s - ltStartTime s;
          actualRPM = fdiv (float_of_int64 (ltTotal s)) (Minutes elapsed);
          targetRPM = float_of_int64 (ltRate cfg);
          totalErrRate = share (add64 (ltErrors s) (ltClientErrors s)) (ltTotal s)
      in actualRPM \<ge> fmul targetRPM (round53 (95 / 100)) \<and> ltTotal s \<noteq> 0 \<and> totalErrRate < 1)"

section \<open>The program\<close>

text \<open>
  The interval between two orders. \<open>NewTicker\<close> panics unless it is positive; for a rate of zero the
  quotient is infinite, and its conversion is the smallest integer.
\<close>

definition fixedRate_interval :: "int64 \<Rightarrow> duration outcome" where
  "fixedRate_interval rate =
     (let interval = (if rate = 0 then - (2 ^ 63) else int64_of_float (fdiv (float_of_int64 (60 * 10 ^ 9)) (float_of_int64 rate)))
      in if interval \<le> 0 then Panic else Return interval)"

datatype lt_outcome = LtFatal string | LtFlood lt_report | LtBurst lt_report | LtFixed lt_report bool

text \<open>\<open>main\<close>, given the clock, the outcome of the registration and the statistics of each kind of run.\<close>

definition lt_username :: "time \<Rightarrow> string" where
  "lt_username now = ''loadtest_'' @ Itoa now"

definition lt_main :: "lt_config \<Rightarrow> string + string \<Rightarrow> (string \<Rightarrow> lt_stats) \<Rightarrow> (string \<Rightarrow> lt_stats) \<Rightarrow> (string \<Rightarrow> lt_stats) \<Rightarrow> lt_outcome" where
  "lt_main cfg registered flood burst fixed =
     (case registered of
        Inl err \<Rightarrow> LtFatal err
      | Inr token \<Rightarrow>
          if ltFlood cfg then LtFlood (stats_print (flood token))
          else if ltBurst cfg then LtBurst (stats_print (burst token))
          else let s = fixed token in LtFixed (stats_print s) (lt_verdict cfg s))"

section \<open>Every request is counted once\<close>

text \<open>The counters of a list of results; a status below 200 or in the 300s is in none of the classes.\<close>

definition class_of :: "lt_result \<Rightarrow> nat" where
  "class_of r = (if lrErr r \<noteq> None \<or> lrStatus r \<ge> 500 then 3
                 else if lrStatus r \<ge> 200 \<and> lrStatus r < 300 then 1
                 else if lrStatus r \<ge> 400 \<and> lrStatus r < 500 then 2 else 0)"

lemma stats_add_fields:
  "ltTotal (stats_add s r) = add64 (ltTotal s) 1"
  "ltSuccess (stats_add s r) = (if class_of r = 1 then add64 (ltSuccess s) 1 else ltSuccess s)"
  "ltClientErrors (stats_add s r) = (if class_of r = 2 then add64 (ltClientErrors s) 1 else ltClientErrors s)"
  "ltErrors (stats_add s r) = (if class_of r = 3 then add64 (ltErrors s) 1 else ltErrors s)"
  "ltLatencies (stats_add s r) = ltLatencies s @ [lrLatency r]"
  "ltStatusCounts (stats_add s r) = (ltStatusCounts s)(lrStatus r := add64 (ltStatusCounts s (lrStatus r)) 1)"
  by (simp_all add: stats_add_def class_of_def Let_def)

lemma stats_add_list:
  assumes "length rs < 2 ^ 63"
  shows "ltTotal (foldl stats_add newStats rs) = int (length rs)"
    and "ltSuccess (foldl stats_add newStats rs) = int (length (filter (\<lambda>r. class_of r = 1) rs))"
    and "ltClientErrors (foldl stats_add newStats rs) = int (length (filter (\<lambda>r. class_of r = 2) rs))"
    and "ltErrors (foldl stats_add newStats rs) = int (length (filter (\<lambda>r. class_of r = 3) rs))"
    and "ltLatencies (foldl stats_add newStats rs) = map lrLatency rs"
    and "ltStatusCounts (foldl stats_add newStats rs) st = int (length (filter (\<lambda>r. lrStatus r = st) rs))"
  using assms
proof (induction rs rule: rev_induct)
  case Nil
  {
    case 1 then show ?case by (simp add: newStats_def)
  next
    case 2 then show ?case by (simp add: newStats_def)
  next
    case 3 then show ?case by (simp add: newStats_def)
  next
    case 4 then show ?case by (simp add: newStats_def)
  next
    case 5 then show ?case by (simp add: newStats_def)
  next
    case 6 then show ?case by (simp add: newStats_def)
  }
next
  case (snoc r rs)
  have le: "length (filter P rs) < 2 ^ 63 - 1" if "length (rs @ [r]) < 2 ^ 63" for P
    using that le_less_trans [OF length_filter_le [of P rs]] by simp
  have up: "add64 (int n) 1 = int (Suc n)" if "n < 2 ^ 63 - 1" for n
    using that by (simp add: add64_id in64_def)
  {
    case 1
    then show ?case using snoc.IH(1) up [of "length rs"] by (simp add: stats_add_fields)
  next
    case 2
    then show ?case using snoc.IH(2) up [OF le] by (simp add: stats_add_fields)
  next
    case 3
    then show ?case using snoc.IH(3) up [OF le] by (simp add: stats_add_fields)
  next
    case 4
    then show ?case using snoc.IH(4) up [OF le] by (simp add: stats_add_fields)
  next
    case 5
    then show ?case using snoc.IH(5) by (simp add: stats_add_fields)
  next
    case 6
    then show ?case using snoc.IH(6) up [OF le] by (auto simp: stats_add_fields)
  }
qed

interpretation fixed_rate: worker_pool workers "fixedRate_step workers" lqRunning lqSent lqCounted for workers
  by unfold_locales (auto simp: fixedRate_step_def split: lt_event.splits if_splits)

interpretation burst: worker_pool workers "burst_step workers" lbRunning lbLaunched lbCounted for workers
  by unfold_locales (auto simp: burst_step_def split: burst_event.splits if_splits list.splits nat.splits)

text \<open>
  With no worker slots the launcher waits for ever once it has seen a tick: it never notices the
  deadline, and the run does not return.
\<close>

lemma fixedRate_no_workers:
  "fixed_rate.run_events 0 s es = Some s' \<Longrightarrow> lqWaiting s \<Longrightarrow> \<not> lqDone s \<Longrightarrow> lqWaiting s' \<and> \<not> fixedRate_returned s'"
proof (induction es arbitrary: s)
  case (Cons e es)
  then obtain t where t: "fixedRate_step 0 s e = Some t" "fixed_rate.run_events 0 t es = Some s'"
    by (auto split: option.splits)
  have "lqWaiting t" "\<not> lqDone t"
    using t(1) Cons.prems(2,3) by (auto simp: fixedRate_step_def split: lt_event.splits if_splits)
  then show ?case using Cons.IH [OF t(2)] by blast
qed (simp add: fixedRate_returned_def)

text \<open>The statistics of a run are those of the results in the order they came in.\<close>

definition answers :: "lt_event list \<Rightarrow> lt_result list" where
  "answers es = List.map_filter (\<lambda>e. case e of Answered r \<Rightarrow> Some r | _ \<Rightarrow> None) es"

lemma fixedRate_stats:
  "fixed_rate.run_events workers s es = Some s' \<Longrightarrow>
   lqStats s' = foldl stats_add (lqStats s) (answers es) \<and> lqCounted s' = lqCounted s + length (answers es)"
proof (induction es arbitrary: s)
  case (Cons e es)
  then obtain t where t: "fixedRate_step workers s e = Some t" "fixed_rate.run_events workers t es = Some s'"
    by (auto split: option.splits)
  show ?case using Cons.IH [OF t(2)] t(1)
    by (auto simp: fixedRate_step_def answers_def map_filter_simps split: lt_event.splits if_splits)
qed (simp add: answers_def map_filter_simps)

text \<open>The requests still to launch and those launched add up to the size of the phases.\<close>

lemma burst_quota:
  "burst.run_events workers s es = Some s' \<Longrightarrow> sum_list (lbLeft s') + lbLaunched s' = sum_list (lbLeft s) + lbLaunched s"
proof (induction es arbitrary: s)
  case (Cons e es)
  then obtain t where t: "burst_step workers s e = Some t" "burst.run_events workers t es = Some s'"
    by (auto split: option.splits)
  have "sum_list (lbLeft t) + lbLaunched t = sum_list (lbLeft s) + lbLaunched s"
    using t(1) by (auto simp: burst_step_def split: burst_event.splits if_splits list.splits nat.splits)
  then show ?case using Cons.IH [OF t(2)] by simp
qed simp

text \<open>A burst that returns has made 6200 requests and counted all of them.\<close>

lemma burst_counts:
  assumes "burst.run_events workers burst_start es = Some s" and "burst_returned s"
  shows "lbLaunched s = 6200 \<and> lbCounted s = 6200"
proof -
  have "lbLaunched s = 6200"
    using burst_quota [OF assms(1)] assms(2) by (simp add: burst_returned_def burst_start_def burst_phases_def)
  then show ?thesis
    using burst.run_complete [OF assms(1)] assms(2) by (simp add: burst_returned_def burst_start_def)
qed

section \<open>The price of a random order\<close>

lemma Round_int: "0 \<le> x \<Longrightarrow> x \<le> of_int n \<Longrightarrow> \<exists>k. Round x = of_int k \<and> 0 \<le> k \<and> k \<le> n"
  by (cases "x = 0") (auto simp: Round_def floor_le_iff le_floor_iff intro!: exI [of _ "\<lfloor>x + 1 / 2\<rfloor>"])

lemma Round_neg: "x < 0 \<Longrightarrow> Round x \<le> 0"
  by (simp add: Round_def)

lemma fmul_small_ints: "0 \<le> a \<Longrightarrow> 0 \<le> b \<Longrightarrow> a * b < 2 ^ 53 \<Longrightarrow> fmul (of_int a) (of_int b) = of_int (a * b)"
  using float_of_int64_exact [of "a * b"] by (simp add: fmul_def float_of_int64_def)

text \<open>Rounded to a multiple of 25, or the base price: a positive whole number.\<close>

lemma random_price:
  assumes u: "0 \<le> u" "u < 1" and b: "0 < b" "b \<le> 9500"
  defines "v \<equiv> fmul (fmul (of_int b) (round53 (2 / 100))) (fsub (fmul u 2) 1)"
  defines "p \<equiv> fmul (Round (fdiv (fadd (of_int b) v) 25)) 25"
  shows "\<exists>n. (if p \<le> 0 then of_int b else p) = of_int n \<and> 1 \<le> n \<and> n \<le> 25600"
proof -
  have c: "0 \<le> round53 (2 / 100)" "round53 (2 / 100) \<le> 1 / 32"
    using round53_sign [of "2 / 100"] round53_le [of "2 / 100" 1 "- 5"] by (simp_all add: power_int_minus)
  have "0 \<le> fmul u 2" "fmul u 2 \<le> 2"
    using round53_ge_int [of 0 "u * 2"] round53_le_int [of "u * 2" 2] u by (simp_all add: fmul_def)
  then have s: "- 1 \<le> fsub (fmul u 2) 1" "fsub (fmul u 2) 1 \<le> 1"
    using round53_ge_int [of 1 "fmul u 2 - 1"] round53_le_int [of "fmul u 2 - 1" 1] by (simp_all add: fsub_def)
  have b': "0 < (of_int b :: rat)" "(of_int b :: rat) \<le> 9500" using b by simp_all
  have "of_int b * round53 (2 / 100) \<le> 9500 * (1 / 32)" using b' c by (intro mult_mono) simp_all
  then have w: "0 \<le> fmul (of_int b) (round53 (2 / 100))" "fmul (of_int b) (round53 (2 / 100)) \<le> 512"
    using round53_ge_int [of 0 "of_int b * round53 (2 / 100)"] round53_le_int [of "of_int b * round53 (2 / 100)" 512] b' c
    by (simp_all add: fmul_def)
  have "\<bar>fmul (of_int b) (round53 (2 / 100)) * fsub (fmul u 2) 1\<bar> \<le> 512 * 1"
    unfolding abs_mult using w s by (intro mult_mono) simp_all
  then have v: "- 512 \<le> v" "v \<le> 512"
    using round53_ge_int [of 512 "fmul (of_int b) (round53 (2 / 100)) * fsub (fmul u 2) 1"]
      round53_le_int [of "fmul (of_int b) (round53 (2 / 100)) * fsub (fmul u 2) 1" 512]
    by (simp_all add: v_def fmul_def [of "fmul _ _"] abs_le_iff)
  define x where "x = fdiv (fadd (of_int b) v) 25"
  have "fadd (of_int b) v \<le> 16384" using round53_le_int [of "of_int b + v" 16384] v b' by (simp add: fadd_def)
  then have x: "x \<le> 1024" using round53_le_int [of "fadd (of_int b) v / 25" 1024] by (simp add: x_def fdiv_def)
  show ?thesis
  proof (cases "0 \<le> x")
    case True
    then obtain k where k: "Round x = of_int k" "0 \<le> k" "k \<le> 1024" using Round_int [of x 1024] x by auto
    then have "p = of_int (k * 25)" using fmul_small_ints [of k 25] by (simp add: p_def x_def [symmetric])
    then show ?thesis using k b by (cases "k = 0") (auto intro: exI [of _ "k * 25"] exI [of _ b])
  next
    case False
    then have "Round x * 25 \<le> 0" using Round_neg [of x] by simp
    then have "p \<le> 0" using round53_le_int [of "Round x * 25" 0] by (simp add: p_def x_def [symmetric] fmul_def)
    then show ?thesis using b by (auto intro: exI [of _ b])
  qed
qed

lemma lt_stock_in: "k < 5 \<Longrightarrow> lt_stocks ! k \<in> set lt_stocks"
  by (rule nth_mem) (simp add: lt_stocks_def)

lemma lt_prices_base: "k < 5 \<Longrightarrow> \<exists>b. lt_prices (lt_stocks ! k) = of_int b \<and> 0 < b \<and> b \<le> 9500"
proof -
  have "list_all (\<lambda>s. \<exists>b \<in> set [9500, 5000, 3500, 6000, 100 :: int]. lt_prices s = of_int b \<and> 0 < b \<and> b \<le> 9500) lt_stocks"
    by (simp add: lt_stocks_def lt_prices_def)
  moreover assume "k < 5"
  then have "lt_stocks ! k \<in> set lt_stocks" by (rule lt_stock_in)
  ultimately show ?thesis by (fastforce simp: list_all_iff)
qed

text \<open>The server accepts every order the tool makes up.\<close>

lemma lt_randomOrder_acceptable:
  assumes "k < 5" and "0 \<le> u" and "u < 1" and "q < 10"
  shows "acceptable (json_of_orderReq (lt_randomOrder k coin u q))"
proof -
  obtain b where b: "lt_prices (lt_stocks ! k) = of_int b" "0 < b" "b \<le> 9500" using lt_prices_base [OF assms(1)] by blast
  obtain n where n: "loPrice (lt_randomOrder k coin u q) = of_int n" "1 \<le> n" "n \<le> 25600"
    using random_price [OF assms(2,3) b(2,3)] unfolding lt_randomOrder_def Let_def b(1) lt_orderReq.simps by blast
  have "lt_stocks ! k \<in> set lt_stocks" using assms(1) by (rule lt_stock_in)
  then have "IsValidStockCode (lt_stocks ! k)" using tool_stocks_valid by (auto simp: lt_stocks_def list_all_iff)
  then show ?thesis
    unfolding json_of_orderReq_def using n assms(4)
    by (intro acceptable_order [of _ "lt_stocks ! k" "loSide (lt_randomOrder k coin u q)" n "(int q + 1) * 100"])
      (simp_all add: json_of_int_def lt_randomOrder_def Let_def)
qed

end
