(* ===== verification/Matchtest_Tool.thy ===== *)
theory Matchtest_Tool
  imports Loadtest_Tool
begin

text \<open>
  The matching test src/cmd/matchtest: workers submit pairs of a buy and a sell order at the same
  price, and the trades of the server are counted afterwards.
\<close>

section \<open>Configuration and statistics\<close>

record mt_Config =
  mtRate :: int64
  mtDuration :: duration
  mtWorkers :: int64
  mtVerify :: bool
  mtMaxRate :: int64

record mt_Stats =
  mtTotalOrders :: int64
  mtSuccessOrders :: int64
  mtFailedOrders :: int64
  mtLatencies :: "duration list"
  mtStartTime :: time
  mtEndTime :: time

definition AddLatency :: "mt_Stats \<Rightarrow> duration \<Rightarrow> mt_Stats" where
  "AddLatency s d = s\<lparr>mtLatencies := mtLatencies s @ [d]\<rparr>"

definition mt_stocks :: "string list" where
  "mt_stocks = [''BBCA'', ''BBRI'', ''TLKM'', ''ASII'', ''GOTO'']"

definition mt_prices :: "string \<Rightarrow> int64" where
  "mt_prices s =
     (if s = ''BBCA'' then 9500 else if s = ''BBRI'' then 5000 else if s = ''TLKM'' then 3500
      else if s = ''ASII'' then 6000 else if s = ''GOTO'' then 100 else 0)"

section \<open>Requests\<close>

record mt_OrderRequest =
  mrStockCode :: string
  mrSide :: string
  mrPrice :: int64
  mrQuantity :: int64
  mrType :: string

definition json_of_OrderRequest :: "mt_OrderRequest \<Rightarrow> json" where
  "json_of_OrderRequest q =
     JObject [(''stock_code'', JString (mrStockCode q)), (''side'', JString (mrSide q)), (''price'', json_of_int (mrPrice q)),
       (''quantity'', json_of_int (mrQuantity q)), (''type'', JString (mrType q))]"

text \<open>\<open>OrderResponse\<close>: the identifier of the order.\<close>

definition decode_OrderResponse :: "json \<Rightarrow> string option" where
  "decode_OrderResponse v =
     do { m \<leftarrow> document v;
          success \<leftarrow> field_bool m ''success'';
          data \<leftarrow> field_object m ''data'';
          ident \<leftarrow> field_string data ''id'';
          status \<leftarrow> field_string data ''status'';
          Some ident }"

definition mt_submitOrder :: "'w peer \<Rightarrow> mt_OrderRequest \<Rightarrow> 'w \<Rightarrow> ((string + string) \<times> duration) \<times> 'w" where
  "mt_submitOrder pr req w =
     (let ((r, latency), w) = timed_call pr \<lparr>hcMethod = ''POST'', hcPath = ''/api/v1/orders'', hcToken = [],
                                            hcBody = Some (json_of_OrderRequest req)\<rparr> w
      in ((case r of
             Inl err \<Rightarrow> Inl err
           | Inr (status, body) \<Rightarrow>
               if status \<noteq> 200 \<and> status \<noteq> 201 then Inl (''HTTP '' @ Itoa status)
               else case body \<bind> decode_OrderResponse of None \<Rightarrow> Inl ''unmarshal'' | Some ident \<Rightarrow> Inr ident,
           latency), w))"

text \<open>A trade as the tool decodes it; the member \<open>created_at\<close> it also names is not sent by the server.\<close>

record mt_Trade =
  mdID :: string
  mdStockCode :: string
  mdPrice :: int64
  mdQuantity :: int64

definition decode_Trade :: "json \<Rightarrow> mt_Trade option" where
  "decode_Trade v =
     do { m \<leftarrow> document v;
          ident \<leftarrow> field_string m ''id'';
          stock \<leftarrow> field_string m ''stock_code'';
          price \<leftarrow> field_int m ''price'';
          qty \<leftarrow> field_int m ''quantity'';
          Some \<lparr>mdID = ident, mdStockCode = stock, mdPrice = price, mdQuantity = qty\<rparr> }"

primrec decode_all :: "('a \<Rightarrow> 'b option) \<Rightarrow> 'a list \<Rightarrow> 'b list option" where
  "decode_all f [] = Some []"
| "decode_all f (x # xs) = do { y \<leftarrow> f x; ys \<leftarrow> decode_all f xs; Some (y # ys) }"

definition field_array :: "fields \<Rightarrow> string \<Rightarrow> json list option" where
  "field_array m k = (case member m k of JArray vs \<Rightarrow> Some vs | JNull \<Rightarrow> Some [] | _ \<Rightarrow> None)"

definition decode_TradesResponse :: "json \<Rightarrow> mt_Trade list option" where
  "decode_TradesResponse v =
     do { m \<leftarrow> document v;
          success \<leftarrow> field_bool m ''success'';
          vs \<leftarrow> field_array m ''data'';
          decode_all decode_Trade vs }"

definition decode_PaginatedTradesResponse :: "json \<Rightarrow> (mt_Trade list \<times> int64) option" where
  "decode_PaginatedTradesResponse v =
     do { m \<leftarrow> document v;
          trades \<leftarrow> decode_TradesResponse v;
          meta \<leftarrow> field_object m ''meta'';
          tot \<leftarrow> field_int meta ''total'';
          page \<leftarrow> field_int meta ''page'';
          perPage \<leftarrow> field_int meta ''per_page'';
          pages \<leftarrow> field_int meta ''pages'';
          Some (trades, tot) }"

definition get_call :: "string \<Rightarrow> http_call" where
  "get_call path = \<lparr>hcMethod = ''GET'', hcPath = path, hcToken = [], hcBody = None\<rparr>"

definition getTrades :: "'w peer \<Rightarrow> string \<Rightarrow> 'w \<Rightarrow> (string + mt_Trade list) \<times> 'w" where
  "getTrades pr stock w =
     (let (r, w) = prDo pr (get_call (''/api/v1/market/trades/'' @ stock)) w
      in (case r of
            Inl err \<Rightarrow> Inl err
          | Inr (status, body) \<Rightarrow>
              (case body \<bind> decode_TradesResponse of None \<Rightarrow> Inl ''unmarshal'' | Some ts \<Rightarrow> Inr ts), w))"

text \<open>The fall-back of \<open>getAllTrades\<close>, stock by stock.\<close>

primrec trades_by_stock :: "'w peer \<Rightarrow> string list \<Rightarrow> mt_Trade list \<Rightarrow> 'w \<Rightarrow> (string + mt_Trade list) \<times> 'w" where
  "trades_by_stock pr [] acc w = (Inr acc, w)"
| "trades_by_stock pr (stock # stocks) acc w =
     (case getTrades pr stock w of
        (Inl err, w) \<Rightarrow> (Inl err, w)
      | (Inr ts, w) \<Rightarrow> trades_by_stock pr stocks (acc @ ts) w)"

definition getAllTrades :: "'w peer \<Rightarrow> 'w \<Rightarrow> (string + mt_Trade list \<times> int64) \<times> 'w" where
  "getAllTrades pr w =
     (let (r, w) = prDo pr (get_call ''/api/v1/trades?per_page=100'') w
      in case r of
           Inl err \<Rightarrow> (Inl err, w)
         | Inr (status, body) \<Rightarrow>
             (case body \<bind> decode_PaginatedTradesResponse of
                Some p \<Rightarrow> (Inr p, w)
              | None \<Rightarrow>
                  (case trades_by_stock pr mt_stocks [] w of
                     (Inl err, w) \<Rightarrow> (Inl err, w)
                   | (Inr ts, w) \<Rightarrow> (Inr (ts, int (length ts)), w))))"

section \<open>Workers\<close>

text \<open>
  The stages of a worker: at the head of its loop, about to submit the buy order, about to submit the
  sell order, returned. \<open>mnSlots\<close> counts the semaphore's slots in use, \<open>mnBegun\<close> and \<open>mnEnded\<close> the
  turns of the loop that took and gave back a slot; \<open>mnBuys\<close> and \<open>mnSells\<close> the orders of each side
  that were placed.
\<close>

datatype mt_stage = AtHead | Buying | Selling | Returned

record 'w mt_run =
  mnStage :: "nat \<Rightarrow> mt_stage"
  mnStats :: mt_Stats
  mnWorld :: 'w
  mnSlots :: nat
  mnBegun :: nat
  mnEnded :: nat
  mnBuys :: nat
  mnSells :: nat

definition worker_stock :: "nat \<Rightarrow> string" where
  "worker_stock i = mt_stocks ! (i mod length mt_stocks)"

definition pair_request :: "nat \<Rightarrow> string \<Rightarrow> mt_OrderRequest" where
  "pair_request i side =
     \<lparr>mrStockCode = worker_stock i, mrSide = side, mrPrice = mt_prices (worker_stock i), mrQuantity = 100, mrType = ''LIMIT''\<rparr>"

text \<open>The bookkeeping after an order: the flag says whether it was placed.\<close>

definition count_order :: "mt_Stats \<Rightarrow> (string + string) \<times> duration \<Rightarrow> bool \<times> mt_Stats" where
  "count_order s out =
     (let s = s\<lparr>mtTotalOrders := add64 (mtTotalOrders s) 1\<rparr>
      in case out of
           (Inl err, lat) \<Rightarrow> (False, s\<lparr>mtFailedOrders := add64 (mtFailedOrders s) 1\<rparr>)
         | (Inr ident, lat) \<Rightarrow> (True, AddLatency (s\<lparr>mtSuccessOrders := add64 (mtSuccessOrders s) 1\<rparr>) lat))"

text \<open>
  One step of worker \<open>i\<close>. At the head of the loop it either sees the end of the context, at the
  instant \<open>until\<close>, or takes a slot; the flag chooses when both are possible. \<open>None\<close> when the step
  cannot be taken.
\<close>

definition mt_worker_step :: "'w peer \<Rightarrow> time \<Rightarrow> nat \<Rightarrow> 'w mt_run \<Rightarrow> nat \<times> bool \<Rightarrow> 'w mt_run option" where
  "mt_worker_step pr until workers s e =
     (let (i, stop) = e
      in case mnStage s i of
           Returned \<Rightarrow> None
         | AtHead \<Rightarrow>
             if stop then (if until \<le> prNow pr (mnWorld s) then Some (s\<lparr>mnStage := (mnStage s)(i := Returned)\<rparr>) else None)
             else if mnSlots s < workers
             then Some (s\<lparr>mnStage := (mnStage s)(i := Buying), mnSlots := Suc (mnSlots s), mnBegun := Suc (mnBegun s)\<rparr>)
             else None
         | Buying \<Rightarrow>
             (let (out, w) = mt_submitOrder pr (pair_request i ''BUY'') (mnWorld s);
                  (ok, st) = count_order (mnStats s) out;
                  s = s\<lparr>mnWorld := w, mnStats := st\<rparr>
              in if ok then Some (s\<lparr>mnStage := (mnStage s)(i := Selling), mnBuys := Suc (mnBuys s)\<rparr>)
                 else if mnSlots s = 0 then None
                 else Some (s\<lparr>mnStage := (mnStage s)(i := AtHead), mnSlots := mnSlots s - 1, mnEnded := Suc (mnEnded s)\<rparr>))
         | Selling \<Rightarrow>
             (let (out, w) = mt_submitOrder pr (pair_request i ''SELL'') (mnWorld s);
                  (ok, st) = count_order (mnStats s) out;
                  s = s\<lparr>mnWorld := w, mnStats := st, mnSells := (if ok then Suc (mnSells s) else mnSells s)\<rparr>
              in if mnSlots s = 0 then None
                 else Some (s\<lparr>mnStage := (mnStage s)(i := AtHead), mnSlots := mnSlots s - 1, mnEnded := Suc (mnEnded s)\<rparr>)))"

definition runTest_start :: "'w peer \<Rightarrow> 'w \<Rightarrow> 'w mt_run" where
  "runTest_start pr w =
     \<lparr>mnStage = (\<lambda>_. AtHead),
      mnStats = \<lparr>mtTotalOrders = 0, mtSuccessOrders = 0, mtFailedOrders = 0, mtLatencies = [], mtStartTime = prNow pr w, mtEndTime = 0\<rparr>,
      mnWorld = w, mnSlots = 0, mnBegun = 0, mnEnded = 0, mnBuys = 0, mnSells = 0\<rparr>"

text \<open>\<open>wg.Wait\<close> returns when every worker has.\<close>

definition runTest_returns :: "nat \<Rightarrow> 'w mt_run \<Rightarrow> bool" where
  "runTest_returns workers s \<longleftrightarrow> list_all (\<lambda>i. mnStage s i = Returned) [0..<workers]"

section \<open>Reports\<close>

definition mt_rates :: "int64 list" where
  "mt_rates = [1000, 5000, 10000, 20000, 30000, 50000, 100000]"

text \<open>
  \<open>runRampUpTest\<close>: the phases as a function \<open>phase\<close> of the rate, the last good phase so far, and what
  is left of the rates.
\<close>

primrec runRampUpTest ::
  "(int64 \<Rightarrow> 'w \<Rightarrow> mt_Stats \<times> 'w) \<Rightarrow> 'w peer \<Rightarrow> int64 list \<Rightarrow> (mt_Stats \<times> int64) option \<Rightarrow> 'w \<Rightarrow> (mt_Stats \<times> int64) option \<times> 'w" where
  "runRampUpTest phase pr [] best w = (best, w)"
| "runRampUpTest phase pr (rate # rates) best w =
     (let (stats, w) = phase rate w;
          w = prWait pr (100 * 10 ^ 6) w;
          (trades, w) = getAllTrades pr w
      in case trades of
           Inl err \<Rightarrow> runRampUpTest phase pr rates best w
         | Inr _ \<Rightarrow>
             (let elapsed = Seconds (mtEndTime stats - mtStartTime stats);
                  actualRate = fmul (fdiv (float_of_int64 (mtTotalOrders stats)) elapsed) 60
              in if actualRate < fmul (float_of_int64 rate) (round53 (8 / 10)) then (best, w)
                 else runRampUpTest phase pr rates (Some (stats, rate)) (prWait pr (2 * 10 ^ 9) w)))"

record mt_report =
  mpTotal :: int64
  mpSuccess :: int64
  mpFailed :: int64
  mpPerMin :: float64
  mpP50 :: duration
  mpP95 :: duration
  mpP99 :: duration
  mpTrades :: "int64 option"
  mpExpected :: "int64 option"
  mpMatchRate :: "float64 option"
  mpPass :: bool

text \<open>
  \<open>printReport\<close> reads the statistics through a pointer: a nil one panics. The trades are those of
  the whole system, as the query returns them.
\<close>

definition mt_printReport :: "mt_Config \<Rightarrow> mt_Stats option \<Rightarrow> string + int64 \<Rightarrow> mt_report outcome" where
  "mt_printReport cfg stats trades =
     (case stats of
        None \<Rightarrow> Panic
      | Some s \<Rightarrow>
          let perSec = fdiv (float_of_int64 (mtTotalOrders s)) (Seconds (mtEndTime s - mtStartTime s));
              perMin = fmul perSec 60;
              seen = (if mtVerify cfg then (case trades of Inl err \<Rightarrow> None | Inr n \<Rightarrow> Some n) else None);
              expected = (case seen of None \<Rightarrow> None | Some n \<Rightarrow> if n > 0 then Some (quot64 (mtSuccessOrders s) 2) else None)
          in Return \<lparr>mpTotal = mtTotalOrders s, mpSuccess = mtSuccessOrders s, mpFailed = mtFailedOrders s, mpPerMin = perMin,
               mpP50 = Percentile (mtLatencies s) 50, mpP95 = Percentile (mtLatencies s) 95, mpP99 = Percentile (mtLatencies s) 99,
               mpTrades = seen, mpExpected = expected,
               mpMatchRate = (case (seen, expected) of
                   (Some n, Some x) \<Rightarrow> if x > 0 then Some (fmul (fdiv (float_of_int64 n) (float_of_int64 x)) 100) else None
                 | _ \<Rightarrow> None),
               mpPass = (perMin \<ge> 1000)\<rparr>)"

text \<open>\<open>main\<close>: one run, or the ramp when a maximal rate is given.\<close>

definition mt_main :: "mt_Config \<Rightarrow> 'w peer \<Rightarrow> (int64 \<Rightarrow> 'w \<Rightarrow> mt_Stats \<times> 'w) \<Rightarrow> 'w \<Rightarrow> mt_report outcome \<times> 'w" where
  "mt_main cfg pr phase w =
     (let (initial, w) = getAllTrades pr w;
          (stats, w) = (if mtMaxRate cfg > 0
                        then (let (best, w) = runRampUpTest phase pr mt_rates None w in (map_option fst best, w))
                        else (let (s, w) = phase (mtRate cfg) w in (Some s, w)));
          w = prWait pr (200 * 10 ^ 6) w;
          (trades, w) = (if mtVerify cfg \<and> stats \<noteq> None then getAllTrades pr w else (Inl [], w))
      in (mt_printReport cfg stats (case trades of Inl err \<Rightarrow> Inl err | Inr p \<Rightarrow> Inr (snd p)), w))"

section \<open>What the counters say\<close>

interpretation pairs: worker_pool workers "mt_worker_step pr until workers" mnSlots mnBegun mnEnded for pr until workers
  by unfold_locales
    (auto simp: mt_worker_step_def Let_def split: mt_stage.splits if_splits prod.splits)

text \<open>
  Orders are successes or failures; the successes are the buys and the sells, each with a latency;
  every sell follows its buy. Wrap-around is that of the atomic counters.
\<close>

definition selling :: "'w mt_run \<Rightarrow> nat set" where
  "selling s = {i. mnStage s i = Selling}"

definition mt_counted :: "'w mt_run \<Rightarrow> bool" where
  "mt_counted s \<longleftrightarrow>
     mtTotalOrders (mnStats s) = wrap64 (int (mnBuys s + mnSells s) + mtFailedOrders (mnStats s)) \<and>
     mtSuccessOrders (mnStats s) = wrap64 (int (mnBuys s + mnSells s)) \<and>
     length (mtLatencies (mnStats s)) = mnBuys s + mnSells s \<and>
     finite (selling s) \<and> mnSells s + card (selling s) \<le> mnBuys s"

lemma count_order_sum:
  assumes "count_order st out = (ok, st')"
    and "mtTotalOrders st = wrap64 (int n + mtFailedOrders st)" "mtSuccessOrders st = wrap64 (int n)"
  shows "mtTotalOrders st' = wrap64 (int (if ok then Suc n else n) + mtFailedOrders st') \<and>
    mtSuccessOrders st' = wrap64 (int (if ok then Suc n else n)) \<and>
    length (mtLatencies st') = (if ok then Suc (length (mtLatencies st)) else length (mtLatencies st))"
proof -
  have r: "wrap64 (a + wrap64 b) = wrap64 (a + b)" for a b
    using wrap64_add_left [of b a] by (simp add: add.commute)
  show ?thesis
    using assms by (auto simp: count_order_def AddLatency_def Let_def add64_def wrap64_add_left r algebra_simps split: sum.splits prod.splits)
qed

lemma mt_counted_step:
  assumes "mt_worker_step pr until workers s (i, stop) = Some s'" and inv: "mt_counted s"
  shows "mt_counted s'"
proof (cases "mnStage s i")
  case AtHead
  then have sel: "selling s' = selling s"
    using assms(1) by (auto simp: mt_worker_step_def selling_def Let_def split: if_splits)
  have "mnStats s' = mnStats s" "mnBuys s' = mnBuys s" "mnSells s' = mnSells s"
    using assms(1) AtHead by (auto simp: mt_worker_step_def Let_def split: if_splits)
  then show ?thesis using inv by (simp add: mt_counted_def sel)
next
  case Buying
  obtain out w where o: "mt_submitOrder pr (pair_request i ''BUY'') (mnWorld s) = (out, w)" by fastforce
  obtain ok st where c: "count_order (mnStats s) out = (ok, st)" by fastforce
  have i: "i \<notin> selling s" using Buying by (simp add: selling_def)
  have sel: "selling s' = (if ok then insert i (selling s) else selling s)"
    using assms(1) Buying by (auto simp: mt_worker_step_def o c Let_def selling_def split: if_splits)
  have "mnStats s' = st" "mnBuys s' = (if ok then Suc (mnBuys s) else mnBuys s)" "mnSells s' = mnSells s"
    using assms(1) Buying by (auto simp: mt_worker_step_def o c Let_def split: if_splits)
  then show ?thesis
    using count_order_sum [OF c, of "mnBuys s + mnSells s"] inv i unfolding mt_counted_def sel by (auto simp: ac_simps split: if_splits)
next
  case Selling
  obtain out w where o: "mt_submitOrder pr (pair_request i ''SELL'') (mnWorld s) = (out, w)" by fastforce
  obtain ok st where c: "count_order (mnStats s) out = (ok, st)" by fastforce
  have i: "i \<in> selling s" using Selling by (simp add: selling_def)
  have sel: "selling s' = selling s - {i}"
    using assms(1) Selling by (auto simp: mt_worker_step_def o c Let_def selling_def split: if_splits)
  have "mnStats s' = st" "mnBuys s' = mnBuys s" "mnSells s' = (if ok then Suc (mnSells s) else mnSells s)"
    using assms(1) Selling by (auto simp: mt_worker_step_def o c Let_def split: if_splits)
  moreover have "Suc (card (selling s - {i})) = card (selling s)"
    using inv i by (intro card_Suc_Diff1) (simp_all add: mt_counted_def)
  ultimately show ?thesis
    using count_order_sum [OF c, of "mnBuys s + mnSells s"] inv unfolding mt_counted_def sel by (auto simp: ac_simps split: if_splits)
next
  case Returned
  then show ?thesis using assms(1) by (simp add: mt_worker_step_def)
qed

lemma mt_counted_run:
  "pairs.run_events pr until workers s es = Some s' \<Longrightarrow> mt_counted s \<Longrightarrow> mt_counted s'"
proof (induction es arbitrary: s)
  case (Cons e es)
  then obtain t where "mt_worker_step pr until workers s e = Some t" "pairs.run_events pr until workers t es = Some s'"
    by (auto split: option.splits)
  then show ?case using Cons mt_counted_step [of pr until workers s "fst e" "snd e" t] by auto
qed simp

lemma mt_counted_start: "mt_counted (runTest_start pr w)"
  by (simp add: mt_counted_def runTest_start_def selling_def)

text \<open>The server accepts both orders of every pair.\<close>

lemma pair_request_acceptable:
  assumes "side = ''BUY'' \<or> side = ''SELL''"
  shows "acceptable (json_of_OrderRequest (pair_request i side))"
proof -
  have stock: "worker_stock i \<in> set mt_stocks"
    unfolding worker_stock_def by (rule nth_mem) (simp add: mt_stocks_def)
  then have "IsValidStockCode (worker_stock i)" using tool_stocks_valid by (auto simp: mt_stocks_def list_all_iff)
  moreover have "1 \<le> mt_prices (worker_stock i)" "mt_prices (worker_stock i) \<le> 999999999"
    using stock by (auto simp: mt_stocks_def mt_prices_def)
  ultimately show ?thesis
    unfolding json_of_OrderRequest_def using assms
    by (intro acceptable_order [of _ "worker_stock i" side "mt_prices (worker_stock i)" 100])
      (simp_all add: json_of_int_def pair_request_def)
qed

text \<open>A ramp that never gets beyond its first phase has no statistics to print, and the program panics.\<close>

lemma ramp_without_best:
  assumes "phase 1000 w = (stats, w1)"
    and "getAllTrades pr (prWait pr (100 * 10 ^ 6) w1) = (Inr p, w2)"
    and "fmul (fdiv (float_of_int64 (mtTotalOrders stats)) (Seconds (mtEndTime stats - mtStartTime stats))) 60
           < fmul (float_of_int64 1000) (round53 (8 / 10))"
  shows "runRampUpTest phase pr mt_rates None w = (None, w2)"
  using assms by (simp add: mt_rates_def Let_def)

end
