(* ===== verification/Stresstest_Tool.thy ===== *)
theory Stresstest_Tool
  imports Loadtest_Tool
begin

text \<open>
  The stress test src/cmd/stresstest: phases with a doubling number of HTTP workers, and WebSocket
  listeners that count events meanwhile.
\<close>

definition st_stockList :: "string list" where
  "st_stockList = [''BBCA'', ''BBRI'', ''TLKM'', ''ASII'', ''GOTO'']"

definition st_basePrice :: "string \<Rightarrow> int64" where
  "st_basePrice s =
     (if s = ''BBCA'' then 9500 else if s = ''BBRI'' then 5000 else if s = ''TLKM'' then 3500
      else if s = ''ASII'' then 6000 else if s = ''GOTO'' then 100 else 0)"

section \<open>Counters\<close>

record phaseCounters =
  pcTotal :: int64
  pcOk2xx :: int64
  pcErr4xx :: int64
  pcErr5xx :: int64
  pcNetErr :: int64
  pcLats :: "duration list"

definition new_phaseCounters :: phaseCounters where
  "new_phaseCounters = \<lparr>pcTotal = 0, pcOk2xx = 0, pcErr4xx = 0, pcErr5xx = 0, pcNetErr = 0, pcLats = []\<rparr>"

definition addLat :: "phaseCounters \<Rightarrow> duration \<Rightarrow> phaseCounters" where
  "addLat c d = c\<lparr>pcLats := pcLats c @ [d]\<rparr>"

record phaseResult =
  pfPhaseNum :: int64
  pfWorkers :: int64
  pfDuration :: duration
  pfTotal :: int64
  pfOk2xx :: int64
  pfErr4xx :: int64
  pfErr5xx :: int64
  pfNetErr :: int64
  pfLats :: "duration list"
  pfReqPerSec :: float64
  pfReqPerMin :: float64
  pfWsEvtTotal :: int64
  pfWsEvtPerSec :: float64

definition errorRate :: "phaseResult \<Rightarrow> float64" where
  "errorRate p = (if pfTotal p = 0 then 0 else share (add64 (pfErr5xx p) (pfNetErr p)) (pfTotal p))"

text \<open>\<open>pctOf\<close>: the percentage that is formatted, \<open>None\<close> for \<open>n/a\<close>.\<close>

definition pctOf :: "int64 \<Rightarrow> int64 \<Rightarrow> float64 option" where
  "pctOf n tot = (if tot = 0 then None else Some (share n tot))"

definition max64 :: "int64 \<Rightarrow> int64 \<Rightarrow> int64" where
  "max64 a b = (if a > b then a else b)"

section \<open>HTTP workers\<close>

text \<open>The arguments are what the three calls of \<open>rand.Intn\<close> return.\<close>

definition st_randomOrder :: "nat \<Rightarrow> nat \<Rightarrow> nat \<Rightarrow> string \<times> string \<times> int64 \<times> int64" where
  "st_randomOrder k coin q =
     (let stock = st_stockList ! k
      in (stock, if coin = 0 then ''BUY'' else ''SELL'', st_basePrice stock, (int q + 1) * 100))"

definition json_of_limit_order :: "string \<times> string \<times> int64 \<times> int64 \<Rightarrow> json" where
  "json_of_limit_order x =
     (let (stock, side, price, qty) = x
      in JObject [(''price'', json_of_int price), (''quantity'', json_of_int qty), (''side'', JString side),
           (''stock_code'', JString stock), (''type'', JString ''LIMIT'')])"

text \<open>
  One turn of \<open>floodWorker\<close>, with the random choices: an error of a request that the end of the
  phase (at \<open>until\<close>) cut off is not counted. The flag says whether the worker goes on.
\<close>

definition floodWorker_turn ::
  "'w peer \<Rightarrow> time \<Rightarrow> nat \<times> nat \<times> nat \<Rightarrow> 'w \<times> phaseCounters \<Rightarrow> bool \<times> 'w \<times> phaseCounters" where
  "floodWorker_turn pr until ch x =
     (let (w, c) = x; (k, coin, q) = ch
      in if until \<le> prNow pr w then (False, w, c)
         else let ((r, lat), w) = timed_call pr \<lparr>hcMethod = ''POST'', hcPath = ''/api/v1/orders'', hcToken = [],
                                     hcBody = Some (json_of_limit_order (st_randomOrder k coin q))\<rparr> w
              in case r of
                   Inl err \<Rightarrow>
                     if until \<le> prNow pr w then (False, w, c)
                     else (True, w, addLat (c\<lparr>pcNetErr := add64 (pcNetErr c) 1, pcTotal := add64 (pcTotal c) 1\<rparr>) lat)
                 | Inr (status, _) \<Rightarrow>
                     (let c = addLat (c\<lparr>pcTotal := add64 (pcTotal c) 1\<rparr>) lat
                      in (True, w,
                          if 200 \<le> status \<and> status < 300 then c\<lparr>pcOk2xx := add64 (pcOk2xx c) 1\<rparr>
                          else if 400 \<le> status \<and> status < 500 then c\<lparr>pcErr4xx := add64 (pcErr4xx c) 1\<rparr>
                          else c\<lparr>pcErr5xx := add64 (pcErr5xx c) 1\<rparr>)))"

text \<open>The turns of all workers of a phase, in the order in which they were taken.\<close>

primrec flood_turns ::
  "'w peer \<Rightarrow> time \<Rightarrow> (nat \<times> nat \<times> nat) list \<Rightarrow> 'w \<times> phaseCounters \<Rightarrow> 'w \<times> phaseCounters" where
  "flood_turns pr until [] x = x"
| "flood_turns pr until (ch # chs) x = flood_turns pr until chs (snd (floodWorker_turn pr until ch x))"

text \<open>\<open>runPhase\<close>: \<open>wsSnap\<close> and \<open>wsEnd\<close> are the event counts before and after.\<close>

definition runPhase ::
  "'w peer \<Rightarrow> int64 \<Rightarrow> int64 \<Rightarrow> duration \<Rightarrow> int64 \<Rightarrow> int64 \<Rightarrow> (nat \<times> nat \<times> nat) list \<Rightarrow> 'w \<Rightarrow> phaseResult \<times> 'w" where
  "runPhase pr phaseNum workers dur wsSnap wsEnd chs w =
     (let start = prNow pr w;
          (w', c) = flood_turns pr (start + dur) chs (w, new_phaseCounters);
          elapsed = prNow pr w' - start;
          rps = fdiv (float_of_int64 (pcTotal c)) (Seconds elapsed);
          events = sub64 wsEnd wsSnap
      in (\<lparr>pfPhaseNum = phaseNum, pfWorkers = workers, pfDuration = elapsed, pfTotal = pcTotal c, pfOk2xx = pcOk2xx c,
           pfErr4xx = pcErr4xx c, pfErr5xx = pcErr5xx c, pfNetErr = pcNetErr c, pfLats = pcLats c, pfReqPerSec = rps,
           pfReqPerMin = fmul rps 60, pfWsEvtTotal = events,
           pfWsEvtPerSec = fdiv (float_of_int64 events) (Seconds elapsed)\<rparr>, w'))"

text \<open>The figures of a progress line: requests and events per second since the last one, and the error rate.\<close>

definition progressTicker_line ::
  "phaseCounters \<Rightarrow> int64 \<Rightarrow> int64 \<Rightarrow> int64 \<Rightarrow> duration \<Rightarrow> float64 \<times> float64 \<times> float64" where
  "progressTicker_line c prevTotal curWS prevWS dt =
     (fdiv (float_of_int64 (sub64 (pcTotal c) prevTotal)) (Seconds dt),
      fdiv (float_of_int64 (sub64 curWS prevWS)) (Seconds dt),
      share (add64 (pcNetErr c) (pcErr5xx c)) (max64 (pcTotal c) 1))"

section \<open>WebSocket listeners\<close>

definition subscribe_json :: "string \<Rightarrow> string \<Rightarrow> json" where
  "subscribe_json ch stock =
     JObject [(''action'', JString ''subscribe''), (''channel'', JString ch), (''stock'', JString stock)]"

definition listener_subscriptions :: "(string \<times> string) list" where
  "listener_subscriptions =
     concat (map (\<lambda>s. map (\<lambda>ch. (ch, s)) [''market.trade'', ''market.ticker'', ''market.orderbook'']) st_stockList)"

text \<open>The read loop, for at most \<open>n\<close> messages: every message but an acknowledgement is an event.\<close>

primrec listener_reads :: "'w peer \<Rightarrow> nat \<Rightarrow> nat \<Rightarrow> int64 \<Rightarrow> 'w \<Rightarrow> int64 \<times> 'w" where
  "listener_reads pr conn 0 counter w = (counter, w)"
| "listener_reads pr conn (Suc n) counter w =
     (case prRead pr conn (65 * 10 ^ 9) w of
        (Inl err, w) \<Rightarrow> (counter, w)
      | (Inr msg, w) \<Rightarrow>
          listener_reads pr conn n
            (if sgType msg \<noteq> ''subscribed'' \<and> sgType msg \<noteq> [] then add64 counter 1 else counter) w)"

definition wsListenerClient :: "'w peer \<Rightarrow> int64 \<Rightarrow> nat \<Rightarrow> int64 \<times> int64 \<Rightarrow> 'w \<Rightarrow> (int64 \<times> int64) \<times> 'w" where
  "wsListenerClient pr ident n counts w =
     (let (counter, connected) = counts
      in case prDial pr (fakeIP ident) w of
           (Inl err, w) \<Rightarrow> (counts, w)
         | (Inr conn, w) \<Rightarrow>
             (let w = foldl (\<lambda>w (ch, s). prWrite pr conn (subscribe_json ch s) w) w listener_subscriptions;
                  (counter, w) = listener_reads pr conn n counter w
              in ((counter, add64 connected 1), prClose pr conn w)))"

section \<open>Phases and report\<close>

text \<open>The loop that builds the list of worker counts; doubling wraps around, so it may not end.\<close>

partial_function (option) doubling :: "int64 \<Rightarrow> int64 \<Rightarrow> int64 list option" where
  "doubling w mx = (if w < mx then Option.bind (doubling (mul64 w 2) mx) (\<lambda>ws. Some (w # ws)) else Some [])"

declare doubling.simps [code]

definition workerCounts :: "int64 \<Rightarrow> int64 \<Rightarrow> int64 list option" where
  "workerCounts startWorkers maxWorkers =
     (let startWorkers = (if startWorkers \<le> 0 then 10 else startWorkers)
      in map_option (\<lambda>ws. ws @ [maxWorkers]) (doubling startWorkers maxWorkers))"

text \<open>The phases of \<open>main\<close> with the breaking point: the first phase, from one, at or above the threshold.\<close>

primrec run_phases ::
  "(int64 \<Rightarrow> int64 \<Rightarrow> 'w \<Rightarrow> phaseResult \<times> 'w) \<Rightarrow> 'w peer \<Rightarrow> float64 \<Rightarrow> int64 list \<Rightarrow> phaseResult list \<times> int64 \<Rightarrow> 'w
     \<Rightarrow> (phaseResult list \<times> int64) \<times> 'w" where
  "run_phases phase pr thresh [] acc w = (acc, w)"
| "run_phases phase pr thresh (workers # ws) acc w =
     (let (phases, breakingPoint) = acc;
          i = int (length phases);
          (p, w) = phase (i + 1) workers w;
          breakingPoint = (if breakingPoint = 0 \<and> errorRate p \<ge> thresh then i + 1 else breakingPoint);
          w = (if ws = [] then w else prWait pr (3 * 10 ^ 9) w)
      in run_phases phase pr thresh ws (phases @ [p], breakingPoint) w)"

text \<open>The loop of \<open>printReport\<close> over the phases: the index and rate of the peak, and the peak event rate.\<close>

primrec peak_loop :: "nat \<Rightarrow> phaseResult list \<Rightarrow> nat \<times> float64 \<times> float64 \<Rightarrow> nat \<times> float64 \<times> float64" where
  "peak_loop i [] acc = acc"
| "peak_loop i (p # ps) acc =
     (let (idx, peakRPS, peakWS) = acc;
          (idx, peakRPS) = (if pfReqPerSec p > peakRPS then (i, pfReqPerSec p) else (idx, peakRPS));
          peakWS = (if pfWsEvtPerSec p > peakWS then pfWsEvtPerSec p else peakWS)
      in peak_loop (Suc i) ps (idx, peakRPS, peakWS))"

record st_report =
  sqPeak :: phaseResult
  sqPeakPhase :: nat
  sqP50 :: duration
  sqP95 :: duration
  sqP99 :: duration
  sqBreaking :: "(int64 \<times> int64 \<times> float64) option"
  sqPeakEvents :: "(float64 \<times> float64) option"

text \<open>\<open>phases[peakPhaseIdx]\<close> panics when there was no phase.\<close>

definition st_printReport :: "phaseResult list \<Rightarrow> int64 \<Rightarrow> int64 \<Rightarrow> st_report outcome" where
  "st_printReport phases breakingPoint wsClients =
     (let (idx, peakRPS, peakWS) = peak_loop 0 phases (0, 0, 0)
      in if idx \<ge> length phases then Panic
         else let peak = phases ! idx
              in Return \<lparr>sqPeak = peak, sqPeakPhase = idx + 1, sqP50 = percentile (pfLats peak) 50,
                   sqP95 = percentile (pfLats peak) 95, sqP99 = percentile (pfLats peak) 99,
                   sqBreaking = (if breakingPoint > 0 \<and> breakingPoint \<le> int (length phases)
                                 then (let bp = phases ! nat (breakingPoint - 1)
                                       in Some (breakingPoint, pfWorkers bp, errorRate bp)) else None),
                   sqPeakEvents = (if wsClients > 0 then Some (peakWS, fdiv peakWS (float_of_int64 wsClients)) else None)\<rparr>)"

section \<open>The program\<close>

text \<open>
  The wait for the listeners, at most \<open>n\<close> rounds of 200 ms; \<open>conns\<close> reads the counter they
  increment.
\<close>

primrec wait_connected :: "'w peer \<Rightarrow> ('w \<Rightarrow> int64) \<Rightarrow> time \<Rightarrow> int64 \<Rightarrow> nat \<Rightarrow> 'w \<Rightarrow> 'w" where
  "wait_connected pr conns deadline wsClients 0 w = w"
| "wait_connected pr conns deadline wsClients (Suc n) w =
     (if prNow pr w < deadline
      then if conns w \<ge> wsClients then w
           else wait_connected pr conns deadline wsClients n (prWait pr (200 * 10 ^ 6) w)
      else w)"

text \<open>
  \<open>main\<close> after the flags: \<open>phase\<close> is \<open>runPhase\<close> with the step duration and the interleaving of its
  workers. No value when the list of worker counts does not end.
\<close>

definition st_main ::
  "'w peer \<Rightarrow> ('w \<Rightarrow> int64) \<Rightarrow> (int64 \<Rightarrow> int64 \<Rightarrow> 'w \<Rightarrow> phaseResult \<times> 'w) \<Rightarrow> int64 \<Rightarrow> int64 \<Rightarrow> int64 \<Rightarrow> float64 \<Rightarrow> 'w
     \<Rightarrow> (st_report outcome \<times> 'w) option" where
  "st_main pr conns phase startWorkers maxWorkers wsClients thresh w =
     map_option (\<lambda>workers.
       (let w = (if wsClients > 0 then wait_connected pr conns (prNow pr w + 5 * 10 ^ 9) wsClients 25 w else w);
            w = prWait pr (500 * 10 ^ 6) w;
            ((phases, breakingPoint), w) = run_phases phase pr thresh workers ([], 0) w
        in (st_printReport phases breakingPoint (conns w), w))) (workerCounts startWorkers maxWorkers)"

section \<open>Results\<close>

lemma st_randomOrder_acceptable:
  assumes "k < 5" and "q < 5"
  shows "acceptable (json_of_limit_order (st_randomOrder k coin q))"
proof -
  have stock: "st_stockList ! k \<in> set st_stockList" using assms(1) by (intro nth_mem) (simp add: st_stockList_def)
  then have "IsValidStockCode (st_stockList ! k)" using tool_stocks_valid by (auto simp: st_stockList_def list_all_iff)
  moreover have "1 \<le> st_basePrice (st_stockList ! k)" "st_basePrice (st_stockList ! k) \<le> 999999999"
    using stock by (auto simp: st_stockList_def st_basePrice_def)
  ultimately show ?thesis
    unfolding json_of_limit_order_def st_randomOrder_def Let_def prod.case using assms(2)
    by (intro acceptable_order [of _ "st_stockList ! k" "if coin = 0 then ''BUY'' else ''SELL''"
          "st_basePrice (st_stockList ! k)" "(int q + 1) * 100"])
      (simp_all add: json_of_int_def)
qed

text \<open>Every counted request is in exactly one class and has a latency, as long as no counter overflows.\<close>

definition pc_partition :: "phaseCounters \<Rightarrow> bool" where
  "pc_partition c \<longleftrightarrow>
     0 \<le> pcOk2xx c \<and> 0 \<le> pcErr4xx c \<and> 0 \<le> pcErr5xx c \<and> 0 \<le> pcNetErr c \<and>
     pcTotal c = pcOk2xx c + pcErr4xx c + pcErr5xx c + pcNetErr c \<and> pcTotal c = int (length (pcLats c))"

lemma floodWorker_partition:
  assumes "pc_partition c" and "pcTotal c < 2 ^ 63 - 1"
  shows "pc_partition (snd (snd (floodWorker_turn pr until ch (w, c))))"
    and "pcTotal (snd (snd (floodWorker_turn pr until ch (w, c)))) \<le> pcTotal c + 1"
proof -
  obtain k coin q where ch: "ch = (k, coin, q)" by (cases ch) auto
  have up: "add64 x 1 = x + 1" if "0 \<le> x" "x \<le> pcTotal c" for x
    using that assms(2) by (simp add: add64_id in64_def)
  have le: "pcOk2xx c \<le> pcTotal c" "pcErr4xx c \<le> pcTotal c" "pcErr5xx c \<le> pcTotal c" "pcNetErr c \<le> pcTotal c" "0 \<le> pcTotal c"
    using assms(1) by (simp_all add: pc_partition_def)
  show "pc_partition (snd (snd (floodWorker_turn pr until ch (w, c))))"
    "pcTotal (snd (snd (floodWorker_turn pr until ch (w, c)))) \<le> pcTotal c + 1"
    using assms(1) le up
    by (auto simp: floodWorker_turn_def ch pc_partition_def addLat_def Let_def split: prod.splits sum.splits)
qed

lemma flood_partition:
  assumes "pc_partition c" and "pcTotal c + int (length chs) < 2 ^ 63"
  shows "pc_partition (snd (flood_turns pr until chs (w, c)))"
  using assms
proof (induction chs arbitrary: w c)
  case (Cons ch chs)
  obtain w' c' where "snd (floodWorker_turn pr until ch (w, c)) = (w', c')" by fastforce
  then show ?case using Cons floodWorker_partition [OF Cons.prems(1), of pr until ch w] by simp
qed simp

text \<open>
  Doubling a positive count up to a maximum that is at most half the largest integer: the powers of
  two times the start that are below the maximum, at most 62 of them.
\<close>

lemma doubling_powers:
  assumes "0 < w" and "mx \<le> 2 ^ 62"
  shows "\<exists>k. doubling w mx = Some (map (\<lambda>i. w * 2 ^ i) [0..<k]) \<and> mx \<le> w * 2 ^ k \<and> (\<forall>i<k. w * 2 ^ i < mx)"
  using assms(1)
proof (induction "nat (mx - w)" arbitrary: w rule: less_induct)
  case less
  show ?case
  proof (cases "w < mx")
    case False
    then show ?thesis by (intro exI [of _ 0]) (simp add: doubling.simps)
  next
    case True
    then have m: "mul64 w 2 = w * 2" using less.prems assms(2) by (simp add: mul64_id in64_def)
    have "nat (mx - w * 2) < nat (mx - w)" using less.prems True by simp
    from less.hyps [OF this] less.prems obtain k where
      k: "doubling (w * 2) mx = Some (map (\<lambda>i. w * 2 * 2 ^ i) [0..<k])" "mx \<le> w * 2 * 2 ^ k" "\<forall>i<k. w * 2 * 2 ^ i < mx"
      by auto
    have "map (\<lambda>i. w * 2 ^ i) [0..<Suc k] = w # map (\<lambda>i. w * 2 * 2 ^ i) [0..<k]"
      by (simp add: upt_conv_Cons map_Suc_upt [symmetric] mult.assoc o_def del: upt_Suc)
    then have "doubling w mx = Some (map (\<lambda>i. w * 2 ^ i) [0..<Suc k])"
      using True k(1) by (subst doubling.simps) (simp add: m del: upt_Suc)
    moreover have "w * 2 ^ i < mx" if "i < Suc k" for i
      using that True k(3) by (cases i) (auto simp: mult.assoc)
    ultimately show ?thesis using k(2) by (intro exI [of _ "Suc k"]) (auto simp: mult.assoc)
  qed
qed

text \<open>Beyond that the counter wraps around to zero, and the loop never ends.\<close>

lemma doubling_stuck: "0 < mx \<Longrightarrow> doubling 0 mx = None"
proof (rule ccontr)
  assume "0 < mx" and "doubling 0 mx \<noteq> None"
  then obtain r where "doubling 0 mx = Some r" by auto
  moreover have "w = 0 \<longrightarrow> 0 < mx \<longrightarrow> False" if "doubling w mx = Some r" for w mx r
    by (rule doubling.raw_induct [of "\<lambda>w mx r. w = 0 \<longrightarrow> 0 < mx \<longrightarrow> False", OF _ that])
      (auto simp: mul64_def bind_eq_Some_conv split: if_splits)
  ultimately show False using \<open>0 < mx\<close> by blast
qed

lemma doubling_overflows: "2 ^ 62 < mx \<Longrightarrow> in64 mx \<Longrightarrow> doubling (2 ^ 61) mx = None"
proof -
  assume mx: "2 ^ 62 < mx" "in64 mx"
  have "mul64 (2 ^ 61) 2 = 2 ^ 62" "mul64 (2 ^ 62) 2 = - (2 ^ 63)" "mul64 (- (2 ^ 63)) 2 = 0"
    by (simp_all add: mul64_def wrap64_def)
  moreover have "doubling w mx = None" if "w < mx" "doubling (mul64 w 2) mx = None" for w
    using that by (subst doubling.simps) simp
  moreover have "- (2 ^ 63) < mx" "2 ^ 62 < mx" "2 ^ 61 < mx" "0 < mx" using mx(1) by simp_all
  ultimately show ?thesis using doubling_stuck [of mx] by metis
qed

text \<open>The breaking point is the first phase at or above the threshold, or zero.\<close>

definition first_at :: "float64 \<Rightarrow> phaseResult list \<Rightarrow> int64" where
  "first_at thresh ps =
     (case List.extract (\<lambda>p. thresh \<le> errorRate p) ps of None \<Rightarrow> 0 | Some (before, _, _) \<Rightarrow> int (length before) + 1)"

lemma first_at_snoc:
  "first_at thresh (ps @ [p]) =
     (if first_at thresh ps = 0 \<and> thresh \<le> errorRate p then int (length ps) + 1 else first_at thresh ps)"
proof (cases "List.extract (\<lambda>p. thresh \<le> errorRate p) ps")
  case None
  then have "\<forall>x\<in>set ps. \<not> thresh \<le> errorRate x" by (simp add: extract_None_iff)
  then have "List.extract (\<lambda>p. thresh \<le> errorRate p) (ps @ [p]) = (if thresh \<le> errorRate p then Some (ps, p, []) else None)"
    by (auto simp: extract_Some_iff extract_None_iff)
  then show ?thesis using None by (simp add: first_at_def)
next
  case (Some x)
  obtain b y c where x: "x = (b, y, c)" by (cases x) auto
  then have "List.extract (\<lambda>p. thresh \<le> errorRate p) (ps @ [p]) = Some (b, y, c @ [p])"
    using Some by (auto simp: extract_Some_iff)
  then show ?thesis using Some by (simp add: first_at_def x)
qed

lemma run_phases_breaking:
  assumes "run_phases phase pr thresh ws (ps, bp) w = ((phases, bp'), w')" and "bp = first_at thresh ps"
  shows "bp' = first_at thresh phases \<and> length phases = length ps + length ws"
  using assms
proof (induction ws arbitrary: ps bp w)
  case (Cons x ws)
  obtain p w1 where p: "phase (int (length ps) + 1) x w = (p, w1)" by fastforce
  show ?case
    using Cons.IH [of "ps @ [p]" "first_at thresh (ps @ [p])"] Cons.prems
    by (auto simp: p first_at_snoc Let_def split: if_splits)
qed simp

text \<open>The peak is a phase with the largest rate, when some rate is positive.\<close>

lemma first_at_Nil: "first_at thresh [] = 0"
  by (simp add: first_at_def List.extract_def)

lemma first_at_range: "first_at thresh ps \<le> int (length ps)" "0 \<le> first_at thresh ps"
  by (auto simp: first_at_def extract_Some_iff split: option.split)

lemma run_phases_all:
  assumes "run_phases phase pr thresh ws (ps, bp) w = ((phases, bp'), w')" and "\<forall>p\<in>set ps. Q p"
    and "\<And>i n w. Q (fst (phase i n w))"
  shows "\<forall>p\<in>set phases. Q p"
  using assms
proof (induction ws arbitrary: ps bp w)
  case (Cons x ws)
  obtain p w1 where p: "phase (int (length ps) + 1) x w = (p, w1)" by fastforce
  then have "Q p" using Cons.prems(3) [of "int (length ps) + 1" x w] by simp
  show ?case
    by (rule Cons.IH [OF Cons.prems(1) [unfolded run_phases.simps Let_def prod.case p] _ Cons.prems(3)]) (use Cons.prems(2) \<open>Q p\<close> in auto)
qed simp

lemma peak_loop_max:
  assumes "peak_loop i ps (idx, r, v) = (idx', r', v')"
  shows "r \<le> r' \<and> (\<forall>p\<in>set ps. pfReqPerSec p \<le> r') \<and> v \<le> v' \<and> (\<forall>p\<in>set ps. pfWsEvtPerSec p \<le> v') \<and>
    ((idx', r') = (idx, r) \<or> i \<le> idx' \<and> idx' < i + length ps \<and> pfReqPerSec (ps ! (idx' - i)) = r')"
  using assms
proof (induction ps arbitrary: i idx r v)
  case (Cons p ps)
  define idx1 where "idx1 = (if pfReqPerSec p > r then i else idx)"
  define r1 where "r1 = (if pfReqPerSec p > r then pfReqPerSec p else r)"
  define v1 where "v1 = (if pfWsEvtPerSec p > v then pfWsEvtPerSec p else v)"
  have "peak_loop (Suc i) ps (idx1, r1, v1) = (idx', r', v')"
    using Cons.prems by (simp add: idx1_def r1_def v1_def split: if_splits)
  note IH = Cons.IH [OF this]
  have "r \<le> r1" "pfReqPerSec p \<le> r1" "v \<le> v1" "pfWsEvtPerSec p \<le> v1" by (simp_all add: r1_def v1_def)
  moreover have "(idx1, r1) = (idx, r) \<or> idx1 = i \<and> r1 = pfReqPerSec p" by (simp add: idx1_def r1_def)
  ultimately show ?case
    using IH by (auto simp: nth_Cons' Suc_diff_Suc intro: order_trans)
qed simp

text \<open>The fifteen subscriptions of a listener are different, and fewer than a client may have.\<close>

lemma listener_subscriptions_distinct: "distinct listener_subscriptions \<and> length listener_subscriptions = 15"
  by (simp add: listener_subscriptions_def st_stockList_def)

text \<open>25 rounds are enough: then the deadline has passed or all listeners are connected.\<close>

lemma wait_connected_done:
  assumes clock: "\<And>d w. prNow pr w + d \<le> prNow pr (prWait pr d w)"
    and "deadline \<le> prNow pr w + int n * (200 * 10 ^ 6)"
  shows "deadline \<le> prNow pr (wait_connected pr conns deadline wsClients n w) \<or>
    wsClients \<le> conns (wait_connected pr conns deadline wsClients n w)"
  using assms(2)
proof (induction n arbitrary: w)
  case (Suc n)
  have "deadline \<le> prNow pr (prWait pr (200 * 10 ^ 6) w) + int n * (200 * 10 ^ 6)"
    using Suc.prems clock [of w "200 * 10 ^ 6"] by (simp add: algebra_simps)
  then show ?case using Suc.IH by simp
qed simp

text \<open>
  The report: there is a phase for every worker count, so no index is out of range; the peak is a
  phase with the largest rate, and the breaking point is the first phase at or above the threshold.
\<close>

lemma st_main_reports:
  assumes "st_main pr conns phase startWorkers maxWorkers wsClients thresh w = Some (out, w')"
    and "\<And>i n w. 0 \<le> pfReqPerSec (fst (phase i n w))"
  shows "\<exists>rep phases. out = Return rep \<and> sqPeak rep \<in> set phases \<and> (\<forall>p\<in>set phases. pfReqPerSec p \<le> pfReqPerSec (sqPeak rep)) \<and>
    map_option fst (sqBreaking rep) = (if first_at thresh phases = 0 then None else Some (first_at thresh phases))"
proof -
  obtain ws where ws: "workerCounts startWorkers maxWorkers = Some ws" using assms(1) by (auto simp: st_main_def)
  then have ne: "ws \<noteq> []" by (auto simp: workerCounts_def Let_def)
  obtain w1 phases bp where run: "run_phases phase pr thresh ws ([], 0) w1 = ((phases, bp), w')"
    and out: "out = st_printReport phases bp (conns w')"
    using assms(1) by (auto simp: st_main_def ws Let_def split: prod.splits)
  have bp: "bp = first_at thresh phases" and len: "length phases = length ws"
    using run_phases_breaking [OF run] by (simp_all add: first_at_Nil)
  have nonneg: "\<forall>p\<in>set phases. 0 \<le> pfReqPerSec p" by (rule run_phases_all [OF run]) (simp_all add: assms(2))
  obtain idx r v where pk: "peak_loop 0 phases (0, 0, 0) = (idx, r, v)" by (cases "peak_loop 0 phases (0, 0, 0)") auto
  have P: "(\<forall>p\<in>set phases. pfReqPerSec p \<le> r)" "0 \<le> r" "(idx, r) = (0, 0) \<or> idx < length phases \<and> pfReqPerSec (phases ! idx) = r"
    using peak_loop_max [OF pk] by auto
  have idx: "idx < length phases" using P(3) len ne by auto
  have "pfReqPerSec (phases ! idx) = r" using P nonneg idx by (metis antisym nth_mem prod.inject)
  moreover have "first_at thresh phases \<le> int (length phases)" "0 \<le> first_at thresh phases" by (rule first_at_range)+
  ultimately show ?thesis using idx P(1)
    by (intro exI [of _ "case out of Return rep \<Rightarrow> rep"] exI [of _ phases]) (auto simp: out st_printReport_def pk bp Let_def)
qed

text \<open>
  The worker counts: for a maximum of at most 2 to the 62 the start value doubled as long as it is
  below the maximum, and then the maximum. Above that the doubling of a power of two overflows to
  zero and the loop never ends.
\<close>

lemma workerCounts_doubles:
  assumes "0 < w" and "mx \<le> 2 ^ 62"
  shows "\<exists>k. workerCounts w mx = Some (map (\<lambda>i. w * 2 ^ i) [0..<k] @ [mx]) \<and> mx \<le> w * 2 ^ k \<and> (\<forall>i<k. w * 2 ^ i < mx)"
  using doubling_powers [OF assms] assms(1) by (auto simp: workerCounts_def)

lemma workerCounts_never_ends: "2 ^ 62 < mx \<Longrightarrow> in64 mx \<Longrightarrow> workerCounts (2 ^ 61) mx = None"
  using doubling_overflows [of mx] by (simp add: workerCounts_def)

end
