(* ===== verification/Wsloadtest_Tool.thy ===== *)
theory Wsloadtest_Tool
  imports Stresstest_Tool
begin

text \<open>
  The WebSocket load test src/cmd/wsloadtest: reading and stalling clients, an order submitter that
  makes trades happen, and a verdict. \<open>pctile\<close> is \<open>percentile\<close> of theory \<open>Tool_Stats\<close>.
\<close>

section \<open>Data\<close>

record wl_config =
  wcNumClients :: int64
  wcSlowPct :: int64
  wcDuration :: duration
  wcRamp :: duration
  wcOrderRate :: int64
  wcOrderWorkers :: int64
  wcSlowDelay :: duration

record clientResult =
  clID :: int64
  clIsSlow :: bool
  clConnected :: bool
  clConnLatency :: duration
  clSubAcked :: bool
  clMsgsRcvd :: int64
  clKicked :: bool
  clKickLatency :: duration
  clCloseReason :: string

definition new_clientResult :: "int64 \<Rightarrow> bool \<Rightarrow> clientResult" where
  "new_clientResult ident slow =
     \<lparr>clID = ident, clIsSlow = slow, clConnected = False, clConnLatency = 0, clSubAcked = False, clMsgsRcvd = 0,
      clKicked = False, clKickLatency = 0, clCloseReason = []\<rparr>"

record tradeNotif =
  tnStock :: string
  tnReceivedAt :: time

definition wl_stockList :: "string list" where
  "wl_stockList = [''BBCA'', ''BBRI'', ''TLKM'', ''ASII'', ''GOTO'']"

definition wl_basePrice :: "string \<Rightarrow> int64" where
  "wl_basePrice s =
     (if s = ''BBCA'' then 9500 else if s = ''BBRI'' then 5000 else if s = ''TLKM'' then 3500
      else if s = ''ASII'' then 6000 else if s = ''GOTO'' then 100 else 0)"

definition wl_tickSize :: "string \<Rightarrow> int64" where
  "wl_tickSize s =
     (if s \<in> {''BBCA'', ''BBRI'', ''TLKM'', ''ASII''} then 25 else if s = ''GOTO'' then 1 else 0)"

definition alignTick :: "int64 \<Rightarrow> int64 \<Rightarrow> int64" where
  "alignTick price tick = (if tick \<le> 0 then price else mul64 (quot64 price tick) tick)"

definition wl_pct :: "int64 \<Rightarrow> int64 \<Rightarrow> float64 option" where
  "wl_pct n tot = (if tot = 0 then None else Some (share n tot))"

definition wl_max :: "int64 \<Rightarrow> int64 \<Rightarrow> int64" where
  "wl_max a b = (if a > b then a else b)"

definition tradeChCap :: nat where "tradeChCap = 4096"

section \<open>Clients\<close>

text \<open>
  What a normal client does with a message it has read at an instant. The notification is sent
  without blocking, but a send on a closed channel panics.
\<close>

definition normal_message :: "time \<Rightarrow> serverMsg \<Rightarrow> clientResult \<times> tradeNotif channel \<Rightarrow> (clientResult \<times> tradeNotif channel) outcome" where
  "normal_message now msg x =
     (let (res, ch) = x
      in if sgType msg = ''subscribed'' then Return (res\<lparr>clSubAcked := True\<rparr>, ch)
         else if sgType msg = ''market.trade'' then
           (let res = res\<lparr>clMsgsRcvd := add64 (clMsgsRcvd res) 1\<rparr>
            in if sgStock msg \<noteq> []
               then (case try_send tradeChCap ch \<lparr>tnStock = sgStock msg, tnReceivedAt = now\<rparr> of
                       (SendPanic, ch) \<Rightarrow> Panic
                     | (_, ch) \<Rightarrow> Return (res, ch))
               else Return (res, ch))
         else if sgType msg = ''market.ticker'' \<or> sgType msg = ''market.orderbook''
         then Return (res\<lparr>clMsgsRcvd := add64 (clMsgsRcvd res) 1\<rparr>, ch)
         else Return (res, ch))"

text \<open>
  The read loop, for at most \<open>n\<close> messages; \<open>ended\<close> tells whether the context of the test has been
  cancelled.
\<close>

primrec normal_reads ::
  "'w peer \<Rightarrow> ('w \<Rightarrow> bool) \<Rightarrow> nat \<Rightarrow> nat \<Rightarrow> clientResult \<times> tradeNotif channel \<Rightarrow> 'w \<Rightarrow> (clientResult \<times> tradeNotif channel) outcome \<times> 'w" where
  "normal_reads pr ended conn 0 x w = (Return x, w)"
| "normal_reads pr ended conn (Suc n) x w =
     (case prRead pr conn (65 * 10 ^ 9) w of
        (Inl err, w) \<Rightarrow>
          (Return (if \<not> ended w then (fst x)\<lparr>clKicked := True, clCloseReason := err\<rparr> else fst x, snd x), w)
      | (Inr msg, w) \<Rightarrow>
          (case normal_message (prNow pr w) msg x of
             Panic \<Rightarrow> (Panic, w)
           | Return x \<Rightarrow> normal_reads pr ended conn n x w))"

definition runNormalClient ::
  "'w peer \<Rightarrow> ('w \<Rightarrow> bool) \<Rightarrow> nat \<Rightarrow> int64 \<Rightarrow> tradeNotif channel \<Rightarrow> 'w \<Rightarrow> (clientResult \<times> tradeNotif channel) outcome \<times> 'w" where
  "runNormalClient pr ended n ident ch w =
     (let res = new_clientResult ident False; start = prNow pr w
      in case prDial pr (fakeIP ident) w of
           (Inl err, w) \<Rightarrow> (Return (res\<lparr>clCloseReason := err\<rparr>, ch), w)
         | (Inr conn, w) \<Rightarrow>
             (let res = res\<lparr>clConnected := True, clConnLatency := prNow pr w - start\<rparr>;
                  stock = wl_stockList ! nat (ident mod int (length wl_stockList));
                  w = prWrite pr conn (subscribe_json ''market.ticker'' stock) w;
                  w = prWrite pr conn (subscribe_json ''market.trade'' stock) w;
                  (out, w) = normal_reads pr ended conn n (res, ch) w
              in (out, prClose pr conn w)))"

text \<open>A slow client reads one message per \<open>readDelay\<close>; whatever ends its reading before the test does is a kick.\<close>

primrec slow_reads ::
  "'w peer \<Rightarrow> ('w \<Rightarrow> bool) \<Rightarrow> duration \<Rightarrow> time \<Rightarrow> nat \<Rightarrow> nat \<Rightarrow> clientResult \<Rightarrow> 'w \<Rightarrow> clientResult \<times> 'w" where
  "slow_reads pr ended readDelay connectAt conn 0 res w = (res, w)"
| "slow_reads pr ended readDelay connectAt conn (Suc n) res w =
     (let w = prWait pr readDelay w
      in if ended w then (res, w)
         else case prRead pr conn (readDelay + 5 * 10 ^ 9) w of
                (Inl err, w) \<Rightarrow>
                  (if \<not> ended w
                   then res\<lparr>clKicked := True, clKickLatency := prNow pr w - connectAt, clCloseReason := err\<rparr> else res, w)
              | (Inr msg, w) \<Rightarrow>
                  slow_reads pr ended readDelay connectAt conn n (res\<lparr>clMsgsRcvd := add64 (clMsgsRcvd res) 1\<rparr>) w)"

definition slow_subscriptions :: "(string \<times> string) list" where
  "slow_subscriptions =
     concat (map (\<lambda>s. [(''market.ticker'', s), (''market.trade'', s), (''market.orderbook'', s)]) wl_stockList)"

definition runSlowClient :: "'w peer \<Rightarrow> ('w \<Rightarrow> bool) \<Rightarrow> duration \<Rightarrow> nat \<Rightarrow> int64 \<Rightarrow> 'w \<Rightarrow> clientResult \<times> 'w" where
  "runSlowClient pr ended readDelay n ident w =
     (let res = new_clientResult ident True; start = prNow pr w
      in case prDial pr (fakeIP ident) w of
           (Inl err, w) \<Rightarrow> (res\<lparr>clCloseReason := err\<rparr>, w)
         | (Inr conn, w) \<Rightarrow>
             (let res = res\<lparr>clConnected := True, clConnLatency := prNow pr w - start\<rparr>;
                  w = foldl (\<lambda>w (ch, s). prWrite pr conn (subscribe_json ch s) w) w slow_subscriptions;
                  (res, w) = slow_reads pr ended readDelay (prNow pr w) conn n (res\<lparr>clSubAcked := True\<rparr>) w
              in (res, prClose pr conn w)))"

section \<open>Orders\<close>

definition wl_placeOrder :: "'w peer \<Rightarrow> string \<Rightarrow> string \<Rightarrow> int64 \<Rightarrow> int64 \<Rightarrow> 'w \<Rightarrow> (string + int64) \<times> 'w" where
  "wl_placeOrder pr stock side price qty w =
     (let (r, w) = prDo pr \<lparr>hcMethod = ''POST'', hcPath = ''/api/v1/orders'', hcToken = [],
                            hcBody = Some (json_of_limit_order (stock, side, price, qty))\<rparr> w
      in (case r of Inl err \<Rightarrow> Inl err | Inr (status, _) \<Rightarrow> Inr status, w))"

definition order_failed :: "string + int64 \<Rightarrow> bool" where
  "order_failed r = (case r of Inl err \<Rightarrow> True | Inr status \<Rightarrow> status \<ge> 400)"

text \<open>The goroutine of one pair: the instant of the sell order, \<open>None\<close> when one of the orders failed.\<close>

definition submit_pair :: "'w peer \<Rightarrow> string \<Rightarrow> 'w \<Rightarrow> time option \<times> 'w" where
  "submit_pair pr stock w =
     (let price = alignTick (wl_basePrice stock) (wl_tickSize stock);
          (b, w) = wl_placeOrder pr stock ''BUY'' price 100 w
      in if order_failed b then (None, w)
         else let sellAt = prNow pr w;
                  (s, w) = wl_placeOrder pr stock ''SELL'' price 100 w
              in (if order_failed s then None else Some sellAt, w))"

text \<open>
  \<open>runOrderSubmitter\<close>: like the fixed-rate run of loadtest, the submitter waits for a slot after each
  tick, and sees the end of its context only between ticks.
\<close>

record wl_submitter =
  wsuWaiting :: bool
  wsuRunning :: nat
  wsuStarted :: nat
  wsuFinished :: nat
  wsuEnded :: bool
  wsuSubmitted :: int64
  wsuErrors :: int64
  wsuLastSell :: "string \<Rightarrow> time option"

datatype submit_event = SubmitTick | SubmitLaunch | PairDone string "time option" | SubmitEnd

definition submitter_step :: "nat \<Rightarrow> wl_submitter \<Rightarrow> submit_event \<Rightarrow> wl_submitter option" where
  "submitter_step workers s e =
     (case e of
        SubmitTick \<Rightarrow> if wsuWaiting s \<or> wsuEnded s then None else Some (s\<lparr>wsuWaiting := True\<rparr>)
      | SubmitLaunch \<Rightarrow>
          if wsuWaiting s \<and> wsuRunning s < workers
          then Some (s\<lparr>wsuWaiting := False, wsuRunning := Suc (wsuRunning s), wsuStarted := Suc (wsuStarted s)\<rparr>) else None
      | PairDone stock out \<Rightarrow>
          if wsuRunning s = 0 then None
          else let s = s\<lparr>wsuRunning := wsuRunning s - 1, wsuFinished := Suc (wsuFinished s)\<rparr>
               in Some (case out of
                          None \<Rightarrow> s\<lparr>wsuErrors := add64 (wsuErrors s) 1\<rparr>
                        | Some sellAt \<Rightarrow> s\<lparr>wsuSubmitted := add64 (wsuSubmitted s) 1, wsuLastSell := (wsuLastSell s)(stock \<mapsto> sellAt)\<rparr>)
      | SubmitEnd \<Rightarrow> if wsuWaiting s \<or> wsuEnded s then None else Some (s\<lparr>wsuEnded := True\<rparr>))"

interpretation submitter: worker_pool workers "submitter_step workers" wsuRunning wsuStarted wsuFinished for workers
  by unfold_locales (auto simp: submitter_step_def Let_def split: submit_event.splits if_splits option.splits)

text \<open>The latency goroutine on one notification: the time since the last sell order of the stock, if plausible.\<close>

definition record_latency :: "(string \<Rightarrow> time option) \<Rightarrow> duration list \<Rightarrow> tradeNotif \<Rightarrow> duration list" where
  "record_latency lastSell lats notif =
     (case lastSell (tnStock notif) of
        None \<Rightarrow> lats
      | Some sellAt \<Rightarrow>
          let lat = tnReceivedAt notif - sellAt in if lat \<ge> 0 \<and> lat < 10 * 10 ^ 9 then lats @ [lat] else lats)"

section \<open>Report\<close>

record wl_tally =
  taNormalTotal :: int64
  taNormalConnected :: int64
  taNormalSubAcked :: int64
  taNormalKicked :: int64
  taSlowTotal :: int64
  taSlowConnected :: int64
  taSlowKicked :: int64
  taTotalMsgs :: int64
  taConnLats :: "duration list"
  taKickLats :: "duration list"
  taNormalMsgCounts :: "int64 list"

definition tally_start :: wl_tally where
  "tally_start =
     \<lparr>taNormalTotal = 0, taNormalConnected = 0, taNormalSubAcked = 0, taNormalKicked = 0, taSlowTotal = 0, taSlowConnected = 0,
      taSlowKicked = 0, taTotalMsgs = 0, taConnLats = [], taKickLats = [], taNormalMsgCounts = []\<rparr>"

definition tally_add :: "wl_tally \<Rightarrow> clientResult \<Rightarrow> wl_tally" where
  "tally_add a r =
     (let a = (if clConnected r then a\<lparr>taConnLats := taConnLats a @ [clConnLatency r]\<rparr> else a)
      in if clIsSlow r then
           (let a = a\<lparr>taSlowTotal := add64 (taSlowTotal a) 1\<rparr>;
                a = (if clConnected r then a\<lparr>taSlowConnected := add64 (taSlowConnected a) 1\<rparr> else a)
            in if clKicked r
               then a\<lparr>taSlowKicked := add64 (taSlowKicked a) 1, taKickLats := taKickLats a @ [clKickLatency r]\<rparr> else a)
         else
           (let a = a\<lparr>taNormalTotal := add64 (taNormalTotal a) 1\<rparr>;
                a = (if clConnected r
                     then a\<lparr>taNormalConnected := add64 (taNormalConnected a) 1,
                            taNormalMsgCounts := taNormalMsgCounts a @ [clMsgsRcvd r],
                            taTotalMsgs := add64 (taTotalMsgs a) (clMsgsRcvd r)\<rparr> else a);
                a = (if clSubAcked r then a\<lparr>taNormalSubAcked := add64 (taNormalSubAcked a) 1\<rparr> else a)
            in if clKicked r then a\<lparr>taNormalKicked := add64 (taNormalKicked a) 1\<rparr> else a))"

text \<open>The figures of the report; the latencies of a group are printed when there are any.\<close>

record wl_report =
  wrConnected :: "int64 \<times> float64 option"
  wrConnLatency :: "(duration \<times> duration \<times> duration) option"
  wrNormalConnected :: "float64 option"
  wrNormalSubAcked :: "float64 option"
  wrAvgMsgs :: "float64 option"
  wrMinMaxMsgs :: "(int64 \<times> int64) option"
  wrSlowConnected :: "float64 option"
  wrSlowKicked :: "float64 option"
  wrKickLatency :: "(duration \<times> duration \<times> duration) option"
  wrTradeLatency :: "(duration \<times> duration \<times> duration) option"

definition three :: "duration list \<Rightarrow> float64 \<Rightarrow> (duration \<times> duration \<times> duration) option" where
  "three d p = (if length d > 0 then Some (percentile d 50, percentile d 95, percentile d p) else None)"

definition wl_figures :: "wl_config \<Rightarrow> wl_tally \<Rightarrow> duration list \<Rightarrow> wl_report" where
  "wl_figures cfg a tradeLatencies =
     (let totalConnected = add64 (taNormalConnected a) (taSlowConnected a); counts = sort (taNormalMsgCounts a)
      in \<lparr>wrConnected = (totalConnected, wl_pct totalConnected (wcNumClients cfg)), wrConnLatency = three (taConnLats a) 99,
          wrNormalConnected = wl_pct (taNormalConnected a) (taNormalTotal a),
          wrNormalSubAcked = wl_pct (taNormalSubAcked a) (taNormalTotal a),
          wrAvgMsgs = (if taNormalConnected a > 0
                       then Some (fdiv (float_of_int64 (taTotalMsgs a)) (float_of_int64 (taNormalConnected a))) else None),
          wrMinMaxMsgs = (if length counts > 0 then Some (counts ! 0, counts ! (length counts - 1)) else None),
          wrSlowConnected = wl_pct (taSlowConnected a) (taSlowTotal a),
          wrSlowKicked = wl_pct (taSlowKicked a) (wl_max (taSlowConnected a) 1),
          wrKickLatency = three (taKickLats a) 100, wrTradeLatency = three tradeLatencies 99\<rparr>)"

text \<open>The five verdicts of \<open>printReport\<close>, in order.\<close>

definition wl_verdicts :: "wl_config \<Rightarrow> clientResult list \<Rightarrow> int64 \<Rightarrow> int64 \<Rightarrow> duration list \<Rightarrow> bool list" where
  "wl_verdicts cfg results submitted orderErrors tradeLatencies =
     (let a = foldl tally_add tally_start results;
          totalConnected = add64 (taNormalConnected a) (taSlowConnected a);
          connRate = (if wcNumClients cfg > 0 then share totalConnected (wcNumClients cfg) else 0);
          slowKickRate = (if taSlowConnected a > 0 then share (taSlowKicked a) (taSlowConnected a) else 0);
          tot = add64 submitted orderErrors;
          orderOKRate = (if tot > 0 then share submitted tot else 0)
      in [connRate \<ge> 95, taNormalKicked a = 0, slowKickRate \<ge> 50 \<or> taSlowTotal a = 0, orderOKRate \<ge> 90 \<or> tot = 0,
          length tradeLatencies > 0 \<or> submitted = 0])"

definition wl_allPass :: "bool list \<Rightarrow> bool" where
  "wl_allPass verdicts = list_all id verdicts"

section \<open>The program\<close>

text \<open>The numbers of slow and normal clients and the pause between two dials; an error for bad flags.\<close>

definition wl_setup :: "wl_config \<Rightarrow> string + int64 \<times> int64 \<times> duration" where
  "wl_setup cfg =
     (if wcSlowPct cfg < 0 \<or> wcSlowPct cfg > 100 then Inl ''-slow-pct must be between 0 and 100''
      else if wcNumClients cfg \<le> 0 then Inl ''-clients must be > 0''
      else let numSlow = quot64 (mul64 (wcNumClients cfg) (wcSlowPct cfg)) 100;
               numNormal = sub64 (wcNumClients cfg) numSlow;
               rampInterval = (if wcNumClients cfg > 1 \<and> wcRamp cfg > 0 then quot64 (wcRamp cfg) (wcNumClients cfg) else 0)
           in Inr (numSlow, numNormal, rampInterval))"

text \<open>Client \<open>i\<close> is slow when its number is below \<open>numSlow\<close>.\<close>

definition is_slow_client :: "int64 \<Rightarrow> int64 \<Rightarrow> bool" where
  "is_slow_client numSlow i \<longleftrightarrow> i < numSlow"

text \<open>
  The end of the test: \<open>main\<close> cancels the context and at once closes the notification channel, while
  normal clients may be between a read and the handling of what they read.
\<close>

record wl_finish =
  wfHeld :: "nat \<Rightarrow> serverMsg option"
  wfResult :: "nat \<Rightarrow> clientResult"
  wfTradeCh :: "tradeNotif channel"
  wfCancelled :: bool

datatype finish_event = ClientRead nat serverMsg | ClientHandle nat time | MainCancel | MainClose

definition finish_step :: "wl_finish \<Rightarrow> finish_event \<Rightarrow> wl_finish outcome option" where
  "finish_step s e =
     (case e of
        ClientRead i msg \<Rightarrow>
          if wfHeld s i = None \<and> \<not> wfCancelled s then Some (Return (s\<lparr>wfHeld := (wfHeld s)(i \<mapsto> msg)\<rparr>)) else None
      | ClientHandle i now \<Rightarrow>
          (case wfHeld s i of
             None \<Rightarrow> None
           | Some msg \<Rightarrow>
               Some (case normal_message now msg (wfResult s i, wfTradeCh s) of
                       Panic \<Rightarrow> Panic
                     | Return (res, ch) \<Rightarrow>
                         Return (s\<lparr>wfHeld := (wfHeld s)(i := None), wfResult := (wfResult s)(i := res), wfTradeCh := ch\<rparr>)))
      | MainCancel \<Rightarrow> if wfCancelled s then None else Some (Return (s\<lparr>wfCancelled := True\<rparr>))
      | MainClose \<Rightarrow>
          if wfCancelled s \<and> \<not> chClosed (wfTradeCh s)
          then Some (Return (s\<lparr>wfTradeCh := (wfTradeCh s)\<lparr>chClosed := True\<rparr>\<rparr>)) else None)"

primrec finish_run :: "wl_finish \<Rightarrow> finish_event list \<Rightarrow> wl_finish outcome option" where
  "finish_run s [] = Some (Return s)"
| "finish_run s (e # es) =
     (case finish_step s e of None \<Rightarrow> None | Some Panic \<Rightarrow> Some Panic | Some (Return s') \<Rightarrow> finish_run s' es)"

definition finish_start :: wl_finish where
  "finish_start = \<lparr>wfHeld = (\<lambda>_. None), wfResult = (\<lambda>i. new_clientResult (int i) False), wfTradeCh = new_channel, wfCancelled = False\<rparr>"

text \<open>
  The collection of the results, from the results and the time-out in the order in which they
  arrive: no value while it still waits.
\<close>

datatype collect_event = ResultArrived clientResult | CollectTimeout

fun collect_results :: "int64 \<Rightarrow> clientResult list \<Rightarrow> collect_event list \<Rightarrow> clientResult list option" where
  "collect_results n rs [] = (if int (length rs) < n then None else Some rs)"
| "collect_results n rs (ResultArrived r # es) = (if int (length rs) < n then collect_results n (rs @ [r]) es else Some rs)"
| "collect_results n rs (CollectTimeout # es) = Some rs"

section \<open>Results\<close>

text \<open>The collection ends with all results, unless it timed out; it never takes more.\<close>

lemma collect_results_complete:
  "collect_results n rs es = Some out \<Longrightarrow> int (length rs) \<le> n \<Longrightarrow>
   int (length out) \<le> n \<and> (CollectTimeout \<notin> set es \<longrightarrow> int (length out) = n)"
  by (induction n rs es rule: collect_results.induct) (auto split: if_splits)

text \<open>The pairs have valid prices: the base prices are multiples of their ticks.\<close>

lemma pair_order_acceptable:
  assumes "stock \<in> set wl_stockList" and "side = ''BUY'' \<or> side = ''SELL''"
  shows "acceptable (json_of_limit_order (stock, side, alignTick (wl_basePrice stock) (wl_tickSize stock), 100))"
proof -
  have "IsValidStockCode stock" using assms(1) tool_stocks_valid by (auto simp: wl_stockList_def list_all_iff)
  moreover have "list_all (\<lambda>s. alignTick (wl_basePrice s) (wl_tickSize s) = wl_basePrice s) wl_stockList" by code_simp
  then have p: "alignTick (wl_basePrice stock) (wl_tickSize stock) = wl_basePrice stock" using assms(1) by (simp add: list_all_iff)
  moreover have "1 \<le> wl_basePrice stock" "wl_basePrice stock \<le> 999999999"
    using assms(1) by (auto simp: wl_stockList_def wl_basePrice_def)
  ultimately show ?thesis
    unfolding json_of_limit_order_def Let_def prod.case p using assms(2)
    by (intro acceptable_order [of _ stock side "wl_basePrice stock" 100]) (simp_all add: json_of_int_def)
qed

text \<open>A slow client's subscriptions stay below the limit of a client.\<close>

lemma slow_subscriptions_distinct: "distinct slow_subscriptions \<and> length slow_subscriptions = 15"
  by (simp add: slow_subscriptions_def wl_stockList_def)

text \<open>What one client adds to each count.\<close>

lemma tally_add_fields:
  "taNormalTotal (tally_add a r) = (if clIsSlow r then taNormalTotal a else add64 (taNormalTotal a) 1)"
  "taSlowTotal (tally_add a r) = (if clIsSlow r then add64 (taSlowTotal a) 1 else taSlowTotal a)"
  "taNormalConnected (tally_add a r) = (if \<not> clIsSlow r \<and> clConnected r then add64 (taNormalConnected a) 1 else taNormalConnected a)"
  "taSlowConnected (tally_add a r) = (if clIsSlow r \<and> clConnected r then add64 (taSlowConnected a) 1 else taSlowConnected a)"
  "taNormalKicked (tally_add a r) = (if \<not> clIsSlow r \<and> clKicked r then add64 (taNormalKicked a) 1 else taNormalKicked a)"
  "taSlowKicked (tally_add a r) = (if clIsSlow r \<and> clKicked r then add64 (taSlowKicked a) 1 else taSlowKicked a)"
  by (simp_all add: tally_add_def Let_def)

text \<open>The tally counts each client once, on its side.\<close>

lemma tally_counts:
  assumes "length rs < 2 ^ 63"
  shows "taNormalTotal (foldl tally_add tally_start rs) = int (length (filter (\<lambda>r. \<not> clIsSlow r) rs))"
    and "taSlowTotal (foldl tally_add tally_start rs) = int (length (filter clIsSlow rs))"
    and "taNormalConnected (foldl tally_add tally_start rs) = int (length (filter (\<lambda>r. \<not> clIsSlow r \<and> clConnected r) rs))"
    and "taSlowConnected (foldl tally_add tally_start rs) = int (length (filter (\<lambda>r. clIsSlow r \<and> clConnected r) rs))"
    and "taNormalKicked (foldl tally_add tally_start rs) = int (length (filter (\<lambda>r. \<not> clIsSlow r \<and> clKicked r) rs))"
    and "taSlowKicked (foldl tally_add tally_start rs) = int (length (filter (\<lambda>r. clIsSlow r \<and> clKicked r) rs))"
  using assms
proof (induction rs rule: rev_induct)
  case Nil
  {
    case 1 then show ?case by (simp add: tally_start_def)
  next
    case 2 then show ?case by (simp add: tally_start_def)
  next
    case 3 then show ?case by (simp add: tally_start_def)
  next
    case 4 then show ?case by (simp add: tally_start_def)
  next
    case 5 then show ?case by (simp add: tally_start_def)
  next
    case 6 then show ?case by (simp add: tally_start_def)
  }
next
  case (snoc r rs)
  have up: "add64 (int (length (filter P rs))) 1 = int (Suc (length (filter P rs)))" if "length (rs @ [r]) < 2 ^ 63" for P
    using that le_less_trans [OF length_filter_le [of P rs]] by (simp add: add64_id in64_def)
  {
    case 1
    then show ?case using snoc.IH(1) up by (simp add: tally_add_fields)
  next
    case 2
    then show ?case using snoc.IH(2) up by (simp add: tally_add_fields)
  next
    case 3
    then show ?case using snoc.IH(3) up by (simp add: tally_add_fields)
  next
    case 4
    then show ?case using snoc.IH(4) up by (simp add: tally_add_fields)
  next
    case 5
    then show ?case using snoc.IH(5) up by (simp add: tally_add_fields)
  next
    case 6
    then show ?case using snoc.IH(6) up by (simp add: tally_add_fields)
  }
qed

text \<open>Handling a held message panics exactly when it is a trade with a stock and the channel is closed.\<close>

lemma handle_panics_iff:
  assumes "wfHeld s i = Some msg"
  shows "finish_step s (ClientHandle i now) = Some Panic \<longleftrightarrow>
    sgType msg = ''market.trade'' \<and> sgStock msg \<noteq> [] \<and> chClosed (wfTradeCh s)"
  using assms
  by (auto simp: finish_step_def normal_message_def try_send_def Let_def split: outcome.splits prod.splits send_result.splits)

text \<open>A normal client whose connection ends before the test is reported as kicked, and fails the test.\<close>

lemma cut_off_client:
  assumes "prRead pr conn (65 * 10 ^ 9) w = (Inl err, w')" and "\<not> ended w'"
  shows "normal_reads pr ended conn (Suc n) (res, ch) w = (Return (res\<lparr>clKicked := True, clCloseReason := err\<rparr>, ch), w')"
  using assms by simp

lemma kicked_client_fails:
  assumes "r \<in> set rs" and "\<not> clIsSlow r" and "clKicked r" and "length rs < 2 ^ 63"
  shows "\<not> wl_allPass (wl_verdicts cfg rs submitted orderErrors lats)"
proof -
  have "filter (\<lambda>r. \<not> clIsSlow r \<and> clKicked r) rs \<noteq> []" using assms(1-3) by (auto simp: filter_empty_conv)
  then have "taNormalKicked (foldl tally_add tally_start rs) \<noteq> 0" using tally_counts(5) [OF assms(4)] by simp
  then show ?thesis by (simp add: wl_allPass_def wl_verdicts_def Let_def)
qed

end
