(* ===== verification/Engine_Pairs.thy ===== *)
theory Engine_Pairs
  imports Exchange
begin

text \<open>
  Orders of one price and one size. A matcher that is handed such orders, in any order of buys and
  sells, trades the k-th buy order with the k-th sell order, and the side of which there are more
  keeps the latest ones. This is the situation the matching and compliance tools create on purpose.
\<close>

definition resting :: "int64 \<Rightarrow> addr \<Rightarrow> orderEntry" where
  "resting q a = \<lparr>eOrder = a, eRemaining = q\<rparr>"

text \<open>An order at the price with the quantity left.\<close>

definition offers :: "order_heap \<Rightarrow> int64 \<Rightarrow> int64 \<Rightarrow> addr \<Rightarrow> bool" where
  "offers h p q a \<longleftrightarrow> order_wf (h a) \<and> oPrice (h a) = p \<and> RemainingQuantity (h a) = q"

definition done_with :: "order_heap \<Rightarrow> addr \<Rightarrow> bool" where
  "done_with h a \<longleftrightarrow> order_wf (h a) \<and> RemainingQuantity (h a) = 0 \<and> oStatus (h a) = OrderStatusFilled"

text \<open>
  One side after the orders \<open>X\<close> of this side and \<open>Y\<close> of the other, in the order of their arrival: as
  many of \<open>X\<close> as there are of \<open>Y\<close> are filled, the others rest.
\<close>

definition half :: "order_heap \<Rightarrow> int64 \<Rightarrow> int64 \<Rightarrow> addr list \<Rightarrow> addr list \<Rightarrow> orderEntry list \<Rightarrow> bool" where
  "half h p q X Y es \<longleftrightarrow>
     es = map (resting q) (drop (length Y) X) \<and>
     (\<forall>a\<in>set (drop (length Y) X). offers h p q a) \<and> (\<forall>a\<in>set (take (length Y) X). done_with h a)"

text \<open>The state of a matcher after the buy orders \<open>B\<close> and the sell orders \<open>S\<close>.\<close>

definition paired :: "int64 \<Rightarrow> int64 \<Rightarrow> addr list \<Rightarrow> addr list \<Rightarrow> 'w mstate \<Rightarrow> bool" where
  "paired p q B S m \<longleftrightarrow>
     book_inv (heap m) (book m) \<and> half (heap m) p q B S (bids (book m)) \<and> half (heap m) p q S B (asks (book m))"

lemma resting_simps [simp]: "eOrder (resting q a) = a" "eRemaining (resting q a) = q"
  by (simp_all add: resting_def)

lemma filled_done:
  assumes "order_wf o1" and "oFilledQuantity o1 = oFilledQuantity o0 + q" and "oQuantity o1 = oQuantity o0"
    and "order_wf o0" and "RemainingQuantity o0 = q"
  shows "RemainingQuantity o1 = 0 \<and> oStatus o1 = OrderStatusFilled"
  using assms by (auto simp: RemainingQuantity_wf order_wf_def split: if_splits)

text \<open>Matching against an equal entry consumes exactly that entry.\<close>

lemma match_one: "0 < q \<Longrightarrow> ok e \<Longrightarrow> eRemaining e = q \<Longrightarrow> match_spec ok q (e # es) = ([(e, q)], es)"
  by simp

lemma drop_nth: "length xs < length ys \<Longrightarrow> drop (length xs) ys = ys ! length xs # drop (Suc (length xs)) ys"
  by (simp add: Cons_nth_drop_Suc)

lemma take_snoc_nth: "length xs < length ys \<Longrightarrow> take (Suc (length xs)) ys = take (length xs) ys @ [ys ! length xs]"
  by (simp add: take_Suc_conv_app_nth)

lemma zip_take: "length xs \<le> n \<Longrightarrow> zip xs (take n ys) = zip xs ys" "length ys \<le> n \<Longrightarrow> zip (take n xs) ys = zip xs ys"
  by (simp_all add: list_eq_iff_nth_eq)

lemma zip_snoc_left: "length xs < length ys \<Longrightarrow> zip (xs @ [x]) ys = zip xs ys @ [(x, ys ! length xs)]"
  by (simp add: zip_append1 drop_nth zip_take)

lemma zip_snoc_right: "length ys < length xs \<Longrightarrow> zip xs (ys @ [y]) = zip xs ys @ [(xs ! length ys, y)]"
  by (simp add: zip_append2 drop_nth zip_take)

lemma zip_snoc_idle:
  "length ys \<le> length xs \<Longrightarrow> zip (xs @ [x]) ys = zip xs ys" "length xs \<le> length ys \<Longrightarrow> zip xs (ys @ [y]) = zip xs ys"
  by (simp_all add: zip_append1 zip_append2 zip_take)

section \<open>One order\<close>

text \<open>With nothing on the other side an order joins the end of its own.\<close>

lemma takeWhile_uniform: "(\<And>x. x \<in> set xs \<Longrightarrow> P x) \<Longrightarrow> takeWhile P xs = xs \<and> dropWhile P xs = []"
  by (simp add: takeWhile_eq_all_conv dropWhile_eq_Nil_conv)

lemma rests_buy:
  assumes inv: "book_inv (heap m) (book m)" and inc: "incoming_ok (heap m) (book m) a"
    and side: "oSide (heap m a) = SideBuy" and none: "asks (book m) = []"
    and price: "\<forall>e\<in>set (bids (book m)). oPrice (heap m a) \<le> entry_price (heap m) e" and pos: "0 < RemainingQuantity (heap m a)"
  shows "heap (matchOrder d m a) = heap m" and "asks (book (matchOrder d m a)) = []"
    and "bids (book (matchOrder d m a)) = bids (book m) @ [resting (RemainingQuantity (heap m a)) a]"
proof -
  have ph: "match_phase d m a = m" using none side by (simp add: match_phase_def matchBuy.simps bestAsk_def)
  have act: "IsActive (heap m a)" using inc pos order_wf_active by (auto simp: incoming_ok_def)
  have "addOrder (heap m) (book m) a = (book m)\<lparr>index := insert (oID (heap m a)) (index (book m)),
      bids := bids (book m) @ [resting (RemainingQuantity (heap m a)) a]\<rparr>"
    using addOrder_buy [of "heap m" "book m" a] inv inc side price takeWhile_uniform [of "bids (book m)" "\<lambda>e. oPrice (heap m a) \<le> entry_price (heap m) e"]
    by (simp add: book_inv_def book_wf_def incoming_ok_def resting_def)
  then show "heap (matchOrder d m a) = heap m" "asks (book (matchOrder d m a)) = []"
    "bids (book (matchOrder d m a)) = bids (book m) @ [resting (RemainingQuantity (heap m a)) a]"
    using act pos none by (simp_all add: matchOrder_phases ph)
qed

lemma rests_sell:
  assumes inv: "book_inv (heap m) (book m)" and inc: "incoming_ok (heap m) (book m) a"
    and side: "oSide (heap m a) = SideSell" and none: "bids (book m) = []"
    and price: "\<forall>e\<in>set (asks (book m)). entry_price (heap m) e \<le> oPrice (heap m a)" and pos: "0 < RemainingQuantity (heap m a)"
  shows "heap (matchOrder d m a) = heap m" and "bids (book (matchOrder d m a)) = []"
    and "asks (book (matchOrder d m a)) = asks (book m) @ [resting (RemainingQuantity (heap m a)) a]"
proof -
  have ph: "match_phase d m a = m" using none side by (simp add: match_phase_def matchSell.simps bestBid_def)
  have act: "IsActive (heap m a)" using inc pos order_wf_active by (auto simp: incoming_ok_def)
  have "addOrder (heap m) (book m) a = (book m)\<lparr>index := insert (oID (heap m a)) (index (book m)),
      asks := asks (book m) @ [resting (RemainingQuantity (heap m a)) a]\<rparr>"
    using addOrder_sell [of "heap m" "book m" a] inv inc side price takeWhile_uniform [of "asks (book m)" "\<lambda>e. entry_price (heap m) e \<le> oPrice (heap m a)"]
    by (simp add: book_inv_def book_wf_def incoming_ok_def resting_def)
  then show "heap (matchOrder d m a) = heap m" "bids (book (matchOrder d m a)) = []"
    "asks (book (matchOrder d m a)) = asks (book m) @ [resting (RemainingQuantity (heap m a)) a]"
    using act pos none by (simp_all add: matchOrder_phases ph)
qed

text \<open>A new order: at the price, of the size, with an identifier no resting order has.\<close>

definition newcomer :: "int64 \<Rightarrow> int64 \<Rightarrow> 'w mstate \<Rightarrow> addr \<Rightarrow> bool" where
  "newcomer p q m a \<longleftrightarrow> offers (heap m) p q a \<and> Side_IsValid (oSide (heap m a)) \<and> oID (heap m a) \<notin> index (book m)"

lemma newcomer_incoming: "newcomer p q m a \<Longrightarrow> incoming_ok (heap m) (book m) a"
  by (simp add: newcomer_def offers_def incoming_ok_def)

lemma half_prices: "half h p q X Y es \<Longrightarrow> e \<in> set es \<Longrightarrow> entry_price h e = p"
  by (auto simp: half_def offers_def entry_price_def)

text \<open>A new order of the shorter side and its partner leave the book together.\<close>

lemma half_match:
  assumes H: "half h p q X Y xs" "half h p q Y X ys" and more: "length X < length Y" and new: "distinct (a # X @ Y)"
    and dn: "done_with h' a" "done_with h' (Y ! length X)"
    and frame: "\<And>x. x \<noteq> a \<Longrightarrow> x \<noteq> Y ! length X \<Longrightarrow> h' x = h x"
  shows "half h' p q (X @ [a]) Y xs" and "half h' p q Y (X @ [a]) (tl ys)"
proof -
  let ?s = "Y ! length X"
  have Y: "Y = take (length X) Y @ ?s # drop (Suc (length X)) Y" using more by (simp add: id_take_nth_drop)
  have s: "?s \<in> set Y" using more by simp
  have dY: "distinct (take (length X) Y @ ?s # drop (Suc (length X)) Y)" using new Y by (metis distinct.simps(2) distinct_append)
  have "h' x = h x" if "x \<in> set X" for x using that new s by (intro frame) auto
  then show "half h' p q (X @ [a]) Y xs"
    using H(1) more dn(1) by (auto simp: half_def done_with_def)
  have "h' x = h x" if "x \<in> set (take (length X) Y) \<union> set (drop (Suc (length X)) Y)" for x
    using that dY new by (intro frame) (auto dest: in_set_takeD in_set_dropD)
  then show "half h' p q Y (X @ [a]) (tl ys)"
    using H(2) more dn(2) by (auto simp: half_def done_with_def offers_def drop_nth take_snoc_nth)
qed

text \<open>A new order that finds no partner joins the end of its side.\<close>

lemma half_rest:
  assumes "half h p q X Y xs" "half h p q Y X ys" and "length Y \<le> length X" and "offers h p q a"
  shows "half h p q (X @ [a]) Y (xs @ [resting q a])" and "half h p q Y (X @ [a]) ys"
  using assms by (auto simp: half_def)

text \<open>New orders: at the price, of the size, with identifiers of their own.\<close>

definition fresh_orders :: "int64 \<Rightarrow> int64 \<Rightarrow> 'w mstate \<Rightarrow> addr list \<Rightarrow> bool" where
  "fresh_orders p q m as \<longleftrightarrow>
     distinct (map (\<lambda>a. oID (heap m a)) as) \<and>
     (\<forall>a\<in>set as. offers (heap m) p q a \<and> Side_IsValid (oSide (heap m a)) \<and> oID (heap m a) \<notin> index (book m))"

definition buys :: "order_heap \<Rightarrow> addr list \<Rightarrow> addr list" where
  "buys h as = filter (\<lambda>a. oSide (h a) = SideBuy) as"

definition sells :: "order_heap \<Rightarrow> addr list \<Rightarrow> addr list" where
  "sells h as = filter (\<lambda>a. oSide (h a) = SideSell) as"

text \<open>The trade of two partners.\<close>

definition partner_trade :: "'w mstate \<Rightarrow> int64 \<Rightarrow> int64 \<Rightarrow> addr \<times> addr \<Rightarrow> Trade \<Rightarrow> bool" where
  "partner_trade m p q bs tr = trade_of (stockCode m) (heap m (fst bs)) (heap m (snd bs)) q p tr"

text \<open>The effect of a match with one equal order: both are filled, nothing else changes.\<close>

lemma one_fill:
  assumes "filled_by h a [(resting q s, q)] h1" and "heap_frame h h1" and "offers h p q a" "offers h p q s"
  shows "done_with h1 a" and "done_with h1 s" and "x \<noteq> a \<Longrightarrow> x \<noteq> s \<Longrightarrow> h1 x = h x"
proof -
  have F: "order_wf (h1 a)" "oFilledQuantity (h1 a) = oFilledQuantity (h a) + q"
    "order_wf (h1 s)" "oFilledQuantity (h1 s) = oFilledQuantity (h s) + q"
    using assms(1) by (auto simp: filled_by_def)
  show "done_with h1 a" "done_with h1 s"
    using filled_done [OF F(1,2)] filled_done [OF F(3,4)] F(1,3) heap_frame_entries(6) [OF assms(2)] assms(3,4)
    by (simp_all add: done_with_def offers_def)
  show "x \<noteq> a \<Longrightarrow> x \<noteq> s \<Longrightarrow> h1 x = h x" using assms(1) by (auto simp: filled_by_def)
qed

lemma matchOrder_filled:
  assumes "done_with (heap (match_phase d m a)) a"
  shows "heap (matchOrder d m a) = heap (match_phase d m a)" and "book (matchOrder d m a) = book (match_phase d m a)"
  using assms by (simp_all add: matchOrder_phases done_with_def)

context trade_store
begin

lemma matchOrder_world:
  assumes "I (world m)" "book_inv (heap m) (book m)" "incoming_ok (heap m) (book m) a"
  shows "I (world (matchOrder d m a)) \<and> trades (world (matchOrder d m a)) = trades (world (match_phase d m a))"
proof -
  have "I (world (match_phase d m a))"
    using matchBuy_trades(1) [OF assms] matchSell_trades(1) [OF assms] assms(1) by (auto simp: match_phase_def)
  then show ?thesis using publishOrderBook_keeps by (simp add: matchOrder_def match_phase_def [symmetric] Let_def)
qed

text \<open>A buy order that meets the oldest ask.\<close>

lemma paired_buy_match:
  assumes P: "paired p q B S m" and N: "newcomer p q m a" and I: "I (world m)" and q: "0 < q"
    and side: "oSide (heap m a) = SideBuy" and more: "length B < length S" and new: "distinct (a # B @ S)"
  defines "m' \<equiv> matchOrder d m a"
  shows "paired p q (B @ [a]) S m' \<and> (\<forall>x. x \<noteq> a \<longrightarrow> x \<notin> set S \<longrightarrow> heap m' x = heap m x) \<and>
    (\<exists>tr. trades (world m') = trades (world m) @ [tr] \<and> partner_trade m p q (a, S ! length B) tr)"
proof -
  let ?s = "S ! length B"
  define m1 where "m1 = match_phase d m a"
  define ok where "ok = (\<lambda>e. entry_price (heap m) e \<le> oPrice (heap m a))"
  have inv: "book_inv (heap m) (book m)" and inc: "incoming_ok (heap m) (book m) a"
    and H: "half (heap m) p q B S (bids (book m))" "half (heap m) p q S B (asks (book m))"
    using P newcomer_incoming [OF N] by (simp_all add: paired_def)
  have a: "offers (heap m) p q a" and s: "offers (heap m) p q ?s" using N H(2) more by (simp_all add: newcomer_def half_def drop_nth)
  have asks: "asks (book m) = resting q ?s # tl (asks (book m))" using H(2) more by (simp add: half_def drop_nth)
  have ms: "match_spec ok (RemainingQuantity (heap m a)) (asks (book m)) = ([(resting q ?s, q)], tl (asks (book m)))"
    by (subst asks) (use q a s in \<open>simp add: ok_def entry_price_def offers_def\<close>)
  have ph: "match_phase d m a = matchBuy d m a" using side by (simp add: match_phase_def)
  note T = matchBuy_trades [OF I inv inc, folded ok_def, unfolded ms fst_conv snd_conv, folded ph m1_def]
  have fr: "heap_frame (heap m) (heap m1)" using match_phase_ok [OF inv inc, of d] by (simp add: phase_ok_def m1_def)
  note F = one_fill [OF T(2) fr a s]
  note R = matchOrder_filled [of d m a, folded m1_def m'_def, OF F(1)]
  have "paired p q (B @ [a]) S m'"
    using half_match [OF H more new F(1,2), OF F(3)] matchOrder_inv(1) [OF inv inc, of d] T(3)
    by (simp add: paired_def R m'_def [symmetric])
  moreover have "\<exists>tr. trades (world m') = trades (world m) @ [tr] \<and> partner_trade m p q (a, ?s) tr"
    using T(4) matchOrder_world [OF I inv inc] s
    by (auto simp: m'_def m1_def partner_trade_def offers_def entry_price_def list_all2_Cons1)
  moreover have "heap m' x = heap m x" if "x \<noteq> a" "x \<notin> set S" for x
    using F(3) [of x] that nth_mem [OF more] by (auto simp: R)
  ultimately show ?thesis by blast
qed

text \<open>A sell order that meets the oldest bid.\<close>

lemma paired_sell_match:
  assumes P: "paired p q B S m" and N: "newcomer p q m a" and I: "I (world m)" and q: "0 < q"
    and side: "oSide (heap m a) = SideSell" and more: "length S < length B" and new: "distinct (a # S @ B)"
  defines "m' \<equiv> matchOrder d m a"
  shows "paired p q B (S @ [a]) m' \<and> (\<forall>x. x \<noteq> a \<longrightarrow> x \<notin> set B \<longrightarrow> heap m' x = heap m x) \<and>
    (\<exists>tr. trades (world m') = trades (world m) @ [tr] \<and> partner_trade m p q (B ! length S, a) tr)"
proof -
  let ?s = "B ! length S"
  define m1 where "m1 = match_phase d m a"
  define ok where "ok = (\<lambda>e. oPrice (heap m a) \<le> entry_price (heap m) e)"
  have inv: "book_inv (heap m) (book m)" and inc: "incoming_ok (heap m) (book m) a"
    and H: "half (heap m) p q S B (asks (book m))" "half (heap m) p q B S (bids (book m))"
    using P newcomer_incoming [OF N] by (simp_all add: paired_def)
  have a: "offers (heap m) p q a" and s: "offers (heap m) p q ?s" using N H(2) more by (simp_all add: newcomer_def half_def drop_nth)
  have bids: "bids (book m) = resting q ?s # tl (bids (book m))" using H(2) more by (simp add: half_def drop_nth)
  have ms: "match_spec ok (RemainingQuantity (heap m a)) (bids (book m)) = ([(resting q ?s, q)], tl (bids (book m)))"
    by (subst bids) (use q a s in \<open>simp add: ok_def entry_price_def offers_def\<close>)
  have ph: "match_phase d m a = matchSell d m a" using side by (simp add: match_phase_def)
  note T = matchSell_trades [OF I inv inc, folded ok_def, unfolded ms fst_conv snd_conv, folded ph m1_def]
  have fr: "heap_frame (heap m) (heap m1)" using match_phase_ok [OF inv inc, of d] by (simp add: phase_ok_def m1_def)
  note F = one_fill [OF T(2) fr a s]
  note R = matchOrder_filled [of d m a, folded m1_def m'_def, OF F(1)]
  have "paired p q B (S @ [a]) m'"
    using half_match [OF H more new F(1,2), OF F(3)] matchOrder_inv(1) [OF inv inc, of d] T(3)
    by (simp add: paired_def R m'_def [symmetric])
  moreover have "\<exists>tr. trades (world m') = trades (world m) @ [tr] \<and> partner_trade m p q (?s, a) tr"
    using T(4) matchOrder_world [OF I inv inc] s
    by (auto simp: m'_def m1_def partner_trade_def offers_def entry_price_def list_all2_Cons1)
  moreover have "heap m' x = heap m x" if "x \<noteq> a" "x \<notin> set B" for x
    using F(3) [of x] that nth_mem [OF more] by (auto simp: R)
  ultimately show ?thesis by blast
qed

text \<open>What one order does to the two sides, and the trades it adds.\<close>

definition pair_step :: "int64 \<Rightarrow> int64 \<Rightarrow> 'w mstate \<Rightarrow> addr list \<Rightarrow> addr list \<Rightarrow> addr list \<Rightarrow> addr list \<Rightarrow> 'w mstate \<Rightarrow> bool" where
  "pair_step p q m B S B' S' m' \<longleftrightarrow>
     paired p q B' S' m' \<and> (\<forall>x. x \<notin> set (B' @ S') \<longrightarrow> heap m' x = heap m x) \<and>
     take (length (zip B S)) (zip B' S') = zip B S \<and>
     (\<exists>ts. trades (world m') = trades (world m) @ ts \<and>
        list_all2 (partner_trade m p q) (drop (length (zip B S)) (zip B' S')) ts)"

lemma buy_step:
  assumes P: "paired p q B S m" and N: "newcomer p q m a" and I: "I (world m)" and q: "0 < q" and new: "distinct (a # B @ S)"
    and side: "oSide (heap m a) = SideBuy"
  shows "pair_step p q m B S (B @ [a]) S (matchOrder d m a)"
proof (cases "length B < length S")
  case True
  show ?thesis using paired_buy_match [OF P N I q side True new]
    by (auto simp: pair_step_def zip_snoc_left [OF True] min_absorb1 less_imp_le [OF True])
next
  case False
  have inv: "book_inv (heap m) (book m)" and inc: "incoming_ok (heap m) (book m) a"
    and H: "half (heap m) p q B S (bids (book m))" "half (heap m) p q S B (asks (book m))"
    using P newcomer_incoming [OF N] by (simp_all add: paired_def)
  have off: "offers (heap m) p q a" using N by (simp add: newcomer_def)
  have none: "asks (book m) = []" using H(2) False by (simp add: half_def)
  note r = rests_buy [OF inv inc side none, of d]
  have "match_phase d m a = m" using side none by (simp add: match_phase_def matchBuy.simps bestAsk_def)
  then have "trades (world (matchOrder d m a)) = trades (world m)" using matchOrder_world [OF I inv inc] by simp
  moreover have "paired p q (B @ [a]) S (matchOrder d m a)"
    using half_rest [OF H _ off] False matchOrder_inv(1) [OF inv inc, of d] r none off q half_prices [OF H(1)]
    by (simp add: paired_def offers_def)
  ultimately show ?thesis using False r(1) off q half_prices [OF H(1)] by (simp add: pair_step_def zip_snoc_idle offers_def)
qed

lemma sell_step:
  assumes P: "paired p q B S m" and N: "newcomer p q m a" and I: "I (world m)" and q: "0 < q" and new: "distinct (a # S @ B)"
    and side: "oSide (heap m a) = SideSell"
  shows "pair_step p q m B S B (S @ [a]) (matchOrder d m a)"
proof (cases "length S < length B")
  case True
  show ?thesis using paired_sell_match [OF P N I q side True new]
    by (auto simp: pair_step_def zip_snoc_right [OF True] min_absorb2 less_imp_le [OF True])
next
  case False
  have inv: "book_inv (heap m) (book m)" and inc: "incoming_ok (heap m) (book m) a"
    and H: "half (heap m) p q B S (bids (book m))" "half (heap m) p q S B (asks (book m))"
    using P newcomer_incoming [OF N] by (simp_all add: paired_def)
  have off: "offers (heap m) p q a" using N by (simp add: newcomer_def)
  have none: "bids (book m) = []" using H(1) False by (simp add: half_def)
  note r = rests_sell [OF inv inc side none, of d]
  have "match_phase d m a = m" using side none by (simp add: match_phase_def matchSell.simps bestBid_def)
  then have "trades (world (matchOrder d m a)) = trades (world m)" using matchOrder_world [OF I inv inc] by simp
  moreover have "paired p q B (S @ [a]) (matchOrder d m a)"
    using half_rest [OF H(2,1) _ off] False matchOrder_inv(1) [OF inv inc, of d] r none off q half_prices [OF H(2)]
    by (simp add: paired_def offers_def)
  ultimately show ?thesis using False r(1) off q half_prices [OF H(2)] by (simp add: pair_step_def zip_snoc_idle offers_def)
qed

text \<open>The state of a run that started in \<open>m0\<close>.\<close>

definition paired_run :: "int64 \<Rightarrow> int64 \<Rightarrow> 'w mstate \<Rightarrow> addr list \<Rightarrow> addr list \<Rightarrow> 'w mstate \<Rightarrow> bool" where
  "paired_run p q m0 B S m \<longleftrightarrow>
     paired p q B S m \<and> I (world m) \<and> heap_frame (heap m0) (heap m) \<and> stockCode m = stockCode m0 \<and>
     (\<forall>x. x \<notin> set (B @ S) \<longrightarrow> heap m x = heap m0 x) \<and>
     index (book m) \<subseteq> index (book m0) \<union> (\<lambda>a. oID (heap m0 a)) ` set (B @ S) \<and>
     (\<exists>ts. trades (world m) = trades (world m0) @ ts \<and> list_all2 (partner_trade m0 p q) (zip B S) ts)"

lemma partner_frame:
  "heap_frame (heap m0) (heap m) \<Longrightarrow> stockCode m = stockCode m0 \<Longrightarrow> partner_trade m p q = partner_trade m0 p q"
  by (simp add: partner_trade_def fun_eq_iff trade_of_frame)

lemma paired_run_step:
  assumes R: "paired_run p q m0 B S m" and inc: "incoming_ok (heap m) (book m) a"
    and step: "pair_step p q m B S B' S' (matchOrder d m a)" and sets: "set (B' @ S') = insert a (set (B @ S))"
  shows "paired_run p q m0 B' S' (matchOrder d m a)"
proof -
  let ?m = "matchOrder d m a"
  have P: "paired p q B S m" and I: "I (world m)" and fr: "heap_frame (heap m0) (heap m)" and sc: "stockCode m = stockCode m0"
    and inv: "book_inv (heap m) (book m)"
    using R by (simp_all add: paired_run_def paired_def)
  obtain ts where ts: "trades (world m) = trades (world m0) @ ts" "list_all2 (partner_trade m0 p q) (zip B S) ts"
    using R by (auto simp: paired_run_def)
  obtain ts' where ts': "trades (world ?m) = trades (world m) @ ts'"
    "list_all2 (partner_trade m0 p q) (drop (length (zip B S)) (zip B' S')) ts'"
    using step partner_frame [OF fr sc] by (auto simp: pair_step_def)
  have "take (length (zip B S)) (zip B' S') = zip B S" using step unfolding pair_step_def by blast
  then have "list_all2 (partner_trade m0 p q) (zip B' S') (ts @ ts')"
    using list_all2_appendI [OF ts(2) ts'(2)] by (metis append_take_drop_id)
  moreover have "index (book ?m) \<subseteq> index (book m0) \<union> (\<lambda>a. oID (heap m0 a)) ` set (B' @ S')"
    using matchOrder_inv(6) [OF inv inc, of d] R heap_frame_entries(5) [OF fr] unfolding sets by (auto simp: paired_run_def)
  moreover have "heap_frame (heap m0) (heap ?m)" using heap_frame_trans [OF fr matchOrder_inv(3) [OF inv inc, of d]] .
  moreover have "\<forall>x. x \<notin> set (B' @ S') \<longrightarrow> heap ?m x = heap m0 x"
    using step R unfolding pair_step_def paired_run_def sets by (metis insert_iff)
  ultimately show ?thesis
    using step matchOrder_world [OF I inv inc] matchOrder_inv(4) [OF inv inc, of d] sc ts(1) ts'(1)
    by (auto simp: paired_run_def pair_step_def)
qed

lemma foldl_paired:
  assumes q: "0 < q" and fresh: "fresh_orders p q m0 as" and R: "paired_run p q m0 B S m" and dist: "distinct (as @ B @ S)"
    and ids: "\<And>a b. a \<in> set as \<Longrightarrow> b \<in> set (B @ S) \<Longrightarrow> oID (heap m0 a) \<noteq> oID (heap m0 b)"
  shows "paired_run p q m0 (B @ buys (heap m0) as) (S @ sells (heap m0) as) (foldl (matchOrder d) m as)"
  using fresh R dist ids
proof (induction as arbitrary: B S m)
  case (Cons a as)
  note F = Cons.prems(1) and R = Cons.prems(2)
  have out: "a \<notin> set (B @ S)" using Cons.prems(3) by simp
  then have ha: "heap m a = heap m0 a" using R by (simp add: paired_run_def)
  have "oID (heap m0 a) \<notin> index (book m)"
    using R F Cons.prems(4) [of a] by (fastforce simp: paired_run_def fresh_orders_def)
  then have N: "newcomer p q m a" using F by (simp add: newcomer_def fresh_orders_def offers_def ha)
  have P: "paired p q B S m" and I: "I (world m)" using R by (simp_all add: paired_run_def)
  have ids': "oID (heap m0 x) \<noteq> oID (heap m0 y)" if "x \<in> set as" "y \<in> insert a (set (B @ S))" for x y
    using that F Cons.prems(4) [of x y] by (auto simp: fresh_orders_def) (metis imageI)
  have F': "fresh_orders p q m0 as" using F by (simp add: fresh_orders_def)
  note go = Cons.IH [OF F' paired_run_step [OF R newcomer_incoming [OF N]]]
  consider "oSide (heap m0 a) = SideBuy" | "oSide (heap m0 a) = SideSell" using F by (auto simp: fresh_orders_def Side_IsValid_def)
  then show ?case
  proof cases
    case 1
    then have "pair_step p q m B S (B @ [a]) S (matchOrder d m a)"
      using Cons.prems(3) by (intro buy_step [OF P N I q]) (simp_all add: ha)
    from go [OF this] show ?thesis using Cons.prems(3) ids' 1 by (fastforce simp: buys_def sells_def)
  next
    case 2
    then have "pair_step p q m B S B (S @ [a]) (matchOrder d m a)"
      using Cons.prems(3) by (intro sell_step [OF P N I q]) (auto simp: ha)
    from go [OF this] show ?thesis using Cons.prems(3) ids' 2 by (fastforce simp: buys_def sells_def)
  qed
qed (simp add: buys_def sells_def)

text \<open>The run from a book that holds such orders on one side at most.\<close>

lemma orders_trade_in_pairs:
  assumes q: "0 < q" and P: "paired p q B S m" and one: "B = [] \<or> S = []" and I: "I (world m)"
    and fresh: "fresh_orders p q m as" and dist: "distinct (as @ B @ S)"
    and ids: "\<And>a b. a \<in> set as \<Longrightarrow> b \<in> set (B @ S) \<Longrightarrow> oID (heap m a) \<noteq> oID (heap m b)"
  shows "paired_run p q m (B @ buys (heap m) as) (S @ sells (heap m) as) (foldl (matchOrder d) m as)"
proof -
  have "paired_run p q m B S m" using P I one by (auto simp: paired_run_def)
  from foldl_paired [OF q fresh this dist ids] show ?thesis .
qed

end

end
