(* ===== verification/Ws_Pumps.thy ===== *)
theory Ws_Pumps
  imports WsServer
begin

text \<open>
  The two goroutines of a WebSocket client (src/internal/transport/ws/client.go) with their deadlines
  and pings. Theory \<open>WsServer\<close> has what they do to the hub, one step at a time; here a connection is
  followed through time. The WebSocket library is third-party: its \<open>Read\<close> is an argument of \<open>readPump\<close>,
  and \<open>documented_Read\<close> states what its documentation promises: it returns data messages only,
  consuming control frames on the way, and fails when its context ends.
\<close>

section \<open>Constants\<close>

definition writeWait :: duration where "writeWait = 10 * 10 ^ 9"

definition pongWait :: duration where "pongWait = 60 * 10 ^ 9"

definition pingPeriod :: duration where "pingPeriod = 54 * 10 ^ 9"

section \<open>Reading\<close>

text \<open>
  What arrives on a connection, with its instant: a data message, decoded or not, with the time its
  handling takes; a control frame; the end of the connection.
\<close>

datatype inbound = Data "ClientMessage option" duration | Control | Closed

datatype read_result = ReadData "ClientMessage option" time duration "(time \<times> inbound) list" | ReadError time

text \<open>\<open>conn.Read\<close>: the present, the deadline of the context, and what will arrive on the connection.\<close>

type_synonym reader = "time \<Rightarrow> time \<Rightarrow> (time \<times> inbound) list \<Rightarrow> read_result"

text \<open>
  \<open>readPump\<close>: the messages it hands to \<open>handleMessage\<close>, and the instant at which it returns; at most
  \<open>n\<close> reads are followed.
\<close>

primrec readPump :: "reader \<Rightarrow> nat \<Rightarrow> time \<Rightarrow> (time \<times> inbound) list \<Rightarrow> (time \<times> ClientMessage option) list \<times> time option" where
  "readPump rd 0 now fs = ([], None)"
| "readPump rd (Suc n) now fs =
     (case rd now (now + pongWait) fs of
        ReadError t \<Rightarrow> ([], Some t)
      | ReadData m t h rest \<Rightarrow> (let (ms, e) = readPump rd n (t + h) rest in ((t, m) # ms, e)))"

definition documented_Read :: "reader \<Rightarrow> bool" where
  "documented_Read rd \<longleftrightarrow>
     (\<forall>now deadline fs. list_all (\<lambda>f. snd f = Control) fs \<longrightarrow> rd now deadline fs = ReadError deadline) \<and>
     (\<forall>now deadline t m h fs. t < deadline \<longrightarrow> rd now deadline ((t, Data m h) # fs) = ReadData m (max now t) h fs) \<and>
     (\<forall>now deadline fs m t h rest. rd now deadline fs = ReadData m t h rest \<longrightarrow> length rest < length fs)"

lemma documented_Read_rules:
  assumes "documented_Read rd"
  shows "list_all (\<lambda>f. snd f = Control) fs \<Longrightarrow> rd now deadline fs = ReadError deadline"
    and "t < deadline \<Longrightarrow> rd now deadline ((t, Data m h) # fs) = ReadData m (max now t) h fs"
    and "rd now deadline fs = ReadData m t' h rest \<Longrightarrow> length rest < length fs"
  using assms unfolding documented_Read_def by blast+

text \<open>Every read takes something off the connection, so the pump returns.\<close>

lemma readPump_returns:
  assumes "documented_Read rd"
  shows "length fs < n \<Longrightarrow> snd (readPump rd n now fs) \<noteq> None"
proof (induction n arbitrary: now fs)
  case (Suc n)
  show ?case
  proof (cases "rd now (now + pongWait) fs")
    case (ReadData m t h rest)
    then have "snd (readPump rd n (t + h) rest) \<noteq> None"
      using Suc documented_Read_rules(3) [OF assms ReadData] by simp
    then show ?thesis using ReadData by (auto split: prod.split)
  qed simp
qed simp

lemma readPump_silent:
  "documented_Read rd \<Longrightarrow> list_all (\<lambda>f. snd f = Control) fs \<Longrightarrow> readPump rd (Suc n) now fs = ([], Some (now + pongWait))"
  by (simp add: documented_Read_rules(1))

lemma readPump_data:
  "documented_Read rd \<Longrightarrow> now \<le> t \<Longrightarrow> t < now + pongWait \<Longrightarrow>
   readPump rd (Suc n) now ((t, Data m h) # fs) = (let (ms, e) = readPump rd n (t + h) fs in ((t, m) # ms, e))"
  by (simp add: documented_Read_rules(2))

text \<open>A client that sends nothing after its first messages is dropped after the deadline.\<close>

lemma readPump_listener:
  assumes "documented_Read rd" and "now \<le> t1" "t1 < now + pongWait" "t1 + h1 \<le> t2" "t2 < t1 + h1 + pongWait"
    and "list_all (\<lambda>f. snd f = Control) fs"
  shows "readPump rd (Suc (Suc (Suc n))) now ((t1, Data m1 h1) # (t2, Data m2 h2) # fs) =
    ([(t1, m1), (t2, m2)], Some (t2 + h2 + pongWait))"
  using assms by (simp add: readPump_data readPump_silent del: readPump.simps)

text \<open>A connection that behaves as documented.\<close>

fun conn_Read :: reader where
  "conn_Read now deadline [] = ReadError deadline"
| "conn_Read now deadline ((t, f) # fs) =
     (if deadline \<le> t then ReadError deadline
      else case f of
             Control \<Rightarrow> conn_Read now deadline fs
           | Closed \<Rightarrow> ReadError (max now t)
           | Data m h \<Rightarrow> ReadData m (max now t) h fs)"

lemma conn_Read_shorter: "conn_Read now deadline fs = ReadData m t h rest \<Longrightarrow> length rest < length fs"
  by (induction now deadline fs rule: conn_Read.induct) (auto split: if_splits inbound.splits)

lemma conn_Read_silent: "list_all (\<lambda>f. snd f = Control) fs \<Longrightarrow> conn_Read now deadline fs = ReadError deadline"
  by (induction now deadline fs rule: conn_Read.induct) auto

lemma conn_Read_documented: "documented_Read conn_Read"
  by (simp add: documented_Read_def conn_Read_silent conn_Read_shorter)

section \<open>Writing\<close>

text \<open>
  What \<open>writePump\<close> meets, in order: a message from its channel, or its end, and a tick; the flag says
  whether the write or the ping succeeds within \<open>writeWait\<close>.
\<close>

datatype write_event = Outgoing "ServerMessage option" bool | PingTick bool

datatype pump_exit = CloseHandshake | CloseNow

fun writePump :: "write_event list \<Rightarrow> ServerMessage list \<times> pump_exit option" where
  "writePump [] = ([], None)"
| "writePump (Outgoing None ok # es) = ([], Some CloseHandshake)"
| "writePump (Outgoing (Some m) ok # es) = (if ok then (let (ms, x) = writePump es in (m # ms, x)) else ([], Some CloseNow))"
| "writePump (PingTick ok # es) = (if ok then writePump es else ([], Some CloseNow))"

definition taken :: "write_event list \<Rightarrow> ServerMessage list" where
  "taken es = concat (map (\<lambda>e. case e of Outgoing (Some m) ok \<Rightarrow> [m] | _ \<Rightarrow> []) es)"

text \<open>What is written is what was queued, in order, up to the first failure or the end of the channel.\<close>

lemma writePump_prefix: "\<exists>rest. taken es = fst (writePump es) @ rest"
  by (induction es rule: writePump.induct) (auto simp: taken_def split: prod.split)

lemma writePump_complete:
  "list_all (\<lambda>e. case e of Outgoing m ok \<Rightarrow> m \<noteq> None \<and> ok | PingTick ok \<Rightarrow> ok) es \<Longrightarrow> writePump es = (taken es, None)"
  by (induction es rule: writePump.induct) (auto simp: taken_def)

end
