(* ===== verification/Tool_Properties.thy ===== *)
theory Tool_Properties
  imports Compliance_Tool Matchtest_Tool Wsloadtest_Tool Engine_Pairs Engine_Properties Api_Properties Ws_Pumps
begin

text \<open>
  The properties of the test tools and of the exchange under them: what a stream of equal orders does
  to a matcher, what the tools' numbers and verdicts mean, and how their clients fare with the
  modelled server.
\<close>

section \<open>Equal orders\<close>

text \<open>A sample: a buy order of 200 of which 100 are filled, and new orders of 100, all at 3500.\<close>

definition pair_heap :: order_heap where
  "pair_heap a =
     (if a = 0 then (sample_order ''old'' SideBuy 3500 200)\<lparr>oFilledQuantity := 100, oStatus := OrderStatusPartial\<rparr>
      else if a = 1 then sample_order ''b1'' SideBuy 3500 100
      else if a = 2 then sample_order ''s2'' SideSell 3500 100
      else if a = 3 then sample_order ''s3'' SideSell 3500 100
      else sample_order ''b4'' SideBuy 3500 100)"

definition pair_state :: "orderEntry list \<Rightarrow> string set \<Rightarrow> memory_world mstate" where
  "pair_state es ids =
     \<lparr>stockCode = ''TLKM'', book = \<lparr>bookStockCode = ''TLKM'', bids = es, asks = [], index = ids\<rparr>, heap = pair_heap, world = sample_world\<rparr>"

lemma pair_fresh: "fresh_orders 3500 100 (pair_state es {}) [1, 2, 3]" "fresh_orders 3500 100 (pair_state es {''old''}) [1, 2]"
  by (auto simp: fresh_orders_def pair_state_def pair_heap_def offers_def sample_order_def order_wf_def in64_def
      RemainingQuantity_def sub64_def wrap64_def Side_IsValid_def OrderStatusOpen_def OrderStatusFilled_def OrderStatusPartial_def SideBuy_def SideSell_def)

text \<open>
  C10: orders of one price and one size trade in pairs, first come, first served. Handed to a matcher
  with an empty book in any order of buys and sells, the k-th buy order trades with the k-th sell
  order for the whole size at the common price, in that sequence; both become FILLED; what is left
  of the longer side rests in the book in the order of arrival, and the other side of the book is empty.
\<close>

theorem equal_orders_trade_in_pairs:
  assumes "mem_ok uuid (world m)" and "book_inv (heap m) (book m)" and "bids (book m) = []" and "asks (book m) = []"
    and "0 < q" and "fresh_orders p q m as"
    and "B = buys (heap m) as" and "S = sells (heap m) as" and "m' = foldl (matchOrder (memory_deps uuid clock)) m as"
  shows "(\<exists>ts. trAll (wTrades (world m')) = trAll (wTrades (world m)) @ ts \<and>
        list_all2 (\<lambda>(b, s). trade_of (stockCode m) (heap m b) (heap m s) q p) (zip B S) ts) \<and>
    bids (book m') = map (resting q) (drop (length S) B) \<and> asks (book m') = map (resting q) (drop (length B) S) \<and>
    (\<forall>a\<in>set (take (length S) B) \<union> set (take (length B) S). oStatus (heap m' a) = OrderStatusFilled \<and> RemainingQuantity (heap m' a) = 0)"
proof -
  have P: "paired p q [] [] m" using assms(2-4) by (simp add: paired_def half_def)
  have "distinct as" using assms(6) by (simp add: fresh_orders_def distinct_map)
  then have R: "mem.paired_run uuid p q m B S m'"
    using mem.orders_trade_in_pairs [OF assms(5) P _ assms(1,6)] by (simp add: assms(7-9))
  then have "\<exists>ts. trAll (wTrades (world m')) = trAll (wTrades (world m)) @ ts \<and> list_all2 (partner_trade m p q) (zip B S) ts"
    by (simp add: mem.paired_run_def)
  moreover have "partner_trade m p q = (\<lambda>(b, s). trade_of (stockCode m) (heap m b) (heap m s) q p)"
    by (simp add: fun_eq_iff partner_trade_def)
  ultimately show ?thesis using R by (auto simp: mem.paired_run_def paired_def half_def done_with_def)
qed

lemma pair_state_sel [simp]:
  "heap (pair_state es ids) = pair_heap" "world (pair_state es ids) = sample_world" "stockCode (pair_state es ids) = ''TLKM''"
  "bids (book (pair_state es ids)) = es" "asks (book (pair_state es ids)) = []" "index (book (pair_state es ids)) = ids"
  by (simp_all add: pair_state_def)

lemma pair_inv: "book_inv pair_heap (book (pair_state [] {}))" "book_inv pair_heap (book (pair_state [resting 100 0] {''old''}))"
  by (code_simp, code_simp)

theorem equal_orders_trade_in_pairs_witness:
  "asks (book (foldl (matchOrder sample_deps) (pair_state [] {}) [1, 2, 3])) = [resting 100 3] \<and>
   oStatus (heap (foldl (matchOrder sample_deps) (pair_state [] {}) [1, 2, 3]) 1) = OrderStatusFilled"
proof -
  have "buys pair_heap [1, 2, 3] = [1]" "sells pair_heap [1, 2, 3] = [2, 3]" by code_simp+
  then show ?thesis
    using equal_orders_trade_in_pairs [of sample_uuid "pair_state [] {}" 100 3500 "[1, 2, 3]" _ _ _ sample_clock, OF _ _ _ _ _ pair_fresh(1) refl refl refl]
      sample_mem_ok pair_inv(1) by (simp add: sample_deps_def)
qed

text \<open>
  C39: a resting bid that an earlier run has left takes the next sell order, and the buy order that
  was meant to be its partner is not filled. The compliance tool leaves such a bid: the buy order of
  its partial-fill check is for 200, the sell order for 100, at the price of all its orders. So its
  check that the buy order becomes FILLED fails when it is run again.
\<close>

theorem leftover_bid_takes_the_sell_of_the_next_run:
  assumes "mem_ok uuid (world m)" and "book_inv (heap m) (book m)" and "bids (book m) = [resting 100 x]" and "asks (book m) = []"
    and "oPrice (heap m x) = 3500" and "RemainingQuantity (heap m x) = 100"
    and "fresh_orders 3500 100 m [b, s]" and "oSide (heap m b) = SideBuy" and "oSide (heap m s) = SideSell"
    and "m' = foldl (matchOrder (memory_deps uuid clock)) m [b, s]"
  shows "(\<exists>tr. trAll (wTrades (world m')) = trAll (wTrades (world m)) @ [tr] \<and> tBuyOrderID tr = oID (heap m x) \<and>
        tSellOrderID tr = oID (heap m s)) \<and>
    bids (book m') = [resting 100 b] \<and> order_is ''FILLED'' (as_object (json_of_Order ft (heap m' s))) \<and>
    \<not> order_is ''FILLED'' (as_object (json_of_Order ft (heap m' b)))"
proof -
  have wf: "book_wf (heap m) (book m)" and backed: "book_backed (heap m) (book m)" using assms(2) by (simp_all add: book_inv_def)
  have x: "offers (heap m) 3500 100 x" "oID (heap m x) \<in> index (book m)"
    using wf backed assms(3-6) by (auto simp: offers_def book_backed_def book_rel_def book_wf_def book_entries_def entry_id_def)
  have P: "paired 3500 100 [x] [] m" using assms(2-4) x by (simp add: paired_def half_def)
  have ids: "oID (heap m b) \<noteq> oID (heap m s)" "oID (heap m b) \<noteq> oID (heap m x)" "oID (heap m s) \<noteq> oID (heap m x)"
    using assms(7) x(2) by (auto simp: fresh_orders_def)
  then have dist: "distinct ([b, s] @ [x] @ [])" by auto
  have R: "mem.paired_run uuid 3500 100 m [x, b] [s] m'"
    using mem.orders_trade_in_pairs [OF _ P _ assms(1,7) dist, of clock] ids assms(8-10)
    by (auto simp: buys_def sells_def SideBuy_def SideSell_def)
  then obtain tr where "trAll (wTrades (world m')) = trAll (wTrades (world m)) @ [tr]" "partner_trade m 3500 100 (x, s) tr"
    by (auto simp: mem.paired_run_def list_all2_Cons1)
  moreover have "offers (heap m') 3500 100 b" "done_with (heap m') s" "bids (book m') = [resting 100 b]"
    using R by (simp_all add: mem.paired_run_def paired_def half_def)
  moreover have "oStatus (heap m' b) \<noteq> ''FILLED''"
    using \<open>offers (heap m') 3500 100 b\<close>
    by (auto simp: offers_def order_wf_def RemainingQuantity_wf OrderStatusOpen_def OrderStatusPartial_def OrderStatusFilled_def split: if_splits)
  ultimately show ?thesis
    by (simp add: partner_trade_def trade_of_def order_is_def order_document done_with_def json_of_Order_def OrderStatusFilled_def)
qed

theorem leftover_bid_takes_the_sell_of_the_next_run_witness:
  "bids (book (foldl (matchOrder sample_deps) (pair_state [resting 100 0] {''old''}) [1, 2])) = [resting 100 1]"
  using leftover_bid_takes_the_sell_of_the_next_run
    [of sample_uuid "pair_state [resting 100 0] {''old''}" 0 1 2, OF _ _ _ _ _ _ pair_fresh(2) _ _ refl, of sample_clock]
    sample_mem_ok pair_inv(2)
  by (simp add: sample_deps_def pair_heap_def sample_order_def RemainingQuantity_def sub64_def wrap64_def)

section \<open>Numbers and verdicts\<close>

text \<open>
  C28: the latency percentile the tools report is the exact nearest-rank percentile of the sample.
  For the percentages they ask for (50, 95, 99, 100) and any sample of fewer than 2 to the 44
  latencies it is one of the latencies, at least p percent of the sample are not larger and less
  than p percent are smaller, although the rank is computed in floating point and 95/100 and 99/100
  are not exact there.
\<close>

theorem percentile_is_the_nearest_rank:
  assumes "p \<in> set percentages_asked" and "d \<noteq> []" and "length d < 2 ^ 44" and "v = percentile d (of_int p)"
  shows "v \<in> set d \<and> p * int (length d) \<le> 100 * int (length (filter (\<lambda>x. x \<le> v) d)) \<and>
    100 * int (length (filter (\<lambda>x. x < v) d)) < p * int (length d)"
proof -
  define n where "n = int (length d)"
  define r where "r = \<lceil>(of_int (p * n) :: rat) / 100\<rceil>"
  have p: "0 < p" "p \<le> 100" using assms(1) by (auto simp: percentages_asked_def)
  have n: "0 < n" using assms(2) by (simp add: n_def)
  have r: "1 \<le> r" "r \<le> n" using rank_bounds [OF n p] by (simp_all add: r_def)
  have "int (length d) < 2 ^ 44" using assms(3) by (metis of_nat_less_iff of_nat_numeral of_nat_power)
  then have v: "v = sort d ! nat (r - 1)" using percentile_index [OF assms(1,2)] by (simp add: assms(4) r_def n_def)
  have i: "nat (r - 1) < length d" using r n by (simp add: n_def nat_less_iff)
  have "(of_int (p * n) :: rat) / 100 \<le> of_int r" "of_int r - 1 < (of_int (p * n) :: rat) / 100"
    unfolding r_def by (simp_all add: ceiling_correct) linarith
  then have "(of_int (p * n) :: rat) \<le> of_int (100 * r)" "of_int (100 * (r - 1)) < (of_int (p * n) :: rat)" by simp_all
  then have pr: "p * n \<le> 100 * r" "100 * (r - 1) < p * n" by (simp_all only: of_int_le_iff of_int_less_iff)
  have "v \<in> set d" unfolding v using i by (metis length_sort nth_mem set_sort)
  moreover have "r \<le> int (length (filter (\<lambda>x. x \<le> v) d))"
    "int (length (filter (\<lambda>x. x < v) d)) \<le> r - 1"
    using sorted_rank [OF i, folded v] r by linarith+
  moreover from this have "100 * r \<le> 100 * int (length (filter (\<lambda>x. x \<le> v) d))" "100 * int (length (filter (\<lambda>x. x < v) d)) \<le> 100 * (r - 1)"
    by simp_all
  ultimately show ?thesis using pr unfolding n_def by (meson order_trans le_less_trans)
qed

theorem percentile_is_the_nearest_rank_witness:
  "percentile [7, 3, 9, 1] (of_int 95) \<in> set [7, 3, 9, 1] \<and>
   95 * 4 \<le> 100 * int (length (filter (\<lambda>x. x \<le> percentile [7, 3, 9, 1] (of_int 95)) [7, 3, 9, 1]))"
  using percentile_is_the_nearest_rank [of 95 "[7, 3, 9, 1]", OF _ _ _ refl] by (simp add: percentages_asked_def)

text \<open>
  C16: the verdict of the compliance tool is complete. Whatever the server answers and however its
  goroutines interleave, the tool reports a compliant server exactly when it has recorded the full
  list of checks (2 of the set-up, 9 of the REST interface, 8 of the matching engine, 8 of the
  WebSocket interface and, unless they are skipped, 2 of scale, each in its place) and every check
  that is not a bonus has passed: no failure, and no early return, can make a check disappear from
  the score.
\<close>

theorem compliance_verdict_is_complete:
  "compliant (fst (ct_main pr cfg ch w)) \<longleftrightarrow>
     map kind_of (rnResults (snd (ct_main pr cfg ch w))) = expected_kinds (ccSkipScale cfg) \<and>
     list_all (\<lambda>c. ckBonus c \<or> ckPass c) (rnResults (snd (ct_main pr cfg ch w)))"
  unfolding verdict_complete by (simp add: list_all_iff required_pass)

section \<open>The end of the WebSocket load test\<close>

definition trade_notice :: "serverMsg \<Rightarrow> bool" where
  "trade_notice msg \<longleftrightarrow> sgType msg = ''market.trade'' \<and> sgStock msg \<noteq> []"

lemma finish_step_frame:
  assumes "finish_step s e = Some (Return s')"
  shows "chClosed (wfTradeCh s') = (e = MainClose \<or> chClosed (wfTradeCh s))"
    and "wfCancelled s \<Longrightarrow> wfCancelled s' \<and> wfHeld s' \<subseteq>\<^sub>m wfHeld s"
  using assms
  by (auto simp: finish_step_def normal_message_def try_send_def Let_def map_le_def
      split: finish_event.splits if_splits option.splits outcome.splits prod.splits send_result.splits)

lemma finish_step_panic:
  "finish_step s e = Some Panic \<Longrightarrow> \<exists>i now msg. e = ClientHandle i now \<and> wfHeld s i = Some msg \<and> trade_notice msg \<and> chClosed (wfTradeCh s)"
  using handle_panics_iff [of s]
  by (cases e) (auto simp: finish_step_def trade_notice_def split: option.splits if_splits)

lemma panic_after_close:
  "finish_run s es = Some Panic \<Longrightarrow> wfCancelled s \<Longrightarrow> \<exists>i msg. wfHeld s i = Some msg \<and> trade_notice msg"
proof (induction es arbitrary: s)
  case (Cons e es)
  from Cons.prems(1) consider "finish_step s e = Some Panic" | s' where "finish_step s e = Some (Return s')" "finish_run s' es = Some Panic"
    by (auto split: option.splits outcome.splits)
  then show ?case
  proof cases
    case 1
    then show ?thesis using finish_step_panic by blast
  next
    case 2
    then have le: "wfCancelled s'" "wfHeld s' \<subseteq>\<^sub>m wfHeld s" using finish_step_frame(2) Cons.prems(2) by blast+
    then obtain i msg where im: "wfHeld s' i = Some msg" "trade_notice msg" using Cons.IH [OF 2(2)] by blast
    then have "i \<in> dom (wfHeld s')" by blast
    then have "wfHeld s i = Some msg" using le(2) im(1) unfolding map_le_def by metis
    then show ?thesis using im(2) by blast
  qed
qed simp

lemma panic_needs_close:
  "finish_run s es = Some Panic \<Longrightarrow> \<not> chClosed (wfTradeCh s) \<Longrightarrow>
   \<exists>es1 es2 s1 i msg. es = es1 @ MainClose # es2 \<and> finish_run s es1 = Some (Return s1) \<and> wfHeld s1 i = Some msg \<and> trade_notice msg"
proof (induction es arbitrary: s)
  case (Cons e es)
  then obtain s' where s': "finish_step s e = Some (Return s')" "finish_run s' es = Some Panic"
    using finish_step_panic by (fastforce split: option.splits outcome.splits)
  show ?case
  proof (cases "e = MainClose")
    case True
    then have "wfCancelled s'" "wfHeld s' = wfHeld s" using s'(1) by (auto simp: finish_step_def split: if_splits)
    then obtain i msg where "wfHeld s i = Some msg" "trade_notice msg" using panic_after_close [OF s'(2)] by auto
    then show ?thesis using True by (intro exI [of _ "[]"] exI [of _ es]) auto
  next
    case False
    then have "\<not> chClosed (wfTradeCh s')" using finish_step_frame(1) [OF s'(1)] Cons.prems(2) by simp
    then obtain es1 es2 s1 i msg where "es = es1 @ MainClose # es2" "finish_run s' es1 = Some (Return s1)"
      "wfHeld s1 i = Some msg" "trade_notice msg" using Cons.IH [OF s'(2)] by blast
    then show ?thesis using s'(1) by (intro exI [of _ "e # es1"] exI [of _ es2]) auto
  qed
qed simp



section \<open>Many clients from one machine\<close>

text \<open>The clients connect one after the other.\<close>

definition register_clients :: "(addr \<Rightarrow> client_info) \<Rightarrow> nat \<Rightarrow> Hub outcome" where
  "register_clients info n = foldl (\<lambda>h c. then_do h (\<lambda>h. hub_register info h c)) (Return NewHub) [0..<n]"

text \<open>The hub after the first \<open>n\<close> clients: those admitted are in the tables, the others have their channel closed.\<close>

definition admitted :: "(addr \<Rightarrow> client_info) \<Rightarrow> nat \<Rightarrow> Hub \<Rightarrow> bool" where
  "admitted info n h \<longleftrightarrow>
     hbClients h = {c. c < n \<and> card {c'. c' < c \<and> ciIp (info c') = ciIp (info c)} < 10} \<and>
     (\<forall>ip. hbIpCount h ip = int (min 10 (card {c. c < n \<and> ciIp (info c) = ip}))) \<and>
     (\<forall>c. n \<le> c \<longrightarrow> hbSend h c = new_channel)"

lemma card_below_Suc: "card {c. c < Suc n \<and> P c} = card {c. c < n \<and> P c} + (if P n then 1 else 0)"
proof (cases "P n")
  case True
  then have "{c. c < Suc n \<and> P c} = insert n {c. c < n \<and> P c}" by (auto simp: less_Suc_eq)
  then show ?thesis using True by simp
next
  case False
  then have "{c. c < Suc n \<and> P c} = {c. c < n \<and> P c}" by (auto simp: less_Suc_eq)
  then show ?thesis using False by simp
qed

lemma register_admits:
  assumes A: "admitted info n h" and n: "n < 1000"
  shows "\<exists>h'. hub_register info h n = Return h' \<and> admitted info (Suc n) h'"
proof -
  let ?ip = "ciIp (info n)"
  have "card (hbClients h) \<le> card {..<n}" using A by (intro card_mono) (auto simp: admitted_def)
  then have room: "\<not> MaxTotalConnections \<le> card (hbClients h)" using n by (simp add: MaxTotalConnections_def)
  have cnt: "hbIpCount h ip = int (min 10 (card {c. c < n \<and> ciIp (info c) = ip}))" for ip using A by (simp add: admitted_def)
  have cl: "hbClients h = {c. c < n \<and> card {c'. c' < c \<and> ciIp (info c') = ciIp (info c)} < 10}"
    and ch: "hbSend h n = new_channel" "\<And>c. Suc n \<le> c \<Longrightarrow> hbSend h c = new_channel"
    using A by (simp_all add: admitted_def)
  show ?thesis
  proof (cases "card {c. c < n \<and> ciIp (info c) = ?ip} < 10")
    case True
    then have "{c. c < Suc n \<and> card {c'. c' < c \<and> ciIp (info c') = ciIp (info c)} < 10} = insert n (hbClients h)"
      by (auto simp: cl less_Suc_eq)
    then show ?thesis using True room ch(2) by (simp add: hub_register_def admitted_def cnt MaxConnPerIP_def card_below_Suc)
  next
    case False
    then have "{c. c < Suc n \<and> card {c'. c' < c \<and> ciIp (info c') = ciIp (info c)} < 10} = hbClients h"
      by (auto simp: cl less_Suc_eq)
    then show ?thesis
      using False room ch
      by (auto simp: hub_register_def admitted_def cnt MaxConnPerIP_def card_below_Suc sendJSON_def then_do_def close_send_def
          try_send_def new_channel_def clientSendCap_def)
  qed
qed

lemma register_clients_admits: "n \<le> 1000 \<Longrightarrow> \<exists>h. register_clients info n = Return h \<and> admitted info n h"
proof (induction n)
  case 0
  show ?case by (simp add: register_clients_def admitted_def NewHub_def)
next
  case (Suc n)
  then obtain h where "register_clients info n = Return h" "admitted info n h" by auto
  then show ?case using register_admits [of info n h] Suc.prems by (auto simp: register_clients_def then_do_def)
qed

text \<open>A synthetic address survives the parsing of the header.\<close>

lemma decimal_chars: "x \<in> set (decimal n) \<Longrightarrow> \<exists>d<10. x = digit d"
proof (induction n rule: decimal.induct)
  case (1 n)
  then show ?case by (cases "n < 10") (auto simp: decimal.simps [of n] intro: exI [of _ "n mod 10"])
qed

lemma digit_plain: "d < 10 \<Longrightarrow> \<not> is_space (digit d) \<and> digit d \<noteq> CHR '',''"
proof -
  have "list_all (\<lambda>d. \<not> is_space (digit d) \<and> digit d \<noteq> CHR '','') [0..<10]" by code_simp
  then show "d < 10 \<Longrightarrow> ?thesis" by (auto simp: list_all_iff)
qed

lemma fakeIP_plain:
  assumes "0 \<le> i" and "in64 i" and "x \<in> set (fakeIP i)"
  shows "\<not> is_space x \<and> x \<noteq> CHR '',''"
proof -
  have "set (Itoa (i div 10)) \<subseteq> {x. \<exists>d<10. x = digit d}" using assms(1) decimal_chars by (auto simp: Itoa_def)
  moreover have "list_all (\<lambda>x. \<not> is_space x \<and> x \<noteq> CHR '','') (''10.0.'' @ ''.1'')" by code_simp
  moreover have "x \<in> set (''10.0.'' @ ''.1'') \<or> x \<in> set (Itoa (i div 10))" using assms by (auto simp: fakeIP_def quot64_ten)
  ultimately consider "list_all (\<lambda>x. \<not> is_space x \<and> x \<noteq> CHR '','') (''10.0.'' @ ''.1'')" "x \<in> set (''10.0.'' @ ''.1'')"
    | d where "d < 10" "x = digit d" by blast
  then show ?thesis
  proof cases
    case 1
    then show ?thesis by (simp only: list_all_iff) blast
  next
    case 2
    then show ?thesis using digit_plain by simp
  qed
qed

lemma cut_at_absent: "c \<notin> set s \<Longrightarrow> cut_at c s = (s, None)"
  by (induction s) auto

lemma TrimSpace_plain: "(\<And>x. x \<in> set s \<Longrightarrow> \<not> is_space x) \<Longrightarrow> TrimSpace s = s"
proof -
  assume plain: "\<And>x. x \<in> set s \<Longrightarrow> \<not> is_space x"
  have keep: "dropWhile is_space t = t" if "set t = set s" for t using that plain by (cases t) auto
  show ?thesis using keep [of s] keep [of "rev s"] by (simp add: TrimSpace_def)
qed

lemma forwarded_fakeIP:
  assumes "hrHeader r ''X-Forwarded-For'' = fakeIP i" and "0 \<le> i" and "in64 i" and "trusted \<noteq> []" and "isTrusted net (remote_ip net r) trusted"
  shows "ExtractClientIP net r trusted = fakeIP i"
proof -
  have "cut_at CHR '','' (fakeIP i) = (fakeIP i, None)" using fakeIP_plain [OF assms(2,3)] by (intro cut_at_absent) blast
  moreover have "TrimSpace (fakeIP i) = fakeIP i" using fakeIP_plain [OF assms(2,3)] by (intro TrimSpace_plain) blast
  moreover have "fakeIP i \<noteq> []" by (simp add: fakeIP_def)
  ultimately show ?thesis using assms by (simp add: ExtractClientIP_def Let_def)
qed

lemma fakeIP_predecessors:
  assumes "in64 (int c + 1)"
  shows "card {c'. c' < c \<and> fakeIP (int c') = fakeIP (int c)} < 10"
  using fakeIP_group [of "Suc c" "fakeIP (int c)"] assms by (simp add: card_below_Suc add.commute)

text \<open>
  C29: how many clients of a load test the server takes. Its clients connect from one machine, each
  with a synthetic address in the \<open>X-Forwarded-For\<close> header, ten clients to an address. If the server
  trusts the machine as a proxy, all of them are admitted, up to the limit of 1000 connections; if it
  does not, which is the default, the header is ignored and only the first ten are.
\<close>

theorem load_clients_admitted:
  assumes "n \<le> 1000" and "\<forall>c<n. remote_ip net (req c) = host" and "\<forall>c<n. hrHeader (req c) ''X-Forwarded-For'' = fakeIP (int c)"
    and "\<forall>c<n. info c = NewClient net trusted (req c)"
  shows "\<exists>h. register_clients info n = Return h \<and>
    hbClients h = (if trusted \<noteq> [] \<and> isTrusted net host trusted then {..<n} else {..<min n 10})"
proof -
  obtain h where h: "register_clients info n = Return h" "admitted info n h" using register_clients_admits [OF assms(1), of info] by blast
  have w: "in64 (int c + 1)" "in64 (int c)" if "c < n" for c using that assms(1) by (simp_all add: in64_def)
  have cl: "hbClients h = {c. c < n \<and> card {c'. c' < c \<and> ciIp (info c') = ciIp (info c)} < 10}" using h(2) by (simp add: admitted_def)
  have "hbClients h = (if trusted \<noteq> [] \<and> isTrusted net host trusted then {..<n} else {..<min n 10})"
  proof (cases "trusted \<noteq> [] \<and> isTrusted net host trusted")
    case True
    have ip: "ciIp (info c) = fakeIP (int c)" if "c < n" for c
      using that assms(2-4) True w(2) forwarded_fakeIP [of "req c" "int c" trusted net] by (simp add: NewClient_def split_beta)
    have "{c'. c' < c \<and> ciIp (info c') = ciIp (info c)} = {c'. c' < c \<and> fakeIP (int c') = fakeIP (int c)}" if "c < n" for c
      using that ip by auto
    then show ?thesis using True fakeIP_predecessors w(1) by (auto simp: cl)
  next
    case False
    have ip: "ciIp (info c) = host" if "c < n" for c
      using that assms(2,4) False by (auto simp: NewClient_def split_beta ExtractClientIP_def Let_def)
    have "{c'. c' < c \<and> ciIp (info c') = ciIp (info c)} = {..<c}" if "c < n" for c using that ip by auto
    then show ?thesis unfolding if_not_P [OF False] by (auto simp: cl)
  qed
  then show ?thesis using h(1) by blast
qed

definition load_request :: "nat \<Rightarrow> http_request" where
  "load_request c = sample_request\<lparr>hrHeader := (\<lambda>_. fakeIP (int c))\<rparr>"

theorem load_clients_admitted_witness:
  "(\<exists>h. register_clients (\<lambda>c. NewClient sample_netlib [hrRemoteAddr sample_request] (load_request c)) 20 = Return h \<and> hbClients h = {..<20}) \<and>
   (\<exists>h. register_clients (\<lambda>c. NewClient sample_netlib [] (load_request c)) 20 = Return h \<and> hbClients h = {..<10})"
  using load_clients_admitted [of 20 sample_netlib load_request "hrRemoteAddr sample_request" _ "[hrRemoteAddr sample_request]"]
    load_clients_admitted [of 20 sample_netlib load_request "hrRemoteAddr sample_request" _ "[]"]
  by (simp add: remote_ip_def sample_netlib_def load_request_def isTrusted_def)

section \<open>Clients that only listen\<close>

text \<open>
  C30: a client that only listens is disconnected after a minute, and the WebSocket load test counts
  that as a failure of the server. A normal client of the test sends its two subscriptions and then
  only reads. The server gives each of its reads 60 seconds, and a read returns on data messages only:
  whatever pongs the client sends, the server's reader ends 60 seconds after the second subscription
  has been handled. If the test still runs then, the client reports that it was kicked and the overall
  verdict is negative, whatever the other clients report.
\<close>

theorem listening_client_fails_the_load_test:
  assumes "documented_Read rd"
    and "now \<le> t1" and "t1 < now + 60 * 10 ^ 9" and "t1 + h1 \<le> t2" and "t2 < t1 + h1 + 60 * 10 ^ 9"
    and "list_all (\<lambda>f. snd f = Control) pongs"
    and "prRead pr conn (65 * 10 ^ 9) w = (Inl err, w')" and "\<not> ended w'" and "\<not> clIsSlow res"
    and "length rs1 + length rs2 < 2 ^ 62"
  shows "readPump rd (n + 3) now ((t1, Data s1 h1) # (t2, Data s2 h2) # pongs) = ([(t1, s1), (t2, s2)], Some (t2 + h2 + 60 * 10 ^ 9)) \<and>
    (\<exists>res'. normal_reads pr ended conn (Suc k) (res, ch) w = (Return (res', ch), w') \<and>
       \<not> wl_allPass (wl_verdicts cfg (rs1 @ res' # rs2) submitted orderErrors lats))"
proof -
  let ?res = "res\<lparr>clKicked := True, clCloseReason := err\<rparr>"
  have "readPump rd (n + 3) now ((t1, Data s1 h1) # (t2, Data s2 h2) # pongs) = ([(t1, s1), (t2, s2)], Some (t2 + h2 + 60 * 10 ^ 9))"
    using readPump_listener [OF assms(1), of now t1 h1 t2 pongs n s1 s2 h2] assms(2-6)
    by (simp add: pongWait_def numeral_3_eq_3 del: readPump.simps)
  moreover have "\<not> wl_allPass (wl_verdicts cfg (rs1 @ ?res # rs2) submitted orderErrors lats)"
    using assms(9,10) by (intro kicked_client_fails [of ?res]) simp_all
  moreover have "normal_reads pr ended conn (Suc k) (res, ch) w = (Return (?res, ch), w')"
    using assms(7,8) by (rule cut_off_client)
  ultimately show ?thesis by blast
qed

section \<open>Orders the server accepts\<close>

text \<open>The bodies of the order requests the five tools send, for every outcome of their random choices.\<close>

inductive tool_order :: "json \<Rightarrow> bool" where
  loadtest: "k < 5 \<Longrightarrow> 0 \<le> u \<Longrightarrow> u < 1 \<Longrightarrow> q < 10 \<Longrightarrow> tool_order (json_of_orderReq (lt_randomOrder k coin u q))"
| matchtest: "side \<in> {''BUY'', ''SELL''} \<Longrightarrow> tool_order (json_of_OrderRequest (pair_request i side))"
| stresstest: "k < 5 \<Longrightarrow> q < 5 \<Longrightarrow> tool_order (json_of_limit_order (st_randomOrder k coin q))"
| wsloadtest: "stock \<in> set wl_stockList \<Longrightarrow> side \<in> {''BUY'', ''SELL''} \<Longrightarrow>
    tool_order (json_of_limit_order (stock, side, alignTick (wl_basePrice stock) (wl_tickSize stock), 100))"
| compliancetest: "(stock, price) \<in> {(''BBCA'', 9500), (matchStock, matchPrice)} \<Longrightarrow> side \<in> {''BUY'', ''SELL''} \<Longrightarrow> qty \<in> {100, 200} \<Longrightarrow>
    tool_order (json_of_ct_order stock side price qty)"

lemma ct_order_acceptable:
  assumes "(stock, price) \<in> {(''BBCA'', 9500), (matchStock, matchPrice)}" and "side \<in> {''BUY'', ''SELL''}" and "qty \<in> {100, 200}"
  shows "acceptable (json_of_ct_order stock side price qty)"
proof -
  obtain p where p: "price = of_int p" "1 \<le> p" "p \<le> 999999999" using assms(1) by (auto simp: matchPrice_def intro: that [of 9500] that [of 3500])
  have "IsValidStockCode stock" using assms(1) tool_stocks_valid by (auto simp: matchStock_def)
  then show ?thesis unfolding json_of_ct_order_def json_of_int_def p(1)
    using p(2,3) assms(2,3) by (intro acceptable_order [where stock = stock and side = side and price = p and qty = qty]) auto
qed

lemma tool_order_acceptable: "tool_order v \<Longrightarrow> acceptable v"
proof (induction rule: tool_order.induct)
  case (loadtest k u q coin)
  then show ?case by (rule lt_randomOrder_acceptable)
next
  case (matchtest side i)
  then show ?case by (intro pair_request_acceptable) simp
next
  case (stresstest k q coin)
  then show ?case by (rule st_randomOrder_acceptable)
next
  case (wsloadtest stock side)
  then show ?case by (intro pair_order_acceptable) simp_all
next
  case (compliancetest stock price side qty)
  then show ?case by (rule ct_order_acceptable)
qed

lemma tool_order_created:
  assumes "service_inv uuid w" and "acceptable v"
    and "OrderHandler_Create (service_deps uuid clock) (decode_createOrderBody v) r w = Return (resp, w')"
  shows "\<exists>b ord. decode_createOrderBody v = Some b \<and> resp = JSON 201 (DOrder ord) \<and> oStatus ord = OrderStatusOpen \<and>
    oUserID ord = userIDFromContext r \<and> oStockCode ord = bdStockCode b \<and> oSide ord = bdSide b \<and> oPrice ord = bdPrice b \<and>
    oQuantity ord = bdQuantity b \<and> OrderRepo_FindByID (wOrders (engWorld (swEngine w'))) (oID ord) = Inr ord"
proof -
  obtain b where b: "decode_createOrderBody v = Some b"
    "request_ok \<lparr>rqStockCode = bdStockCode b, rqSide = bdSide b, rqPrice = bdPrice b, rqQuantity = bdQuantity b\<rparr>"
    using assms(2) by (auto simp: acceptable_def split: option.splits)
  then show ?thesis using Create_accepts [OF assms(1) b(2), of clock r resp w'] assms(3) by auto
qed

text \<open>
  C17: every order a test tool sends is one the server accepts. For each tool and every outcome of its
  random choices (the prices of loadtest are computed in floating point from a random factor and
  rounded to a tick), the order handler, on any reachable state of the exchange, decodes the body and
  answers 201 with a new open order in the caller's name with the values of the request, which is
  then found in the repository.
\<close>

theorem tool_orders_are_accepted:
  assumes "app_reachable uuid clock s" and "inj uuid" and "tool_order v"
    and "OrderHandler_Create (service_deps uuid clock) (decode_createOrderBody v) r (apWorld s) = Return (resp, w')"
  shows "\<exists>b ord. decode_createOrderBody v = Some b \<and> resp = JSON 201 (DOrder ord) \<and> oStatus ord = OrderStatusOpen \<and>
    oUserID ord = userIDFromContext r \<and> oStockCode ord = bdStockCode b \<and> oSide ord = bdSide b \<and> oPrice ord = bdPrice b \<and>
    oQuantity ord = bdQuantity b \<and> OrderRepo_FindByID (wOrders (engWorld (swEngine w'))) (oID ord) = Inr ord"
  using tool_order_created [OF app_service_inv [OF app_reachable_inv [OF assms(1,2)] assms(2)] tool_order_acceptable [OF assms(3)] assms(4)] .

lemma sample_tool_order: "tool_order (json_of_limit_order (''BBCA'', ''BUY'', 9500, 100))"
proof -
  have "alignTick (wl_basePrice ''BBCA'') (wl_tickSize ''BBCA'') = 9500" by code_simp
  then show ?thesis using tool_order.wsloadtest [of "''BBCA''" "''BUY''"] by (simp add: wl_stockList_def)
qed

lemma decoded_orders:
  "decode_createOrderBody (json_of_limit_order (''BBCA'', ''BUY'', 9500, 100)) =
     Some \<lparr>bdStockCode = ''BBCA'', bdSide = ''BUY'', bdPrice = 9500, bdQuantity = 100\<rparr>"
  "decode_createOrderBody (json_of_ct_order ''BBCA'' ''BUY'' 9500 100) =
     Some \<lparr>bdStockCode = ''BBCA'', bdSide = ''BUY'', bdPrice = 9500, bdQuantity = 100\<rparr>"
  by code_simp+

lemma tool_create_returns:
  "\<exists>resp w'. OrderHandler_Create (service_deps unary int) (Some \<lparr>bdStockCode = ''BBCA'', bdSide = ''BUY'', bdPrice = 9500, bdQuantity = 100\<rparr>)
     sample_request (apWorld app_sample) = Return (resp, w')"
  by (rule sample_create_returns) code_simp

theorem tool_orders_are_accepted_witness:
  "\<exists>ord w'. OrderHandler_Create (service_deps unary int) (decode_createOrderBody (json_of_limit_order (''BBCA'', ''BUY'', 9500, 100)))
       sample_request (apWorld app_sample) = Return (JSON 201 (DOrder ord), w') \<and> oStatus ord = OrderStatusOpen"
proof -
  obtain resp w' where ret: "OrderHandler_Create (service_deps unary int)
      (decode_createOrderBody (json_of_limit_order (''BBCA'', ''BUY'', 9500, 100))) sample_request (apWorld app_sample) = Return (resp, w')"
    using tool_create_returns unfolding decoded_orders by blast
  show ?thesis using tool_orders_are_accepted [OF app_sample_reachable inj_unary sample_tool_order ret] ret by auto
qed

text \<open>
  C27: the order the compliance tool places is the order it then asks for. When the server's order
  handler, on any reachable state of the exchange, answers the tool's request and the network
  delivers that answer, encoded in the response envelope, the tool ends up with the identifier and
  the status of the order that is now in the repository, with the stock, side and quantity it wanted.
\<close>

theorem placed_order_is_read_back:
  assumes "app_reachable uuid clock s" and "inj uuid" and "tool_order (json_of_ct_order stock side price qty)"
    and "OrderHandler_Create (service_deps uuid clock) (decode_createOrderBody (json_of_ct_order stock side price qty)) r (apWorld s) = Return (resp, w')"
    and "prDo pr \<lparr>hcMethod = ''POST'', hcPath = ''/api/v1/orders'', hcToken = token, hcBody = Some (json_of_ct_order stock side price qty)\<rparr>
        (rnWorld rn) = (Inr (rsStatus resp, Some (JObject (json_of_envelope ft (rsBody resp)))), v)"
  shows "\<exists>ord. fst (run_state (ct_placeOrder pr token stock side price qty) rn) = Inr (oID ord, oStatus ord) \<and>
    OrderRepo_FindByID (wOrders (engWorld (swEngine w'))) (oID ord) = Inr ord \<and> oStatus ord = ''OPEN'' \<and>
    oStockCode ord = stock \<and> oSide ord = side \<and> oQuantity ord = qty"
proof -
  obtain b ord where b: "decode_createOrderBody (json_of_ct_order stock side price qty) = Some b" and resp: "resp = JSON 201 (DOrder ord)"
    and ord: "oStatus ord = OrderStatusOpen" "oStockCode ord = bdStockCode b" "oSide ord = bdSide b" "oQuantity ord = bdQuantity b"
      "OrderRepo_FindByID (wOrders (engWorld (swEngine w'))) (oID ord) = Inr ord"
    using tool_order_created [OF app_service_inv [OF app_reachable_inv [OF assms(1,2)] assms(2)] tool_order_acceptable [OF assms(3)] assms(4)]
    by blast
  have "bdStockCode b = stock \<and> bdSide b = side \<and> bdQuantity b = qty"
    using b by (auto simp: decode_createOrderBody_def json_of_ct_order_def json_of_int_def document_def field_string_def field_int_def
        bind_eq_Some_conv split: if_splits)
  moreover have "fst (run_state (ct_placeOrder pr token stock side price qty) rn) = Inr (oID ord, oStatus ord)"
    using assms(5) order_document [of ft ord]
    by (simp add: ct_placeOrder_def doJSON_def on_world_def resp JSON_def envelope_data json_of_data_def)
  ultimately show ?thesis using ord by (auto simp: OrderStatusOpen_def)
qed

text \<open>A server that gives one answer to every request.\<close>

definition canned_peer :: "reply \<Rightarrow> unit peer" where
  "canned_peer x =
     \<lparr>prDo = (\<lambda>_ w. (Inr x, w)), prNow = (\<lambda>_. 0), prWait = (\<lambda>_ w. w), prDial = (\<lambda>_ w. (Inl ''refused'', w)), prWrite = (\<lambda>_ _ w. w),
      prRead = (\<lambda>_ _ w. (Inl ''closed'', w)), prClose = (\<lambda>_ w. w)\<rparr>"

lemma canned_answer: "prDo (canned_peer x) c v = (Inr x, ())"
  by (simp add: canned_peer_def)

theorem placed_order_is_read_back_witness:
  "\<exists>resp w'. \<exists>ord :: Order. OrderHandler_Create (service_deps unary int) (decode_createOrderBody (json_of_ct_order ''BBCA'' ''BUY'' 9500 100))
       sample_request (apWorld app_sample) = Return (resp, w') \<and>
     fst (run_state (ct_placeOrder (canned_peer (rsStatus resp, Some (JObject (json_of_envelope (\<lambda>_. []) (rsBody resp))))) [] ''BBCA'' ''BUY'' 9500 100)
       (newRunner \<lparr>ccWsClients = 10, ccTimeout = 0, ccSkipScale = True\<rparr> ())) = Inr (oID ord, oStatus ord) \<and> oQuantity ord = 100"
proof -
  obtain resp w' where ret: "OrderHandler_Create (service_deps unary int) (decode_createOrderBody (json_of_ct_order ''BBCA'' ''BUY'' 9500 100))
      sample_request (apWorld app_sample) = Return (resp, w')"
    using tool_create_returns unfolding decoded_orders by blast
  have "tool_order (json_of_ct_order ''BBCA'' ''BUY'' 9500 100)" by (rule tool_order.compliancetest) simp_all
  from placed_order_is_read_back [OF app_sample_reachable inj_unary this ret canned_answer, of "\<lambda>_. []" "[]"
      "newRunner \<lparr>ccWsClients = 10, ccTimeout = 0, ccSkipScale = True\<rparr> ()"]
  show ?thesis using ret by blast
qed

theorem listening_client_fails_the_load_test_witness:
  "readPump conn_Read (0 + 3) 0 [(1, Data None 0), (2, Data None 0), (30, Control), (54 * 10 ^ 9, Control)] =
     ([(1, None), (2, None)], Some (2 + 0 + 60 * 10 ^ 9)) \<and>
   (\<exists>res'. normal_reads (canned_peer (200, None)) (\<lambda>_. False) 0 (Suc 0) (new_clientResult 7 False, new_channel) () = (Return (res', new_channel), ()) \<and>
      \<not> wl_allPass (wl_verdicts \<lparr>wcNumClients = 1, wcSlowPct = 0, wcDuration = 0, wcRamp = 0, wcOrderRate = 0, wcOrderWorkers = 0, wcSlowDelay = 0\<rparr>
        ([] @ res' # []) 0 0 []))"
proof (rule listening_client_fails_the_load_test [OF conn_Read_documented])
  show "prRead (canned_peer (200, None)) 0 (65 * 10 ^ 9) () = (Inl ''closed'', ())" by (simp add: canned_peer_def)
qed (simp_all add: new_clientResult_def)

end
