(* ===== verification/Broker_Clients.thy ===== *)
theory Broker_Clients
  imports Server_Wiring
begin

text \<open>
  The wrappers around the NATS and Redis clients: src/internal/infra/broker/natsbroker (publisher.go,
  subscriber.go) and src/internal/infra/storage/redis/pubsub.go. The client libraries are parameters,
  records of the calls the wrappers make; \<open>nats_lib\<close> writes out what the NATS documentation promises
  of them. A handler is a value of type \<open>'h\<close>; payloads are of type \<open>'b\<close>.
\<close>

section \<open>The NATS client library\<close>

record ('c, 's, 'h, 'b) natslib =
  nlConnect :: "string \<Rightarrow> string + 'c"
  nlSubscribe :: "'c \<Rightarrow> string \<Rightarrow> 'h \<Rightarrow> (string + 's) \<times> 'c"
  nlQueueSubscribe :: "'c \<Rightarrow> string \<Rightarrow> string \<Rightarrow> 'h \<Rightarrow> (string + 's) \<times> 'c"
  nlUnsubscribe :: "'c \<Rightarrow> 's \<Rightarrow> 'c"
  nlPublish :: "'c \<Rightarrow> string \<Rightarrow> 'b \<Rightarrow> string option \<times> 'c"
  nlDrain :: "'c \<Rightarrow> 'c"

section \<open>Publisher\<close>

record 'c Publisher =
  puConn :: 'c

definition NewPublisher :: "('c, 's, 'h, 'b) natslib \<Rightarrow> string \<Rightarrow> string + 'c Publisher" where
  "NewPublisher lib url =
     (case nlConnect lib url of Inl e \<Rightarrow> Inl (''nats connect: '' @ e) | Inr c \<Rightarrow> Inr \<lparr>puConn = c\<rparr>)"

text \<open>\<open>encode\<close> is \<open>json.Marshal\<close>, which can fail.\<close>

definition Publisher_Publish ::
  "('c, 's, 'h, 'b) natslib \<Rightarrow> ('v \<Rightarrow> string + 'b) \<Rightarrow> 'c Publisher \<Rightarrow> string \<Rightarrow> 'v \<Rightarrow> string option \<times> 'c Publisher" where
  "Publisher_Publish lib encode p subject payload =
     (case encode payload of
        Inl e \<Rightarrow> (Some (''marshal: '' @ e), p)
      | Inr d \<Rightarrow> (let (err, c) = nlPublish lib (puConn p) subject d in (err, p\<lparr>puConn := c\<rparr>)))"

definition Publisher_Close :: "('c, 's, 'h, 'b) natslib \<Rightarrow> 'c Publisher \<Rightarrow> 'c Publisher" where
  "Publisher_Close lib p = p\<lparr>puConn := nlDrain lib (puConn p)\<rparr>"

section \<open>Subscriber\<close>

record ('c, 's) Subscriber =
  suConn :: 'c
  suSubscriptions :: "'s list"

definition NewSubscriber :: "('c, 's, 'h, 'b) natslib \<Rightarrow> string \<Rightarrow> string + ('c, 's) Subscriber" where
  "NewSubscriber lib url =
     (case nlConnect lib url of Inl e \<Rightarrow> Inl (''nats connect: '' @ e) | Inr c \<Rightarrow> Inr \<lparr>suConn = c, suSubscriptions = []\<rparr>)"

text \<open>The common end of the three operations: the error with its prefix, or the new subscription at the end of the list.\<close>

definition subscribed ::
  "string \<Rightarrow> (string + 's) \<times> 'c \<Rightarrow> ('c, 's) Subscriber \<Rightarrow> string option \<times> ('c, 's) Subscriber" where
  "subscribed prefix x s =
     (case x of
        (Inl e, c) \<Rightarrow> (Some (prefix @ '': '' @ e), s\<lparr>suConn := c\<rparr>)
      | (Inr sub, c) \<Rightarrow> (None, s\<lparr>suConn := c, suSubscriptions := suSubscriptions s @ [sub]\<rparr>))"

definition Subscriber_Subscribe ::
  "('c, 's, 'h, 'b) natslib \<Rightarrow> ('c, 's) Subscriber \<Rightarrow> string \<Rightarrow> 'h \<Rightarrow> string option \<times> ('c, 's) Subscriber" where
  "Subscriber_Subscribe lib s subject handler =
     subscribed (''subscribe '' @ subject) (nlSubscribe lib (suConn s) subject handler) s"

definition SubscribeSubject ::
  "('c, 's, 'h, 'b) natslib \<Rightarrow> ('c, 's) Subscriber \<Rightarrow> string \<Rightarrow> 'h \<Rightarrow> string option \<times> ('c, 's) Subscriber" where
  "SubscribeSubject lib s subject handler =
     subscribed (''subscribe subject '' @ subject) (nlSubscribe lib (suConn s) subject handler) s"

definition SubscribeJSON ::
  "('c, 's, 'h, 'b) natslib \<Rightarrow> ('c, 's) Subscriber \<Rightarrow> string \<Rightarrow> 'h \<Rightarrow> string option \<times> ('c, 's) Subscriber" where
  "SubscribeJSON lib s subject dst = Subscriber_Subscribe lib s subject dst"

definition QueueSubscribe ::
  "('c, 's, 'h, 'b) natslib \<Rightarrow> ('c, 's) Subscriber \<Rightarrow> string \<Rightarrow> string \<Rightarrow> 'h \<Rightarrow> string option \<times> ('c, 's) Subscriber" where
  "QueueSubscribe lib s subject queue handler =
     subscribed (''queue subscribe '' @ subject @ '' ['' @ queue @ '']'') (nlQueueSubscribe lib (suConn s) subject queue handler) s"

definition Subscriber_Close :: "('c, 's, 'h, 'b) natslib \<Rightarrow> ('c, 's) Subscriber \<Rightarrow> ('c, 's) Subscriber" where
  "Subscriber_Close lib s = s\<lparr>suConn := nlDrain lib (foldl (nlUnsubscribe lib) (suConn s) (suSubscriptions s))\<rparr>"

section \<open>Redis\<close>

record ('o, 'c, 'b) redislib =
  rlParseURL :: "string \<Rightarrow> string + 'o"
  rlNewClient :: "'o \<Rightarrow> 'c"
  rlPublish :: "'c \<Rightarrow> string \<Rightarrow> 'b \<Rightarrow> string option \<times> 'c"
  rlClose :: "'c \<Rightarrow> string option \<times> 'c"

record 'c PubSub =
  psClient :: 'c

definition NewPubSub :: "('o, 'c, 'b) redislib \<Rightarrow> string \<Rightarrow> string + 'c PubSub" where
  "NewPubSub lib url =
     (case rlParseURL lib url of Inl e \<Rightarrow> Inl (''redis parse url: '' @ e) | Inr opts \<Rightarrow> Inr \<lparr>psClient = rlNewClient lib opts\<rparr>)"

definition PubSub_Publish :: "('o, 'c, 'b) redislib \<Rightarrow> 'c PubSub \<Rightarrow> string \<Rightarrow> 'b \<Rightarrow> string option \<times> 'c PubSub" where
  "PubSub_Publish lib p channel d = (let (err, c) = rlPublish lib (psClient p) channel d in (err, p\<lparr>psClient := c\<rparr>))"

definition PubSub_Close :: "('o, 'c, 'b) redislib \<Rightarrow> 'c PubSub \<Rightarrow> string option \<times> 'c PubSub" where
  "PubSub_Close lib p = (let (err, c) = rlClose lib (psClient p) in (err, p\<lparr>psClient := c\<rparr>))"

text \<open>What the goroutine of \<open>PubSub.Subscribe\<close> can receive; the handler is called on each payload until it returns.\<close>

datatype 'b redis_event = RedisMsg 'b | RedisClosed | CtxDone

fun pubsub_loop :: "('b \<Rightarrow> 'w \<Rightarrow> 'w) \<Rightarrow> 'b redis_event list \<Rightarrow> 'w \<Rightarrow> 'w" where
  "pubsub_loop handler [] w = w"
| "pubsub_loop handler (RedisMsg d # es) w = pubsub_loop handler es (handler d w)"
| "pubsub_loop handler (_ # es) w = w"

text \<open>It handles exactly the messages before the first end.\<close>

lemma pubsub_loop_prefix:
  "pubsub_loop handler (map RedisMsg ds @ (if ended then e # es else [])) w = fold handler ds w"
  if "ended \<longrightarrow> e = RedisClosed \<or> e = CtxDone"
  using that by (induction ds arbitrary: w) auto

section \<open>What NATS promises\<close>

text \<open>
  A subject is a sequence of tokens; \<open>*\<close> in a subscription stands for one token.
\<close>

fun tokens_match :: "string list \<Rightarrow> string list \<Rightarrow> bool" where
  "tokens_match [] [] = True"
| "tokens_match (p # ps) (t # ts) = (t \<noteq> [] \<and> (p = ''*'' \<or> p = t) \<and> tokens_match ps ts)"
| "tokens_match _ _ = False"

definition subject_matches :: "string \<Rightarrow> string \<Rightarrow> bool" where
  "subject_matches pattern subject = tokens_match (Split CHR ''.'' pattern) (Split CHR ''.'' subject)"

record 'h nats_sub =
  nsId :: nat
  nsSubject :: string
  nsQueue :: "string option"
  nsHandler :: 'h

record ('h, 'b) nats_conn =
  ncNext :: nat
  ncSubs :: "'h nats_sub list"
  ncOpen :: bool
  ncSent :: "(string \<times> 'b) list"

definition nats_add :: "('h, 'b) nats_conn \<Rightarrow> string \<Rightarrow> string option \<Rightarrow> 'h \<Rightarrow> (string + nat) \<times> ('h, 'b) nats_conn" where
  "nats_add c subject queue handler =
     (if \<not> ncOpen c then (Inl ''nats: connection closed'', c)
      else if subject = [] then (Inl ''nats: invalid subject'', c)
      else (Inr (ncNext c),
            c\<lparr>ncNext := Suc (ncNext c),
              ncSubs := ncSubs c @ [\<lparr>nsId = ncNext c, nsSubject = subject, nsQueue = queue, nsHandler = handler\<rparr>]\<rparr>))"

definition nats_lib :: "(string \<Rightarrow> bool) \<Rightarrow> (('h, 'b) nats_conn, nat, 'h, 'b) natslib" where
  "nats_lib reachable =
     \<lparr>nlConnect = (\<lambda>url. if reachable url then Inr \<lparr>ncNext = 0, ncSubs = [], ncOpen = True, ncSent = []\<rparr> else Inl ''nats: no servers available''),
      nlSubscribe = (\<lambda>c subject h. nats_add c subject None h),
      nlQueueSubscribe = (\<lambda>c subject queue h. nats_add c subject (Some queue) h),
      nlUnsubscribe = (\<lambda>c i. c\<lparr>ncSubs := filter (\<lambda>x. nsId x \<noteq> i) (ncSubs c)\<rparr>),
      nlPublish = (\<lambda>c subject d. if ncOpen c then (None, c\<lparr>ncSent := ncSent c @ [(subject, d)]\<rparr>) else (Some ''nats: connection closed'', c)),
      nlDrain = (\<lambda>c. c\<lparr>ncOpen := False\<rparr>)\<rparr>"

text \<open>
  Who receives a message: every matching subscription that is in no queue group, and of each group
  the member that \<open>pick\<close> chooses among the matching ones.
\<close>

definition matching :: "string \<Rightarrow> 'h nats_sub list \<Rightarrow> 'h nats_sub list" where
  "matching subject subs = filter (\<lambda>x. subject_matches (nsSubject x) subject) subs"

definition members :: "string \<Rightarrow> string \<Rightarrow> 'h nats_sub list \<Rightarrow> 'h nats_sub list" where
  "members subject queue subs = filter (\<lambda>x. nsQueue x = Some queue) (matching subject subs)"

definition nats_receivers :: "(string \<Rightarrow> 'h nats_sub list \<Rightarrow> nat) \<Rightarrow> string \<Rightarrow> 'h nats_sub list \<Rightarrow> 'h list" where
  "nats_receivers pick subject subs =
     map nsHandler (filter (\<lambda>x. nsQueue x = None) (matching subject subs)) @
     map (\<lambda>q. nsHandler (members subject q subs ! (pick q (members subject q subs) mod length (members subject q subs))))
       (remdups (List.map_filter nsQueue (matching subject subs)))"

section \<open>Bookkeeping\<close>

datatype 'h sub_call = CallSubscribe string 'h | CallSubject string 'h | CallJSON string 'h | CallQueue string string 'h

definition do_call :: "('c, 's, 'h, 'b) natslib \<Rightarrow> ('c, 's) Subscriber \<Rightarrow> 'h sub_call \<Rightarrow> ('c, 's) Subscriber" where
  "do_call lib s call =
     snd (case call of
            CallSubscribe subject h \<Rightarrow> Subscriber_Subscribe lib s subject h
          | CallSubject subject h \<Rightarrow> SubscribeSubject lib s subject h
          | CallJSON subject h \<Rightarrow> SubscribeJSON lib s subject h
          | CallQueue subject queue h \<Rightarrow> QueueSubscribe lib s subject queue h)"

text \<open>The subscriber's list is the list of its subscriptions at the server, in order.\<close>

definition booked :: "(('h, 'b) nats_conn, nat) Subscriber \<Rightarrow> bool" where
  "booked s \<longleftrightarrow> suSubscriptions s = map nsId (ncSubs (suConn s)) \<and> ncOpen (suConn s)"

lemma booked_add:
  "booked s \<Longrightarrow> booked (snd (subscribed prefix (nats_add (suConn s) subject queue h) s))"
  by (simp add: booked_def subscribed_def nats_add_def)

lemma booked_calls: "booked s \<Longrightarrow> booked (foldl (do_call (nats_lib reachable)) s calls)"
proof (induction calls arbitrary: s)
  case (Cons call calls)
  have "booked (do_call (nats_lib reachable) s call)"
    using booked_add [OF Cons.prems]
    by (cases call) (simp_all add: do_call_def Subscriber_Subscribe_def SubscribeSubject_def SubscribeJSON_def QueueSubscribe_def nats_lib_def)
  then show ?case using Cons.IH by simp
qed simp

lemma booked_new: "NewSubscriber (nats_lib reachable) url = Inr s \<Longrightarrow> booked s"
  by (auto simp: NewSubscriber_def nats_lib_def booked_def split: sum.splits if_splits)

lemma unsubscribe_all:
  "ncSubs (foldl (nlUnsubscribe (nats_lib reachable)) c is) = filter (\<lambda>x. nsId x \<notin> set is) (ncSubs c)"
  by (induction "is" arbitrary: c) (auto simp: nats_lib_def intro: filter_cong)

text \<open>After \<open>Close\<close> no subscription is left, so no handler of this subscriber is called any more.\<close>

lemma close_silences:
  assumes "NewSubscriber (nats_lib reachable) url = Inr s0" and "s = foldl (do_call (nats_lib reachable)) s0 calls"
  shows "ncSubs (suConn (Subscriber_Close (nats_lib reachable) s)) = [] \<and> \<not> ncOpen (suConn (Subscriber_Close (nats_lib reachable) s))"
proof -
  have "booked s" using booked_calls [OF booked_new [OF assms(1)]] by (simp add: assms(2))
  moreover have "nlDrain (nats_lib reachable) c = c\<lparr>ncOpen := False\<rparr>" for c :: "('a, 'b) nats_conn" by (simp add: nats_lib_def)
  ultimately show ?thesis
    by (simp add: Subscriber_Close_def unsubscribe_all booked_def filter_empty_conv)
qed

text \<open>A message is handled exactly once in each queue group that matches it.\<close>

lemma remdups_const: "xs \<noteq> [] \<Longrightarrow> remdups (map (\<lambda>_. q) xs) = [q]"
  by (induction xs rule: list_nonempty_induct) (auto simp: image_constant_conv)

lemma queue_group_once:
  assumes "list_all (\<lambda>x. nsQueue x = Some queue) subs" and "matching subject subs \<noteq> []"
  shows "\<exists>x\<in>set (matching subject subs). nats_receivers pick subject subs = [nsHandler x]"
proof -
  let ?m = "matching subject subs"
  have all: "\<forall>x\<in>set ?m. nsQueue x = Some queue" using assms(1) by (auto simp: matching_def list_all_iff)
  have mem: "members subject queue subs = ?m" using all by (simp add: members_def filter_id_conv)
  have "List.map_filter nsQueue ?m = map (\<lambda>_. queue) ?m"
    using all by (simp add: List.map_filter_def filter_id_conv)
  then have q: "remdups (List.map_filter nsQueue ?m) = [queue]"
    using remdups_const [OF assms(2)] by simp
  have "filter (\<lambda>x. nsQueue x = None) ?m = []" using all by (auto simp: filter_empty_conv)
  then have "nats_receivers pick subject subs = [nsHandler (?m ! (pick queue ?m mod length ?m))]"
    unfolding nats_receivers_def q by (simp add: mem)
  moreover have "?m ! (pick queue ?m mod length ?m) \<in> set ?m" using assms(2) by (intro nth_mem mod_less_divisor) simp
  ultimately show ?thesis by blast
qed

text \<open>A message nobody is subscribed to is handled by nobody, and publishing it succeeds all the same.\<close>

lemma unmatched_message_is_lost:
  assumes "matching subject subs = []" and "ncOpen c"
  shows "nats_receivers pick subject subs = [] \<and> fst (Publisher_Publish (nats_lib reachable) Inr \<lparr>puConn = c\<rparr> subject d) = None"
  using assms by (simp add: nats_receivers_def List.map_filter_simps Publisher_Publish_def nats_lib_def)

text \<open>The patterns of the event wiring are those \<open>nats_match\<close> decides.\<close>

lemma Split_token: "CHR ''.'' \<notin> set p \<Longrightarrow> Split CHR ''.'' (p @ CHR ''.'' # rest) = p # Split CHR ''.'' rest"
  by (induction p) auto

lemma Split_single: "CHR ''.'' \<notin> set p \<Longrightarrow> Split CHR ''.'' p = [p]"
  by (induction p) auto

lemma Split_two: "CHR ''.'' \<in> set p \<Longrightarrow> \<exists>a b cs. Split CHR ''.'' p = a # b # cs"
proof -
  assume "CHR ''.'' \<in> set p"
  then obtain a b where "p = a @ CHR ''.'' # b" "CHR ''.'' \<notin> set a" by (meson split_list_first)
  moreover have "Split CHR ''.'' b \<noteq> []" by (cases b) (auto split: list.split)
  then obtain x xs where "Split CHR ''.'' b = x # xs" by (cases "Split CHR ''.'' b") auto
  ultimately show ?thesis using Split_token [of a b] by auto
qed

lemma wired_pattern:
  assumes "CHR ''.'' \<notin> set pre" and "pre \<noteq> []" and "pre \<noteq> ''*''"
  shows "subject_matches (pre @ ''.*'') subject \<longleftrightarrow> nats_match pre subject"
proof (cases "CHR ''.'' \<in> set subject")
  case False
  then have "cut_at CHR ''.'' subject = (subject, None)" by (induction subject) auto
  moreover have "Split CHR ''.'' (pre @ ''.*'') = [pre, ''*'']" using Split_token [OF assms(1), of "''*''"] by simp
  ultimately show ?thesis using Split_single [OF False] by (simp add: subject_matches_def nats_match_def)
next
  case True
  then obtain a b where s: "subject = a @ CHR ''.'' # b" and a: "CHR ''.'' \<notin> set a" by (meson split_list_first)
  have cut: "cut_at CHR ''.'' subject = (a, Some b)" unfolding s using a by (induction a) auto
  have pat: "Split CHR ''.'' (pre @ ''.*'') = [pre, ''*'']" using Split_token [OF assms(1), of "''*''"] by simp
  have sub: "Split CHR ''.'' subject = a # Split CHR ''.'' b" unfolding s by (rule Split_token [OF a])
  show ?thesis
  proof (cases "CHR ''.'' \<in> set b")
    case True
    then obtain x y zs where "Split CHR ''.'' b = x # y # zs" using Split_two by blast
    then show ?thesis using True by (simp add: subject_matches_def nats_match_def cut pat sub)
  next
    case False
    then show ?thesis using assms by (auto simp: subject_matches_def nats_match_def cut pat sub Split_single)
  qed
qed

end
