(* ===== verification/Metrics_Model.thy ===== *)
theory Metrics_Model
  imports Http_Server
begin

text \<open>
  The Prometheus instruments (src/internal/transport/http/middleware/metrics.go) and every place that
  updates one: the HTTP middleware, the event handlers and the queue sampler of src/cmd/server/main.go.
  Counters and histograms are tables over their label values; a histogram is the list of its
  observations. The client library, which formats and serves them, is third-party.
\<close>

record metrics =
  HTTPRequestsTotal :: "string \<times> string \<times> int64 \<Rightarrow> nat"
  HTTPRequestDuration :: "string \<times> string \<Rightarrow> float64 list"
  WSConnectionsGauge :: float64
  WSSubscriptionsGauge :: float64
  OrdersCreatedTotal :: "string \<times> string \<Rightarrow> nat"
  TradesExecutedTotal :: "string \<Rightarrow> nat"
  MatchingLatency :: "float64 list"
  DBWorkerQueueSize :: float64

definition newMetrics :: metrics where
  "newMetrics =
     \<lparr>HTTPRequestsTotal = (\<lambda>_. 0), HTTPRequestDuration = (\<lambda>_. []), WSConnectionsGauge = 0, WSSubscriptionsGauge = 0,
      OrdersCreatedTotal = (\<lambda>_. 0), TradesExecutedTotal = (\<lambda>_. 0), MatchingLatency = [], DBWorkerQueueSize = 0\<rparr>"

text \<open>The end of \<open>PrometheusMiddleware\<close>.\<close>

definition observe_request :: "http_request \<Rightarrow> int64 \<Rightarrow> float64 \<Rightarrow> metrics \<Rightarrow> metrics" where
  "observe_request r status seconds m =
     m\<lparr>HTTPRequestsTotal := (HTTPRequestsTotal m)((hrMethod r, hrPath r, status) := HTTPRequestsTotal m (hrMethod r, hrPath r, status) + 1),
       HTTPRequestDuration := (HTTPRequestDuration m)((hrMethod r, hrPath r) := HTTPRequestDuration m (hrMethod r, hrPath r) @ [seconds])\<rparr>"

text \<open>The handlers of \<open>TradeExecuted\<close> and \<open>OrderCreated\<close>; the latter reads the order the event points to.\<close>

definition count_trade :: "Event \<Rightarrow> metrics \<Rightarrow> metrics" where
  "count_trade e m = m\<lparr>TradesExecutedTotal := (TradesExecutedTotal m)(evStockCode e := TradesExecutedTotal m (evStockCode e) + 1)\<rparr>"

definition count_created :: "(addr \<Rightarrow> Order) \<Rightarrow> Event \<Rightarrow> metrics \<Rightarrow> metrics" where
  "count_created hp e m =
     (case evPayload e of
        POrder a \<Rightarrow>
          (let k = (oStockCode (hp a), oSide (hp a))
           in m\<lparr>OrdersCreatedTotal := (OrdersCreatedTotal m)(k := OrdersCreatedTotal m k + 1)\<rparr>)
      | _ \<Rightarrow> m)"

definition sample_queue :: "int64 \<Rightarrow> metrics \<Rightarrow> metrics" where
  "sample_queue len m = m\<lparr>DBWorkerQueueSize := float_of_int64 len\<rparr>"

section \<open>What the instruments show\<close>

datatype metrics_op = Served http_request int64 float64 | TradeSeen Event | OrderSeen "addr \<Rightarrow> Order" Event | QueueSampled int64

primrec metrics_step :: "metrics \<Rightarrow> metrics_op \<Rightarrow> metrics" where
  "metrics_step m (Served r status seconds) = observe_request r status seconds m"
| "metrics_step m (TradeSeen e) = count_trade e m"
| "metrics_step m (OrderSeen hp e) = count_created hp e m"
| "metrics_step m (QueueSampled len) = sample_queue len m"

lemmas metrics_ops = observe_request_def count_trade_def count_created_def sample_queue_def Let_def

text \<open>Two gauges and the latency histogram are declared but never updated: they show zero for ever.\<close>

lemma idle_instruments:
  "WSConnectionsGauge (foldl metrics_step newMetrics ops) = 0 \<and> WSSubscriptionsGauge (foldl metrics_step newMetrics ops) = 0 \<and>
   MatchingLatency (foldl metrics_step newMetrics ops) = []"
proof (induction ops rule: rev_induct)
  case (snoc op ops)
  then show ?case
    by (cases op) (auto simp: metrics_ops split: payload.splits)
qed (simp add: newMetrics_def)

primrec served_as :: "string \<times> string \<times> int64 \<Rightarrow> metrics_op \<Rightarrow> bool" where
  "served_as k (Served r status seconds) \<longleftrightarrow> (hrMethod r, hrPath r, status) = k"
| "served_as k (TradeSeen e) \<longleftrightarrow> False"
| "served_as k (OrderSeen hp e) \<longleftrightarrow> False"
| "served_as k (QueueSampled len) \<longleftrightarrow> False"

text \<open>The others count what happened: one request per label triple, one trade per event.\<close>

lemma counted_requests:
  "HTTPRequestsTotal (foldl metrics_step newMetrics ops) k =
     length (filter (served_as k) ops)"
proof (induction ops rule: rev_induct)
  case (snoc op ops)
  then show ?case
    by (cases op) (auto simp: metrics_ops split: payload.splits)
qed (simp add: newMetrics_def)

lemma counted_trades:
  "TradesExecutedTotal (foldl metrics_step newMetrics ops) code =
     length (filter (\<lambda>op. case op of TradeSeen e \<Rightarrow> evStockCode e = code | _ \<Rightarrow> False) ops)"
proof (induction ops rule: rev_induct)
  case (snoc op ops)
  then show ?case
    by (cases op) (auto simp: metrics_ops split: payload.splits)
qed (simp add: newMetrics_def)

end
