(* ===== verification/Spec2Isabelle.thy ===== *)
theory Spec2Isabelle
  imports Engine_Properties Engine_Termination Ticker_Race Api_Properties Storage_Properties Server_Main Tool_Properties
    Broker_Clients Metrics_Model
begin

text \<open>
  Verification of the mini exchange: an order matching server in Go. Clients create orders over
  HTTP; the order service saves them and submits them to the matching engine; one goroutine per
  stock matches them by price and time, updates the repositories and publishes events on a bus;
  handlers of the bus forward the events to WebSocket clients, to other instances over NATS or
  Redis, to a cache and to a worker that writes them to PostgreSQL. Prices of stocks without trades
  come from a simulator or from Binance. In a cluster each stock is matched by one instance. Five
  command line tools load a running server and check what it does.

  \<^bold>\<open>Theories and sources.\<close>
  \<^item> \<open>Prelude\<close>: 64-bit arithmetic with wrap-around, stable sorting, slices, channels, outcomes with
    panics; \<open>Float64\<close>: rounding to IEEE doubles; \<open>Go_Strings\<close>: the functions of strings and strconv
    that are used; \<open>Channels\<close>: the contract of a bounded queue with a worker, a locale that the bus
    and the database worker interpret.
  \<^item> \<open>Entities\<close>: src/internal/domain (entities, stocks, events, repository errors).
  \<^item> \<open>Engine_Book\<close>, \<open>Engine_Matcher\<close>, \<open>Engine_Core\<close>: src/internal/engine (orderbook.go, matcher.go,
    engine.go). \<open>Engine_Sides\<close> treats both sides of the book at once in a locale with two
    interpretations; \<open>Engine_Match\<close>, \<open>Engine_Trades\<close> and \<open>Engine_Depth\<close> lift it to whole orders,
    to the recorded trades and to the depth snapshot; \<open>Engine_Termination\<close> bounds the loops.
  \<^item> \<open>Memory_Repos\<close>, \<open>Ticker_Race\<close>: src/internal/infra/storage/memory; \<open>Postgres_Repos\<close>:
    src/internal/infra/storage/postgres with the constraints of src/migrations; \<open>Redis_Cache\<close>:
    src/internal/infra/storage/redis/cache.go. The locale \<open>order_repository\<close> is the contract of the
    order repository, interpreted by both storages.
  \<^item> \<open>Broker\<close>: src/internal/infra/broker/eventbus.go; \<open>Exchange\<close>: the engine on the in-memory
    repositories and the bus; \<open>Services\<close>: src/internal/app; \<open>App_Run\<close>: the running exchange, with
    concurrent requests, matchers and the rest of the process as one step relation.
  \<^item> \<open>Partition\<close>: src/pkg/partition and src/internal/partition; \<open>Validation\<close>: src/pkg/validator and
    src/pkg/response; \<open>Auth\<close>: src/internal/infra/auth.
  \<^item> \<open>Middleware\<close>, \<open>Handlers\<close>, \<open>Http_Server\<close>: src/internal/transport/http and src/pkg/netutil;
    \<open>Metrics_Model\<close>: the Prometheus instruments and their updates; \<open>WsHub\<close>, \<open>WsServer\<close>, \<open>Ws_Pumps\<close>,
    \<open>Wire_Data\<close>: src/internal/transport/ws (hub, interleavings, the two goroutines of a connection in
    time) and the documents on the wire.
  \<^item> \<open>DBWorker_Model\<close>: src/internal/worker; \<open>Simulator_Model\<close>, \<open>Binance_Model\<close>: src/internal/simulator;
    \<open>Config_Model\<close>: src/config; \<open>Server_Wiring\<close>, \<open>Server_Main\<close>: src/cmd/server/main.go;
    \<open>Broker_Clients\<close>: src/internal/infra/broker/natsbroker and src/internal/infra/storage/redis/pubsub.go.
  \<^item> \<open>Json_Data\<close>: JSON values, the documents of the entities and of src/pkg/response, and the accessors
    clients use; \<open>Tool_Stats\<close>, \<open>Tool_Client\<close>: what the tools share (percentiles, addresses, schedules
    of goroutines, the calls on a server, and the locale \<open>worker_pool\<close>, the contract of their
    semaphores); \<open>Loadtest_Tool\<close>, \<open>Matchtest_Tool\<close>, \<open>Stresstest_Tool\<close>, \<open>Wsloadtest_Tool\<close>,
    \<open>Compliance_Tool\<close>: src/cmd/loadtest, matchtest, stresstest, wsloadtest and compliancetest.
    \<open>Engine_Pairs\<close> extends the locale of \<open>Engine_Trades\<close> to streams of equal orders.
  \<^item> \<open>Engine_Properties\<close>, \<open>Api_Properties\<close>, \<open>Storage_Properties\<close>, \<open>Tool_Properties\<close>: properties with their witnesses; the
    other properties stand in the theory of their component.

  \<^bold>\<open>How the code is represented.\<close> Structs are records and enums datatypes or strings as in the
  source. Order objects live in a heap from addresses to orders, because the engine, the book and
  the events share pointers to them. Machine integers are \<open>int\<close> with the wrap-around of 64 bits
  written out, hash values are words. Interfaces (repositories, bus, clock, UUIDs) are records of
  functions over a world; the in-memory implementations instantiate them. A panic is a value of
  type \<open>outcome\<close>. Goroutines are steps: each critical section or channel operation is one step, and
  runs are arbitrary interleavings (\<open>engine_step\<close>, \<open>app_step\<close>, \<open>ws_step\<close>, \<open>db_reachable\<close>). Choices of
  the runtime (map order, select, random numbers, time) are arguments. The tools see a server as a
  record \<open>peer\<close> of calls on a world; the properties plug the modelled handlers and hub in.

  \<^bold>\<open>What is shown.\<close>
  \<^item> Matching: a refinement to price-time priority with exactly one trade per fill; the book stays
    sorted, uncrossed, indexed and exact for every behaviour of the repositories; orders are never
    overfilled; an order is filled or rests; the loops terminate; stopping drains the queues.
  \<^item> The running exchange: under every interleaving the stored orders agree with the live ones, and
    what reaches the engine is admissible; the create handler accepts exactly the valid orders.
  \<^item> Storage: accepted orders stay found on both storages, the pages of a query cover the matches,
    the worker accounts for every accepted write, the cache answers what was written until it expires.
  \<^item> Transport: every request is answered, budgets are per client, users are authenticated; the
    hub never panics, keeps its limits, and delivers broadcasts to the subscribers.
  \<^item> Cluster and start-up: one engine per stock, equal broadcasts on all instances, a consistent
    assembly for each valid configuration.
  \<^item> Feeds: bounds of simulated prices, consistency of their figures, the backoff of the reconnection.
  \<^item> Equal orders trade in pairs, first come, first served, which is what the tools rely on. Every
    order a tool can send is accepted, and the order it is told about is the stored one. Their
    percentiles are exact nearest ranks although they are computed in floating point; the verdict of
    the compliance tool misses no check; how many clients of a load test the hub admits is decided by
    the trust in the sending machine.
  \<^item> Where the code does not do what it means to, the theorem states what it does: a failing trade
    store empties the book, a refused order is reported open, a trade ahead of its order loses the
    batch, writes after the signal are refused, a client can stay registered, own events come twice,
    truncation stops the walk, the backoff overflows, default stocks may have no ticker, a second
    compliance run meets the bid the first has left, the WebSocket load test can crash at its end, a
    client that only listens is cut off after a minute and fails that test.

  \<^bold>\<open>Bounds and fuel.\<close> The matching loops are total functions; \<open>matching_loops_terminate\<close> gives the
  number of iterations that is enough. Retries are bounded by the configuration. Goroutine loops are
  not given fuel: their turns are steps, and the theorems on draining state the number of turns. In
  the tools \<open>read_until\<close> ends because a read takes at least a tick of the clock; the read loops of
  the load clients take the number of messages as an argument, because they end with the connection;
  \<open>wait_connected\<close> has 25 rounds of 200 ms, enough for its 5 seconds by \<open>wait_connected_done\<close>; the
  doubling of the stress ramp is a partial function, and \<open>workerCounts_doubles\<close> shows that it returns.

  \<^bold>\<open>Not modelled.\<close> Third-party code is a parameter or its documented behaviour is written out:
  the PostgreSQL server, Redis, NATS, the JWT, bcrypt and rate packages, chi, Prometheus and the
  WebSocket library. Durations in logs are left out. Of the tools, flag parsing, progress lines and the
  detail texts of checks, which only print, are not modelled. The repository and simulator interfaces
  declare methods only.
\<close>

end
